theory Spec2Isabelle
  imports Main "HOL-Library.Word" "HOL-Library.AList"
begin

text \<open>
  hcstool creates and starts a virtual machine through the Host Compute Service of
  Windows. This theory embeds the part of the tool that carries the creation
  transaction: the configuration document and its transformers (\<open>extractVHDPaths\<close>,
  \<open>makePathsAbsolute\<close>, \<open>injectGPU\<close>), the wrappers around computecore.dll
  (hcsapi.go) and \<open>CreateAndStartVM\<close> with \<open>terminateAndClose\<close> and \<open>revokeAll\<close>. Line
  numbers refer to hcsapi.go and to part_000 of the sources.
\<close>

section \<open>HCS v2 configuration documents\<close>

text \<open>
  The Go structs of the tool become records. A pointer field (\<open>*T\<close>) is an option:
  \<open>None\<close> is the nil pointer. A \<open>json.RawMessage\<close> is the text it holds.

  A Go map with string keys is an association list inside an option: \<open>None\<close> is the nil
  map, \<open>Some []\<close> an empty one. The order of the list stands for the order in which a
  \<open>range\<close> loop visits the entries; Go does not fix that order, so everything below is
  proved for every order. One attempt ranges over the maps twice, in \<open>makePathsAbsolute\<close>
  and in \<open>extractVHDPaths\<close>, possibly in two orders; the second loop only runs when the
  first has succeeded, and then the document the first leaves does not depend on its
  order, so the order of the list is the order of the loop that matters.
\<close>

type_synonym RawMessage = string

type_synonym 'v gomap = "(string \<times> 'v) list option"

definition entries :: "'v gomap \<Rightarrow> (string \<times> 'v) list" where
  "entries m = (case m of None \<Rightarrow> [] | Some al \<Rightarrow> al)"

record SchemaVersion =
  Major :: int
  Minor :: int

record ScsiAttachment =
  Type :: string
  Path :: string

record ScsiController =
  Attachments :: "ScsiAttachment option gomap"

record VirtualPciDev =
  DeviceInstancePath :: string
  VirtualFunction :: int

record DevicesSpec =
  Scsi :: "ScsiController option gomap"
  VirtualPci :: "VirtualPciDev option gomap"
  EnhancedModeVideo :: RawMessage
  GuestInterface :: RawMessage
  Keyboard :: RawMessage
  Mouse :: RawMessage
  VideoMonitor :: RawMessage

record VirtualMachineSpec =
  StopOnReset :: bool
  Chipset :: RawMessage
  ComputeTopology :: RawMessage
  Devices :: "DevicesSpec option"

record ComputeSystemSpec =
  Owner :: string
  SchemaVersion :: "SchemaVersion option"
  ShouldTerminateOnLastHandleClosed :: bool
  VirtualMachine :: "VirtualMachineSpec option"

record GpuDevice =
  Name :: string
  InstanceID :: string

text \<open>The zero values \<open>&VirtualMachineSpec{}\<close> and \<open>&DevicesSpec{}\<close> of \<open>injectGPU\<close>.\<close>

definition zeroVirtualMachineSpec :: VirtualMachineSpec where
  "zeroVirtualMachineSpec =
     \<lparr>StopOnReset = False, Chipset = [], ComputeTopology = [], Devices = None\<rparr>"

definition zeroDevicesSpec :: DevicesSpec where
  "zeroDevicesSpec =
     \<lparr>Scsi = None, VirtualPci = None, EnhancedModeVideo = [], GuestInterface = [],
      Keyboard = [], Mouse = [], VideoMonitor = []\<rparr>"

section \<open>Errors\<close>

text \<open>
  A Go \<open>error\<close> value. \<open>HcsError\<close> is the struct of that name (operation, HRESULT,
  result document). \<open>Errorf\<close> is \<open>fmt.Errorf\<close> with its format string and its string
  operands, \<open>Errorfw\<close> the same with the error wrapped by \<open>%w\<close>. \<open>EINVAL\<close> is
  \<open>syscall.EINVAL\<close>, and
  \<open>LibError\<close> an error of a library the tool calls (encoding/json, path/filepath,
  SetupAPI, the GUID generator).
\<close>

datatype error =
    HcsError string "32 word" string
  | Errorf string "string list"
  | Errorfw string "string list" error
  | EINVAL
  | LibError string

section \<open>Spec transformer\<close>

text \<open>
  \<open>extractVHDPaths\<close> (part_000, lines 216-232). The inner loop appends the path of
  every attachment that is not nil and has a path; the outer loop skips nil controllers.
\<close>

fun extractAttachments ::
  "(string \<times> ScsiAttachment option) list \<Rightarrow> string list \<Rightarrow> string list" where
  "extractAttachments [] paths = paths"
| "extractAttachments ((slot, att) # rest) paths =
     extractAttachments rest
       (case att of
          None \<Rightarrow> paths
        | Some a \<Rightarrow> if Path a \<noteq> [] then paths @ [Path a] else paths)"

fun extractControllers ::
  "(string \<times> ScsiController option) list \<Rightarrow> string list \<Rightarrow> string list" where
  "extractControllers [] paths = paths"
| "extractControllers ((nm, ctrl) # rest) paths =
     extractControllers rest
       (case ctrl of
          None \<Rightarrow> paths
        | Some c \<Rightarrow> extractAttachments (entries (Attachments c)) paths)"

definition extractVHDPaths :: "ComputeSystemSpec \<Rightarrow> string list" where
  "extractVHDPaths spec =
     (case VirtualMachine spec of
        None \<Rightarrow> []
      | Some vm \<Rightarrow>
          (case Devices vm of
             None \<Rightarrow> []
           | Some devs \<Rightarrow> extractControllers (entries (Scsi devs)) []))"

text \<open>
  \<open>makePathsAbsolute\<close> (part_000, lines 235-254). The function rewrites the document
  in place and stops at the first path \<open>filepath.Abs\<close> rejects, so the model returns the
  document as it stands at the return together with the error (\<open>None\<close> is nil): the
  attachments visited before the failure are already rewritten, the others are not.
  \<open>filepath.Abs\<close> is the parameter \<open>Abs\<close>. A nil map stays nil.
\<close>

fun absAttachments ::
  "(string \<Rightarrow> string \<times> error option) \<Rightarrow> (string \<times> ScsiAttachment option) list \<Rightarrow>
   (string \<times> ScsiAttachment option) list \<times> error option" where
  "absAttachments Abs [] = ([], None)"
| "absAttachments Abs ((slot, att) # rest) =
     (case att of
        None \<Rightarrow>
          (case absAttachments Abs rest of (rest', e) \<Rightarrow> ((slot, att) # rest', e))
      | Some a \<Rightarrow>
          if Path a \<noteq> [] then
            (case Abs (Path a) of
               (resolved, Some err) \<Rightarrow>
                 ((slot, att) # rest,
                  Some (Errorfw ''cannot resolve path %q: %w'' [Path a] err))
             | (resolved, None) \<Rightarrow>
                 (case absAttachments Abs rest of
                    (rest', e) \<Rightarrow> ((slot, Some (a\<lparr>Path := resolved\<rparr>)) # rest', e)))
          else
            (case absAttachments Abs rest of (rest', e) \<Rightarrow> ((slot, att) # rest', e)))"

fun absControllers ::
  "(string \<Rightarrow> string \<times> error option) \<Rightarrow> (string \<times> ScsiController option) list \<Rightarrow>
   (string \<times> ScsiController option) list \<times> error option" where
  "absControllers Abs [] = ([], None)"
| "absControllers Abs ((nm, ctrl) # rest) =
     (case ctrl of
        None \<Rightarrow>
          (case absControllers Abs rest of (rest', e) \<Rightarrow> ((nm, ctrl) # rest', e))
      | Some c \<Rightarrow>
          (case Attachments c of
             None \<Rightarrow>
               (case absControllers Abs rest of (rest', e) \<Rightarrow> ((nm, ctrl) # rest', e))
           | Some atts \<Rightarrow>
               (case absAttachments Abs atts of
                  (atts', Some err) \<Rightarrow>
                    ((nm, Some (c\<lparr>Attachments := Some atts'\<rparr>)) # rest, Some err)
                | (atts', None) \<Rightarrow>
                    (case absControllers Abs rest of
                       (rest', e) \<Rightarrow>
                         ((nm, Some (c\<lparr>Attachments := Some atts'\<rparr>)) # rest', e)))))"

definition makePathsAbsolute ::
  "(string \<Rightarrow> string \<times> error option) \<Rightarrow> ComputeSystemSpec \<Rightarrow>
   ComputeSystemSpec \<times> error option" where
  "makePathsAbsolute Abs spec =
     (case VirtualMachine spec of
        None \<Rightarrow> (spec, None)
      | Some vm \<Rightarrow>
          (case Devices vm of
             None \<Rightarrow> (spec, None)
           | Some devs \<Rightarrow>
               (case Scsi devs of
                  None \<Rightarrow> (spec, None)
                | Some ctrls \<Rightarrow>
                    (case absControllers Abs ctrls of
                       (ctrls', e) \<Rightarrow>
                         (spec\<lparr>VirtualMachine :=
                            Some (vm\<lparr>Devices := Some (devs\<lparr>Scsi := Some ctrls'\<rparr>)\<rparr>)\<rparr>,
                          e)))))"

text \<open>
  Every path a document holds in a SCSI attachment, empty ones included, in the order
  of the maps: what \<open>extractVHDPaths\<close> and \<open>makePathsAbsolute\<close> range over.
\<close>

definition pathsOfAttachments :: "(string \<times> ScsiAttachment option) list \<Rightarrow> string list" where
  "pathsOfAttachments atts =
     concat (map (\<lambda>(slot, att). case att of None \<Rightarrow> [] | Some a \<Rightarrow> [Path a]) atts)"

definition pathsOfControllers :: "(string \<times> ScsiController option) list \<Rightarrow> string list" where
  "pathsOfControllers ctrls =
     concat (map (\<lambda>(nm, ctrl). case ctrl of
                                   None \<Rightarrow> []
                                 | Some c \<Rightarrow> pathsOfAttachments (entries (Attachments c)))
                 ctrls)"

definition attachmentPaths :: "ComputeSystemSpec \<Rightarrow> string list" where
  "attachmentPaths spec =
     (case VirtualMachine spec of
        None \<Rightarrow> []
      | Some vm \<Rightarrow>
          (case Devices vm of
             None \<Rightarrow> []
           | Some devs \<Rightarrow> pathsOfControllers (entries (Scsi devs))))"

text \<open>
  What \<open>makePathsAbsolute\<close> does to one path: an empty path stays empty, any other
  path \<open>p\<close> becomes the path \<open>q\<close> that \<open>filepath.Abs\<close> returns for it without error.
\<close>

definition resolves :: "(string \<Rightarrow> string \<times> error option) \<Rightarrow> string \<Rightarrow> string \<Rightarrow> bool" where
  "resolves Abs p q = (if p = [] then q = [] else Abs p = (q, None))"

text \<open>
  A document without a SCSI attachment: the virtual-machine section, the device
  section or the controller map is nil, or every controller is nil or has a nil or
  empty attachment map or only nil attachments.
\<close>

definition no_attachments :: "ComputeSystemSpec \<Rightarrow> bool" where
  "no_attachments spec =
     (case VirtualMachine spec of
        None \<Rightarrow> True
      | Some vm \<Rightarrow>
          (case Devices vm of
             None \<Rightarrow> True
           | Some devs \<Rightarrow>
               list_all (\<lambda>(nm, ctrl). case ctrl of
                                         None \<Rightarrow> True
                                       | Some c \<Rightarrow>
                                           list_all (\<lambda>(slot, att). att = None)
                                             (entries (Attachments c)))
                 (entries (Scsi devs))))"

text \<open>
  \<open>fmt.Sprintf("%d", i)\<close> for the index of a \<open>range\<close> loop, which is never negative:
  the decimal digits of \<open>i\<close>, most significant first.
\<close>

definition digit :: "nat \<Rightarrow> char" where
  "digit d = char_of (48 + d)"

fun Sprintf_d :: "nat \<Rightarrow> string" where
  "Sprintf_d n = (if n < 10 then [digit n] else Sprintf_d (n div 10) @ [digit (n mod 10)])"

declare Sprintf_d.simps [simp del]

text \<open>\<open>fmt.Sprintf("gpu-%d", i)\<close>, the key of line 268.\<close>

definition Sprintf_gpu :: "nat \<Rightarrow> string" where
  "Sprintf_gpu i = ''gpu-'' @ Sprintf_d i"

text \<open>
  \<open>injectGPU\<close> (part_000, lines 258-275). \<open>pciDevs[key] = v\<close> is the update of the
  association list; the loop counts its index \<open>i\<close> from 0.
\<close>

fun injectLoop ::
  "GpuDevice list \<Rightarrow> nat \<Rightarrow> (string \<times> VirtualPciDev option) list \<Rightarrow>
   (string \<times> VirtualPciDev option) list" where
  "injectLoop [] i pciDevs = pciDevs"
| "injectLoop (gpu # gpus) i pciDevs =
     injectLoop gpus (Suc i)
       (AList.update (Sprintf_gpu i)
          (Some \<lparr>DeviceInstancePath = InstanceID gpu, VirtualFunction = 0xFFFF\<rparr>)
          pciDevs)"

definition injectGPU :: "ComputeSystemSpec \<Rightarrow> GpuDevice list \<Rightarrow> ComputeSystemSpec" where
  "injectGPU spec gpus =
     (let vm = (case VirtualMachine spec of None \<Rightarrow> zeroVirtualMachineSpec | Some v \<Rightarrow> v);
          devs = (case Devices vm of None \<Rightarrow> zeroDevicesSpec | Some d \<Rightarrow> d);
          pciDevs = injectLoop gpus 0 []
      in spec\<lparr>VirtualMachine :=
           Some (vm\<lparr>Devices := Some (devs\<lparr>VirtualPci := Some pciDevs\<rparr>)\<rparr>)\<rparr>)"

section \<open>The host and the compute service\<close>

text \<open>
  \<open>uintptr\<close> is taken 64 bits wide, as on the 64-bit hosts that run Hyper-V;
  \<open>HcsSystem\<close> and \<open>HcsOperation\<close> are \<open>uintptr\<close> (hcsapi.go, lines 12-13).
\<close>

type_synonym uintptr = "64 word"
type_synonym HcsSystem = uintptr
type_synonym HcsOperation = uintptr

text \<open>
  What the tool does to the world: the calls into computecore.dll, with their arguments,
  and the line written to standard output. \<open>HcsCreateOperation\<close> carries the handle the
  service returned (0 is NULL), so that a later close can be matched to its open. The
  diagnostics written to standard error are left out.
\<close>

datatype call =
    HcsCreateOperation uintptr
  | HcsCloseOperation HcsOperation
  | HcsWaitForOperationResult HcsOperation "32 word"
  | HcsCreateComputeSystem string string HcsOperation
  | HcsCloseComputeSystem HcsSystem
  | HcsStartComputeSystem HcsSystem HcsOperation
  | HcsTerminateComputeSystem HcsSystem HcsOperation
  | HcsGrantVmAccess string string
  | HcsRevokeVmAccess string string
  | Println string

record GUID =
  Data1 :: "32 word"
  Data2 :: "16 word"
  Data3 :: "16 word"
  Data4 :: "8 word list"

text \<open>
  Everything the tool calls and does not define is a field of the host: the libraries
  (a Go result \<open>(v, err)\<close> is a pair whose second component is \<open>None\<close> for nil), the
  GPU discovery, and the answers of the compute service. An answer of the service may
  depend on all the calls made before it, which is how a fault is injected at any step.
  \<open>filepath_IsAbs\<close> and \<open>os_Stat\<close> are never called by the creation transaction; they
  are here to state what holds of a path (\<open>os.Stat\<close> is the existence check of
  \<open>buildMinimalSpec\<close>, part_000 line 540).
\<close>

record host =
  json_Unmarshal :: "string \<Rightarrow> ComputeSystemSpec \<times> error option"
  json_Marshal :: "ComputeSystemSpec \<Rightarrow> string \<times> error option"
  filepath_Abs :: "string \<Rightarrow> string \<times> error option"
  filepath_IsAbs :: "string \<Rightarrow> bool"
  os_Stat :: "string \<Rightarrow> error option"
  enumerateGPUs :: "GpuDevice list \<times> error option"
  GenerateGUID :: "GUID \<times> error option"
  GUID_String :: "GUID \<Rightarrow> string"
  HcsCreateOperation_ret :: "call list \<Rightarrow> uintptr"
  HcsWaitForOperationResult_ret ::
    "call list \<Rightarrow> HcsOperation \<Rightarrow> 32 word \<Rightarrow> uintptr \<times> string option"
  HcsCreateComputeSystem_ret ::
    "call list \<Rightarrow> string \<Rightarrow> string \<Rightarrow> HcsOperation \<Rightarrow> uintptr \<times> HcsSystem"
  HcsStartComputeSystem_ret :: "call list \<Rightarrow> HcsSystem \<Rightarrow> HcsOperation \<Rightarrow> uintptr"
  HcsTerminateComputeSystem_ret :: "call list \<Rightarrow> HcsSystem \<Rightarrow> HcsOperation \<Rightarrow> uintptr"
  HcsGrantVmAccess_ret :: "call list \<Rightarrow> string \<Rightarrow> string \<Rightarrow> uintptr"
  HcsRevokeVmAccess_ret :: "call list \<Rightarrow> string \<Rightarrow> string \<Rightarrow> uintptr"

section \<open>Operation channel and status decoder (hcsapi.go)\<close>

text \<open>
  Every function that calls the service takes the calls made so far and returns them
  extended, next to its Go result.
\<close>

text \<open>
  \<open>windows.UTF16PtrFromString\<close> fails with \<open>EINVAL\<close> exactly when the string contains a
  NUL. Only its error is modelled; the pointer it returns stands for the string itself.
\<close>

definition UTF16PtrFromString :: "string \<Rightarrow> error option" where
  "UTF16PtrFromString s = (if CHR 0x00 \<in> set s then Some EINVAL else None)"

definition hrOK :: "uintptr \<Rightarrow> bool" where
  "hrOK hr = (hr = 0 \<or> hr = 1)"

text \<open>The constant \<open>infinite\<close> of hcsapi.go, line 55.\<close>

definition infinite_timeout :: "32 word" where
  "infinite_timeout = 0xFFFFFFFF"

definition createOperation ::
  "host \<Rightarrow> call list \<Rightarrow> (HcsOperation \<times> error option) \<times> call list" where
  "createOperation h tr =
     (let r1 = HcsCreateOperation_ret h tr;
          tr' = tr @ [HcsCreateOperation r1]
      in if r1 = 0 then ((0, Some (Errorf ''HcsCreateOperation returned NULL'' [])), tr')
         else ((r1, None), tr'))"

definition closeOperation :: "HcsOperation \<Rightarrow> call list \<Rightarrow> call list" where
  "closeOperation opn tr = (if opn \<noteq> 0 then tr @ [HcsCloseOperation opn] else tr)"

definition waitForResult ::
  "host \<Rightarrow> HcsOperation \<Rightarrow> 32 word \<Rightarrow> call list \<Rightarrow> (string \<times> error option) \<times> call list" where
  "waitForResult h opn timeoutMs tr =
     (case HcsWaitForOperationResult_ret h tr opn timeoutMs of
        (hr, resultPtr) \<Rightarrow>
          (let tr' = tr @ [HcsWaitForOperationResult opn timeoutMs];
               resultJSON = (case resultPtr of None \<Rightarrow> [] | Some doc \<Rightarrow> doc)
           in if \<not> hrOK hr
              then ((resultJSON,
                     Some (HcsError ''HcsWaitForOperationResult'' (ucast hr) resultJSON)), tr')
              else ((resultJSON, None), tr')))"

definition createComputeSystem ::
  "host \<Rightarrow> string \<Rightarrow> string \<Rightarrow> HcsOperation \<Rightarrow> call list \<Rightarrow>
   (HcsSystem \<times> error option) \<times> call list" where
  "createComputeSystem h ident configJSON opn tr =
     (case UTF16PtrFromString ident of
        Some err \<Rightarrow> ((0, Some (Errorfw ''invalid system id: %w'' [] err)), tr)
      | None \<Rightarrow>
          (case UTF16PtrFromString configJSON of
             Some err \<Rightarrow> ((0, Some (Errorfw ''invalid config JSON: %w'' [] err)), tr)
           | None \<Rightarrow>
               (case HcsCreateComputeSystem_ret h tr ident configJSON opn of
                  (hr, sys) \<Rightarrow>
                    (let tr' = tr @ [HcsCreateComputeSystem ident configJSON opn]
                     in if \<not> hrOK hr
                        then ((0, Some (HcsError ''HcsCreateComputeSystem'' (ucast hr) [])), tr')
                        else ((sys, None), tr')))))"

definition closeComputeSystem :: "HcsSystem \<Rightarrow> call list \<Rightarrow> call list" where
  "closeComputeSystem sys tr = (if sys \<noteq> 0 then tr @ [HcsCloseComputeSystem sys] else tr)"

definition startComputeSystem ::
  "host \<Rightarrow> HcsSystem \<Rightarrow> HcsOperation \<Rightarrow> call list \<Rightarrow> error option \<times> call list" where
  "startComputeSystem h sys opn tr =
     (let hr = HcsStartComputeSystem_ret h tr sys opn;
          tr' = tr @ [HcsStartComputeSystem sys opn]
      in if \<not> hrOK hr then (Some (HcsError ''HcsStartComputeSystem'' (ucast hr) []), tr')
         else (None, tr'))"

definition terminateComputeSystem ::
  "host \<Rightarrow> HcsSystem \<Rightarrow> HcsOperation \<Rightarrow> call list \<Rightarrow> error option \<times> call list" where
  "terminateComputeSystem h sys opn tr =
     (let hr = HcsTerminateComputeSystem_ret h tr sys opn;
          tr' = tr @ [HcsTerminateComputeSystem sys opn]
      in if \<not> hrOK hr then (Some (HcsError ''HcsTerminateComputeSystem'' (ucast hr) []), tr')
         else (None, tr'))"

definition grantVmAccess ::
  "host \<Rightarrow> string \<Rightarrow> string \<Rightarrow> call list \<Rightarrow> error option \<times> call list" where
  "grantVmAccess h vmID filePath tr =
     (case UTF16PtrFromString vmID of
        Some err \<Rightarrow> (Some (Errorfw ''invalid VM ID: %w'' [] err), tr)
      | None \<Rightarrow>
          (case UTF16PtrFromString filePath of
             Some err \<Rightarrow> (Some (Errorfw ''invalid file path: %w'' [] err), tr)
           | None \<Rightarrow>
               (let hr = HcsGrantVmAccess_ret h tr vmID filePath;
                    tr' = tr @ [HcsGrantVmAccess vmID filePath]
                in if \<not> hrOK hr
                   then (Some (HcsError (''HcsGrantVmAccess('' @ filePath @ '')'') (ucast hr) []),
                         tr')
                   else (None, tr'))))"

definition revokeVmAccess ::
  "host \<Rightarrow> string \<Rightarrow> string \<Rightarrow> call list \<Rightarrow> error option \<times> call list" where
  "revokeVmAccess h vmID filePath tr =
     (case UTF16PtrFromString vmID of
        Some err \<Rightarrow> (Some err, tr)
      | None \<Rightarrow>
          (case UTF16PtrFromString filePath of
             Some err \<Rightarrow> (Some err, tr)
           | None \<Rightarrow>
               (let hr = HcsRevokeVmAccess_ret h tr vmID filePath;
                    tr' = tr @ [HcsRevokeVmAccess vmID filePath]
                in if \<not> hrOK hr
                   then (Some (HcsError (''HcsRevokeVmAccess('' @ filePath @ '')'') (ucast hr) []),
                         tr')
                   else (None, tr'))))"

section \<open>Creation transaction (part_000, lines 279-422)\<close>

text \<open>
  \<open>terminateAndClose\<close> (lines 405-415): the errors of the terminate call and of its
  wait are dropped; when no operation can be created the system is only closed.
\<close>

definition terminateAndClose :: "host \<Rightarrow> HcsSystem \<Rightarrow> call list \<Rightarrow> call list" where
  "terminateAndClose h sys tr =
     (case createOperation h tr of
        ((opn, Some err), tr1) \<Rightarrow> closeComputeSystem sys tr1
      | ((opn, None), tr1) \<Rightarrow>
          (case terminateComputeSystem h sys opn tr1 of
             (_, tr2) \<Rightarrow>
               (case waitForResult h opn 5000 tr2 of
                  (_, tr3) \<Rightarrow> closeComputeSystem sys (closeOperation opn tr3))))"

text \<open>\<open>revokeAll\<close> (lines 418-422): the error of each revoke is dropped.\<close>

fun revokeAll :: "host \<Rightarrow> string \<Rightarrow> string list \<Rightarrow> call list \<Rightarrow> call list" where
  "revokeAll h vmID [] tr = tr"
| "revokeAll h vmID (p # paths) tr = revokeAll h vmID paths (snd (revokeVmAccess h vmID p tr))"

text \<open>
  \<open>strings.Trim(s, cutset)\<close> for a cutset of ASCII characters: the leading and the
  trailing characters of the cutset are removed.
\<close>

definition strings_Trim :: "string \<Rightarrow> string \<Rightarrow> string" where
  "strings_Trim s cutset =
     rev (dropWhile (\<lambda>c. c \<in> set cutset) (rev (dropWhile (\<lambda>c. c \<in> set cutset) s)))"

text \<open>
  \<open>CreateAndStartVM\<close> is split where its own comments split it. Lines 280-331, up to
  the VM identifier: the result is the error returned, or the document as transformed,
  its serialisation \<open>finalJSON\<close> and \<open>vmID\<close>. No call to the service is made here.
\<close>

definition CreateAndStartVM_prepare ::
  "host \<Rightarrow> string \<Rightarrow> bool \<Rightarrow> error + (ComputeSystemSpec \<times> string \<times> string)" where
  "CreateAndStartVM_prepare h specJSON addGPU =
     (case json_Unmarshal h specJSON of
        (spec0, Some err) \<Rightarrow> Inl (Errorfw ''invalid JSON spec: %w'' [] err)
      | (spec0, None) \<Rightarrow>
          (let spec1 = (if Owner spec0 = [] then spec0\<lparr>Owner := ''hcstool''\<rparr> else spec0)
           in case makePathsAbsolute (filepath_Abs h) spec1 of
                (spec2, Some err) \<Rightarrow> Inl err
              | (spec2, None) \<Rightarrow>
                  (case (if addGPU then
                           (case enumerateGPUs h of
                              (gpus, Some err) \<Rightarrow>
                                Inl (Errorfw ''GPU enumeration failed: %w'' [] err)
                            | (gpus, None) \<Rightarrow>
                                if length gpus = 0
                                then Inl (Errorf ''no GPUs found for GPU-PV'' [])
                                else Inr (injectGPU spec2 gpus))
                         else Inr spec2) of
                     Inl err \<Rightarrow> Inl err
                   | Inr spec3 \<Rightarrow>
                       (case json_Marshal h spec3 of
                          (specBytes, Some err) \<Rightarrow>
                            Inl (Errorfw ''failed to serialize spec: %w'' [] err)
                        | (specBytes, None) \<Rightarrow>
                            (case GenerateGUID h of
                               (guid, Some err) \<Rightarrow>
                                 Inl (Errorfw ''GenerateGUID failed: %w'' [] err)
                             | (guid, None) \<Rightarrow>
                                 Inr (spec3, specBytes,
                                      strings_Trim (GUID_String h guid) ''{}''))))))"

text \<open>
  Lines 333-346, the grant loop over \<open>vhdPaths\<close> with \<open>grantedPaths\<close> as accumulator.
  On the first failure the inner loop of lines 340-342 revokes \<open>grantedPaths\<close>; it is the
  loop of \<open>revokeAll\<close>. The result is the error returned (if any), \<open>grantedPaths\<close> and
  the calls.
\<close>

fun grantLoop ::
  "host \<Rightarrow> string \<Rightarrow> string list \<Rightarrow> string list \<Rightarrow> call list \<Rightarrow>
   error option \<times> string list \<times> call list" where
  "grantLoop h vmID [] grantedPaths tr = (None, grantedPaths, tr)"
| "grantLoop h vmID (p # vhdPaths) grantedPaths tr =
     (case grantVmAccess h vmID p tr of
        (Some err, tr1) \<Rightarrow>
          (Some (Errorfw ''grant VM access: %w'' [] err), grantedPaths,
           revokeAll h vmID grantedPaths tr1)
      | (None, tr1) \<Rightarrow> grantLoop h vmID vhdPaths (grantedPaths @ [p]) tr1)"

text \<open>Lines 371-401: start the created system, and on success print the identifier.\<close>

definition CreateAndStartVM_start ::
  "host \<Rightarrow> string \<Rightarrow> string list \<Rightarrow> HcsSystem \<Rightarrow> call list \<Rightarrow> error option \<times> call list" where
  "CreateAndStartVM_start h vmID grantedPaths sys tr =
     (case createOperation h tr of
        ((op2, Some err), tr1) \<Rightarrow>
          (Some err, revokeAll h vmID grantedPaths (terminateAndClose h sys tr1))
      | ((op2, None), tr1) \<Rightarrow>
          (case startComputeSystem h sys op2 tr1 of
             (Some err, tr2) \<Rightarrow>
               (Some err,
                revokeAll h vmID grantedPaths
                  (terminateAndClose h sys (closeOperation op2 tr2)))
           | (None, tr2) \<Rightarrow>
               (case waitForResult h op2 infinite_timeout tr2 of
                  ((_, waitErr), tr3) \<Rightarrow>
                    (let tr4 = closeOperation op2 tr3
                     in case waitErr of
                          Some werr \<Rightarrow>
                            (Some (Errorfw ''start compute system: %w'' [] werr),
                             revokeAll h vmID grantedPaths (terminateAndClose h sys tr4))
                        | None \<Rightarrow>
                            (None, closeComputeSystem sys tr4 @ [Println vmID])))))"

text \<open>Lines 348-369: create the compute system, then go on to start it.\<close>

definition CreateAndStartVM_create ::
  "host \<Rightarrow> string \<Rightarrow> string \<Rightarrow> string list \<Rightarrow> call list \<Rightarrow> error option \<times> call list" where
  "CreateAndStartVM_create h vmID finalJSON grantedPaths tr =
     (case createOperation h tr of
        ((opn, Some err), tr1) \<Rightarrow> (Some err, revokeAll h vmID grantedPaths tr1)
      | ((opn, None), tr1) \<Rightarrow>
          (case createComputeSystem h vmID finalJSON opn tr1 of
             ((sys, err), tr2) \<Rightarrow>
               (case waitForResult h opn infinite_timeout tr2 of
                  ((resultJSON, waitErr), tr3) \<Rightarrow>
                    (let tr4 = closeOperation opn tr3
                     in case err of
                          Some e \<Rightarrow> (Some e, revokeAll h vmID grantedPaths tr4)
                        | None \<Rightarrow>
                            (case waitErr of
                               Some werr \<Rightarrow>
                                 (Some (Errorfw ''create compute system: %w'' [] werr),
                                  revokeAll h vmID grantedPaths tr4)
                             | None \<Rightarrow>
                                 CreateAndStartVM_start h vmID grantedPaths sys tr4)))))"

text \<open>
  The whole function: the error returned (\<open>None\<close> is nil) and the calls made, after the
  calls \<open>tr\<close> made before it. \<open>name\<close> only appears in a diagnostic.
\<close>

definition CreateAndStartVM ::
  "host \<Rightarrow> string \<Rightarrow> string \<Rightarrow> bool \<Rightarrow> call list \<Rightarrow> error option \<times> call list" where
  "CreateAndStartVM h specJSON name addGPU tr =
     (case CreateAndStartVM_prepare h specJSON addGPU of
        Inl err \<Rightarrow> (Some err, tr)
      | Inr (spec, finalJSON, vmID) \<Rightarrow>
          (case grantLoop h vmID (extractVHDPaths spec) [] tr of
             (Some err, grantedPaths, tr1) \<Rightarrow> (Some err, tr1)
           | (None, grantedPaths, tr1) \<Rightarrow>
               CreateAndStartVM_create h vmID finalJSON grantedPaths tr1))"

section \<open>Reading a list of calls\<close>

text \<open>The kinds of call the properties below speak about.\<close>

fun is_grant :: "call \<Rightarrow> bool" where
  "is_grant (HcsGrantVmAccess vmID p) = True"
| "is_grant _ = False"

fun is_revoke :: "call \<Rightarrow> bool" where
  "is_revoke (HcsRevokeVmAccess vmID p) = True"
| "is_revoke _ = False"

fun is_create :: "call \<Rightarrow> bool" where
  "is_create (HcsCreateComputeSystem ident doc opn) = True"
| "is_create _ = False"

fun is_start :: "call \<Rightarrow> bool" where
  "is_start (HcsStartComputeSystem sys opn) = True"
| "is_start _ = False"

fun is_terminate :: "call \<Rightarrow> bool" where
  "is_terminate (HcsTerminateComputeSystem sys opn) = True"
| "is_terminate _ = False"

fun is_open :: "call \<Rightarrow> bool" where
  "is_open (HcsCreateOperation r) = (r \<noteq> 0)"
| "is_open _ = False"

fun is_close :: "call \<Rightarrow> bool" where
  "is_close (HcsCloseOperation opn) = True"
| "is_close _ = False"

text \<open>
  The result document an error carries, looked up through \<open>%w\<close> wrapping: the
  \<open>ResultJSON\<close> field of the \<open>HcsError\<close> inside, empty when there is none.
\<close>

fun resultDocument :: "error \<Rightarrow> string" where
  "resultDocument (HcsError opname hr doc) = doc"
| "resultDocument (Errorfw fmt args err) = resultDocument err"
| "resultDocument _ = []"



text \<open>
  The discipline of operation handles over a list of calls, given the handles open
  before it: every close is of a handle that is open at that moment (so none is closed
  twice, and none that was never opened), and at the end no handle is left open. The
  service may hand out the value of a closed handle again, so the open handles are
  kept with their multiplicity.
\<close>

fun handles_closed_once :: "HcsOperation list \<Rightarrow> call list \<Rightarrow> bool" where
  "handles_closed_once opened [] = (opened = [])"
| "handles_closed_once opened (HcsCreateOperation r # calls) =
     handles_closed_once (if r \<noteq> 0 then r # opened else opened) calls"
| "handles_closed_once opened (HcsCloseOperation opn # calls) =
     (opn \<in> set opened \<and> handles_closed_once (remove1 opn opened) calls)"
| "handles_closed_once opened (c # calls) = handles_closed_once opened calls"

text \<open>
  A stretch of calls that keeps the discipline by itself: it closes exactly the handles
  it opened, so whatever follows it is judged as if the stretch were not there.
\<close>

definition balanced :: "call list \<Rightarrow> bool" where
  "balanced calls =
     (\<forall>opened rest.
        handles_closed_once opened (calls @ rest) = handles_closed_once opened rest)"

text \<open>A call that neither opens nor closes an operation.\<close>

fun is_plain :: "call \<Rightarrow> bool" where
  "is_plain (HcsCreateOperation r) = False"
| "is_plain (HcsCloseOperation opn) = False"
| "is_plain _ = True"

text \<open>
  The calls that creating and starting may make for the identifier \<open>vmID\<close>, the
  document \<open>doc\<close> and the granted paths \<open>g\<close>: no grant, a revoke only of a granted path,
  a create call only for \<open>vmID\<close> and \<open>doc\<close>, a print only of \<open>vmID\<close>.
\<close>

fun phase_call :: "string \<Rightarrow> string \<Rightarrow> string list \<Rightarrow> call \<Rightarrow> bool" where
  "phase_call vmID doc g (HcsGrantVmAccess v p) = False"
| "phase_call vmID doc g (HcsRevokeVmAccess v p) = (v = vmID \<and> p \<in> set g)"
| "phase_call vmID doc g (HcsCreateComputeSystem ident d opn) = (ident = vmID \<and> d = doc)"
| "phase_call vmID doc g (Println s) = (s = vmID)"
| "phase_call vmID doc g _ = True"

text \<open>
  The revokes of \<open>revokeAll\<close> reach the service for the paths \<open>ps\<close>: there is nothing to
  revoke, or the identifier and every path pass \<open>UTF16PtrFromString\<close>.
\<close>

definition revocable :: "string \<Rightarrow> string list \<Rightarrow> bool" where
  "revocable vmID ps =
     (ps = [] \<or>
      (UTF16PtrFromString vmID = None \<and> list_all (\<lambda>p. UTF16PtrFromString p = None) ps))"

section \<open>Example documents and hosts\<close>

text \<open>
  A document with two controllers and a nil one, three disks (two of them at relative
  paths), a nil attachment and an attachment with an empty path.
\<close>

definition disk :: "string \<Rightarrow> ScsiAttachment option" where
  "disk p = Some \<lparr>Type = ''VirtualDisk'', Path = p\<rparr>"

definition three_disks :: ComputeSystemSpec where
  "three_disks =
     \<lparr>Owner = [], SchemaVersion = Some \<lparr>Major = 2, Minor = 1\<rparr>,
      ShouldTerminateOnLastHandleClosed = False,
      VirtualMachine = Some (zeroVirtualMachineSpec\<lparr>Devices := Some (zeroDevicesSpec\<lparr>Scsi :=
        Some [(''Primary'',
                 Some \<lparr>Attachments = Some [(''0'', disk ''a.vhdx''), (''1'', None),
                                            (''2'', disk ''C:/vm/b.vhdx'')]\<rparr>),
              (''Spare'', None),
              (''Secondary'',
                 Some \<lparr>Attachments = Some [(''0'', disk ''c.vhdx''), (''1'', disk [])]\<rparr>)]\<rparr>)\<rparr>)\<rparr>"

text \<open>The same document with the default owner and every path resolved against \<open>C:/cwd\<close>.\<close>

definition three_disks_abs :: ComputeSystemSpec where
  "three_disks_abs =
     \<lparr>Owner = ''hcstool'', SchemaVersion = Some \<lparr>Major = 2, Minor = 1\<rparr>,
      ShouldTerminateOnLastHandleClosed = False,
      VirtualMachine = Some (zeroVirtualMachineSpec\<lparr>Devices := Some (zeroDevicesSpec\<lparr>Scsi :=
        Some [(''Primary'',
                 Some \<lparr>Attachments = Some [(''0'', disk ''C:/cwd/a.vhdx''), (''1'', None),
                                            (''2'', disk ''C:/vm/b.vhdx'')]\<rparr>),
              (''Spare'', None),
              (''Secondary'',
                 Some \<lparr>Attachments = Some [(''0'', disk ''C:/cwd/c.vhdx''), (''1'', disk [])]\<rparr>)]\<rparr>)\<rparr>)\<rparr>"

definition three_disks_doc :: string where
  "three_disks_doc = ''Owner=hcstool;C:/cwd/a.vhdx;C:/vm/b.vhdx;C:/cwd/c.vhdx''"

definition example_vmID :: string where
  "example_vmID = ''6F9619FF-8B86-D011-B42D-00C04FC964FF''"

text \<open>A document with no virtual-machine section at all.\<close>

definition bare_spec :: ComputeSystemSpec where
  "bare_spec =
     \<lparr>Owner = ''me'', SchemaVersion = None, ShouldTerminateOnLastHandleClosed = False,
      VirtualMachine = None\<rparr>"

definition old_spec :: ComputeSystemSpec where
  "old_spec =
     \<lparr>Owner = ''me'', SchemaVersion = None, ShouldTerminateOnLastHandleClosed = False,
      VirtualMachine = Some (zeroVirtualMachineSpec\<lparr>Devices := Some (zeroDevicesSpec\<lparr>VirtualPci :=
        Some [(''nic'', Some \<lparr>DeviceInstancePath = ''PCI/NIC'', VirtualFunction = 3\<rparr>),
              (''gpu-0'', None)]\<rparr>)\<rparr>)\<rparr>"

definition example_guid :: GUID where
  "example_guid =
     \<lparr>Data1 = 0x6F9619FF, Data2 = 0x8B86, Data3 = 0xD011,
      Data4 = [0xB4, 0x2D, 0x00, 0xC0, 0x4F, 0xC9, 0x64, 0xFF]\<rparr>"

text \<open>
  A host on which everything succeeds. Relative paths resolve against \<open>C:/cwd\<close>; the
  serialisation lists the owner and the disk paths; the files of \<open>three_disks\<close> exist;
  the first operation handle is 0x11, the second 0x22, any later one 0x33.
\<close>

definition example_host :: host where
  "example_host =
     \<lparr>json_Unmarshal =
        (\<lambda>s. if s = ''three-disks.json'' then (three_disks, None)
             else if s = ''bare.json'' then (bare_spec, None)
             else (bare_spec, Some (LibError ''invalid character''))),
      json_Marshal =
        (\<lambda>spec. (''Owner='' @ Owner spec @ concat (map (\<lambda>p. '';'' @ p) (extractVHDPaths spec)),
                  None)),
      filepath_Abs = (\<lambda>p. if take 3 p = ''C:/'' then (p, None) else (''C:/cwd/'' @ p, None)),
      filepath_IsAbs = (\<lambda>p. take 3 p = ''C:/''),
      os_Stat =
        (\<lambda>p. if p = ''C:/cwd/a.vhdx'' \<or> p = ''C:/vm/b.vhdx'' \<or> p = ''C:/cwd/c.vhdx''
             then None else Some (LibError ''file does not exist'')),
      enumerateGPUs =
        ([\<lparr>Name = ''A'', InstanceID = ''PCI/VEN_10DE''\<rparr>,
          \<lparr>Name = ''B'', InstanceID = ''PCI/VEN_1002''\<rparr>], None),
      GenerateGUID = (example_guid, None),
      GUID_String = (\<lambda>g. ''{6F9619FF-8B86-D011-B42D-00C04FC964FF}''),
      HcsCreateOperation_ret =
        (\<lambda>tr. if filter is_open tr = [] then 0x11
              else if length (filter is_open tr) = 1 then 0x22 else 0x33),
      HcsWaitForOperationResult_ret = (\<lambda>tr opn t. (0, None)),
      HcsCreateComputeSystem_ret = (\<lambda>tr ident doc opn. (0, 0x5000)),
      HcsStartComputeSystem_ret = (\<lambda>tr sys opn. 0),
      HcsTerminateComputeSystem_ret = (\<lambda>tr sys opn. 0),
      HcsGrantVmAccess_ret = (\<lambda>tr vmID p. 0),
      HcsRevokeVmAccess_ret = (\<lambda>tr vmID p. 0)\<rparr>"

text \<open>The third grant of an attempt is refused (access denied).\<close>

definition host_grant_fault :: host where
  "host_grant_fault =
     example_host\<lparr>HcsGrantVmAccess_ret :=
       (\<lambda>tr vmID p. if length (filter is_grant tr) = 2 then 0x80070005 else 0)\<rparr>"

text \<open>The wait of every operation fails and returns a result document.\<close>

definition host_wait_fault :: host where
  "host_wait_fault =
     example_host\<lparr>HcsWaitForOperationResult_ret :=
       (\<lambda>tr opn t. (0xC0351000, Some ''{Error:no hypervisor}''))\<rparr>"

text \<open>
  The create request is refused at submission (access denied); the wait that follows
  fails too and returns a result document.
\<close>

definition host_submit_fault :: host where
  "host_submit_fault =
     example_host\<lparr>HcsCreateComputeSystem_ret := (\<lambda>tr ident doc opn. (0x80070005, 0)),
                  HcsWaitForOperationResult_ret :=
       (\<lambda>tr opn t. (0xC0370103, Some ''{Error:not started}''))\<rparr>"

text \<open>The start request is refused at submission.\<close>

definition host_start_fault :: host where
  "host_start_fault =
     example_host\<lparr>HcsStartComputeSystem_ret := (\<lambda>tr sys opn. 0x80070005)\<rparr>"

text \<open>
  The start request is refused at submission, and after two operation handles the
  service has none left: \<open>HcsCreateOperation\<close> returns NULL.
\<close>

definition host_start_fault_no_handle :: host where
  "host_start_fault_no_handle =
     example_host\<lparr>HcsStartComputeSystem_ret := (\<lambda>tr sys opn. 0x80070005),
                  HcsCreateOperation_ret :=
       (\<lambda>tr. if filter is_open tr = [] then 0x11
             else if length (filter is_open tr) = 1 then 0x22 else 0)\<rparr>"

text \<open>None of the disk files exists.\<close>

definition host_missing_files :: host where
  "host_missing_files =
     example_host\<lparr>os_Stat := (\<lambda>p. Some (LibError ''file does not exist''))\<rparr>"

text \<open>The discovery finds no GPU.\<close>

definition host_no_gpu :: host where
  "host_no_gpu = example_host\<lparr>enumerateGPUs := ([], None)\<rparr>"

text \<open>
  The part of \<open>filepath.Clean\<close> that drops a path element \<open>.\<close>: every \<open>/./\<close> becomes
  \<open>/\<close>.
\<close>

fun cleanDots :: "string \<Rightarrow> string" where
  "cleanDots (a # b # c # rest) =
     (if a = CHR ''/'' \<and> b = CHR ''.'' \<and> c = CHR ''/'' then cleanDots (c # rest)
      else a # cleanDots (b # c # rest))"
| "cleanDots s = s"

text \<open>
  A document whose three disk paths are distinct as written, two of them naming the
  same file, and a document with one disk at an absolute path that is not clean.
\<close>

definition twin_disks :: ComputeSystemSpec where
  "twin_disks =
     \<lparr>Owner = ''me'', SchemaVersion = None, ShouldTerminateOnLastHandleClosed = False,
      VirtualMachine = Some (zeroVirtualMachineSpec\<lparr>Devices := Some (zeroDevicesSpec\<lparr>Scsi :=
        Some [(''Primary'',
                 Some \<lparr>Attachments = Some [(''0'', disk ''a.vhdx''), (''1'', disk ''./a.vhdx''),
                                            (''2'', disk ''c.vhdx'')]\<rparr>)]\<rparr>)\<rparr>)\<rparr>"

definition twin_disks_abs :: ComputeSystemSpec where
  "twin_disks_abs =
     \<lparr>Owner = ''me'', SchemaVersion = None, ShouldTerminateOnLastHandleClosed = False,
      VirtualMachine = Some (zeroVirtualMachineSpec\<lparr>Devices := Some (zeroDevicesSpec\<lparr>Scsi :=
        Some [(''Primary'',
                 Some \<lparr>Attachments = Some [(''0'', disk ''C:/cwd/a.vhdx''),
                                            (''1'', disk ''C:/cwd/a.vhdx''),
                                            (''2'', disk ''C:/cwd/c.vhdx'')]\<rparr>)]\<rparr>)\<rparr>)\<rparr>"

definition unclean_disk :: ComputeSystemSpec where
  "unclean_disk =
     \<lparr>Owner = ''me'', SchemaVersion = None, ShouldTerminateOnLastHandleClosed = False,
      VirtualMachine = Some (zeroVirtualMachineSpec\<lparr>Devices := Some (zeroDevicesSpec\<lparr>Scsi :=
        Some [(''Primary'',
                 Some \<lparr>Attachments = Some [(''0'', disk ''C:/vm/./b.vhdx'')]\<rparr>)]\<rparr>)\<rparr>)\<rparr>"

definition clean_disk :: ComputeSystemSpec where
  "clean_disk =
     \<lparr>Owner = ''me'', SchemaVersion = None, ShouldTerminateOnLastHandleClosed = False,
      VirtualMachine = Some (zeroVirtualMachineSpec\<lparr>Devices := Some (zeroDevicesSpec\<lparr>Scsi :=
        Some [(''Primary'',
                 Some \<lparr>Attachments = Some [(''0'', disk ''C:/vm/b.vhdx'')]\<rparr>)]\<rparr>)\<rparr>)\<rparr>"

text \<open>
  A host whose \<open>filepath.Abs\<close> also cleans the path, as the one of Go does: a relative
  path is joined to \<open>C:/cwd\<close>, and the elements \<open>.\<close> are dropped. It parses
  \<open>twin-disks.json\<close> to \<open>twin_disks\<close>.
\<close>

definition host_cleaning :: host where
  "host_cleaning =
     example_host\<lparr>
       json_Unmarshal :=
         (\<lambda>s. if s = ''twin-disks.json'' then (twin_disks, None)
              else json_Unmarshal example_host s),
       filepath_Abs :=
         (\<lambda>p. (cleanDots (if take 3 p = ''C:/'' then p else ''C:/cwd/'' @ p), None))\<rparr>"

text \<open>The same host, refusing the third grant of an attempt.\<close>

definition host_cleaning_grant_fault :: host where
  "host_cleaning_grant_fault =
     host_cleaning\<lparr>HcsGrantVmAccess_ret :=
       (\<lambda>tr vmID p. if length (filter is_grant tr) = 2 then 0x80070005 else 0)\<rparr>"

section \<open>GPU injection\<close>

lemma digit_inj: "a < 10 \<Longrightarrow> b < 10 \<Longrightarrow> digit a = digit b \<Longrightarrow> a = b"
proof -
  assume a: "a < 10" and b: "b < 10" and e: "digit a = digit b"
  from e have "of_char (digit a) = (of_char (digit b) :: nat)" by simp
  then have "(48 + a) mod 256 = (48 + b) mod 256"
    by (simp add: digit_def)
  with a b show "a = b" by simp
qed

lemma Sprintf_d_not_Nil: "Sprintf_d n \<noteq> []"
  by (subst Sprintf_d.simps) simp

lemma Sprintf_d_last: "last (Sprintf_d n) = digit (n mod 10)"
  by (subst Sprintf_d.simps) simp

lemma Sprintf_d_butlast:
  "butlast (Sprintf_d n) = (if n < 10 then [] else Sprintf_d (n div 10))"
  by (subst Sprintf_d.simps) simp

lemma Sprintf_d_inj: "Sprintf_d n = Sprintf_d m \<Longrightarrow> n = m"
proof (induction n arbitrary: m rule: Sprintf_d.induct)
  case (1 n)
  from "1.prems" have l: "digit (n mod 10) = digit (m mod 10)"
    by (metis Sprintf_d_last)
  then have m10: "n mod 10 = m mod 10"
    by (intro digit_inj) simp_all
  from "1.prems" have bl: "butlast (Sprintf_d n) = butlast (Sprintf_d m)" by simp
  show ?case
  proof (cases "n < 10")
    case True
    with bl have "m < 10"
      using Sprintf_d_not_Nil[of "m div 10"]
      by (auto simp: Sprintf_d_butlast split: if_splits)
    with True m10 show ?thesis by simp
  next
    case False
    with bl have m: "\<not> m < 10" and e: "Sprintf_d (n div 10) = Sprintf_d (m div 10)"
      using Sprintf_d_not_Nil[of "n div 10"]
      by (auto simp: Sprintf_d_butlast split: if_splits)
    from "1.IH"[OF False e] have "n div 10 = m div 10" .
    with m10 show ?thesis
      by (metis div_mult_mod_eq)
  qed
qed

lemma Sprintf_gpu_inj: "Sprintf_gpu i = Sprintf_gpu j \<Longrightarrow> i = j"
  by (simp add: Sprintf_gpu_def Sprintf_d_inj)

lemma update_fresh: "k \<notin> fst ` set al \<Longrightarrow> AList.update k v al = al @ [(k, v)]"
  by (induction al) auto

lemma injectLoop_append:
  "\<forall>j \<ge> i. Sprintf_gpu j \<notin> fst ` set acc \<Longrightarrow>
   injectLoop gpus i acc =
     acc @ map (\<lambda>(j, gpu). (Sprintf_gpu j,
              Some \<lparr>DeviceInstancePath = InstanceID gpu, VirtualFunction = 0xFFFF\<rparr>))
           (zip [i ..< i + length gpus] gpus)"
proof (induction gpus arbitrary: i acc)
  case Nil
  then show ?case by simp
next
  case (Cons g gpus)
  have fresh: "Sprintf_gpu i \<notin> fst ` set acc" using Cons.prems by simp
  let ?acc' = "acc @ [(Sprintf_gpu i,
     Some \<lparr>DeviceInstancePath = InstanceID g, VirtualFunction = 0xFFFF\<rparr>)]"
  have "\<forall>j \<ge> Suc i. Sprintf_gpu j \<notin> fst ` set ?acc'"
    using Cons.prems by (auto dest: Sprintf_gpu_inj)
  note ih = Cons.IH[OF this]
  have upt: "[i ..< Suc (i + length gpus)] = i # [Suc i ..< Suc (i + length gpus)]"
    by (rule upt_conv_Cons) simp
  show ?case
    by (simp add: update_fresh[OF fresh] ih upt del: upt_Suc)
qed

lemma injectLoop_from_empty:
  "injectLoop gpus 0 [] =
     map (\<lambda>i. (Sprintf_gpu i,
            Some \<lparr>DeviceInstancePath = InstanceID (gpus ! i), VirtualFunction = 0xFFFF\<rparr>))
         [0 ..< length gpus]"
proof -
  have "injectLoop gpus 0 [] =
     [] @ map (\<lambda>(j, gpu). (Sprintf_gpu j,
              Some \<lparr>DeviceInstancePath = InstanceID gpu, VirtualFunction = 0xFFFF\<rparr>))
           (zip [0 ..< 0 + length gpus] gpus)"
    by (rule injectLoop_append) simp
  also have "\<dots> = map (\<lambda>i. (Sprintf_gpu i,
            Some \<lparr>DeviceInstancePath = InstanceID (gpus ! i), VirtualFunction = 0xFFFF\<rparr>))
         [0 ..< length gpus]"
    by (rule nth_equalityI) simp_all
  finally show ?thesis .
qed

lemma distinct_gpu_keys: "distinct (map Sprintf_gpu [0 ..< n])"
  by (simp add: distinct_map inj_on_def) (blast dest: Sprintf_gpu_inj)

lemma map_of_gpu_keys:
  "i < n \<Longrightarrow> map_of (map (\<lambda>i. (Sprintf_gpu i, f i)) [0 ..< n]) (Sprintf_gpu i) = Some (f i)"
proof -
  assume i: "i < n"
  have d: "distinct (map fst (map (\<lambda>i. (Sprintf_gpu i, f i)) [0 ..< n]))"
    using distinct_gpu_keys[of n] by (simp add: comp_def)
  have "(Sprintf_gpu i, f i) \<in> set (map (\<lambda>i. (Sprintf_gpu i, f i)) [0 ..< n])"
    using i by auto
  with d show ?thesis by (rule map_of_is_SomeI)
qed

text \<open>
  Claim C5. For every document and every list of \<open>n\<close> GPU descriptors, \<open>injectGPU\<close>
  leaves a virtual-PCI map that does not depend on the entries the document had before:
  it has exactly \<open>n\<close> entries, under the distinct keys \<open>gpu-0\<close> ... \<open>gpu-(n-1)\<close>, and the
  entry \<open>gpu-i\<close> holds the instance path of the \<open>i\<close>-th descriptor and the virtual
  function 0xFFFF; no other key is bound.
\<close>

theorem injectGPU_replaces_VirtualPci:
  "\<exists>vm devs pciDevs.
     VirtualMachine (injectGPU spec gpus) = Some vm \<and> Devices vm = Some devs \<and>
     VirtualPci devs = Some pciDevs \<and>
     pciDevs =
       map (\<lambda>i. (Sprintf_gpu i,
              Some \<lparr>DeviceInstancePath = InstanceID (gpus ! i), VirtualFunction = 0xFFFF\<rparr>))
           [0 ..< length gpus] \<and>
     length pciDevs = length gpus \<and>
     distinct (map fst pciDevs) \<and>
     (\<forall>i < length gpus.
        map_of pciDevs (Sprintf_gpu i) =
          Some (Some \<lparr>DeviceInstancePath = InstanceID (gpus ! i), VirtualFunction = 0xFFFF\<rparr>)) \<and>
     (\<forall>k. k \<notin> Sprintf_gpu ` {0 ..< length gpus} \<longrightarrow> map_of pciDevs k = None)"
proof -
  let ?dev = "\<lambda>i. Some \<lparr>DeviceInstancePath = InstanceID (gpus ! i), VirtualFunction = 0xFFFF\<rparr>"
  let ?pci = "map (\<lambda>i. (Sprintf_gpu i, ?dev i)) [0 ..< length gpus]"
  have fst: "map fst ?pci = map Sprintf_gpu [0 ..< length gpus]"
    by (simp add: comp_def)
  have 1: "distinct (map fst ?pci)"
    unfolding fst by (rule distinct_gpu_keys)
  have 2: "\<forall>i < length gpus. map_of ?pci (Sprintf_gpu i) = Some (?dev i)"
    using map_of_gpu_keys[where f = ?dev and n = "length gpus"] by blast
  have 3: "\<forall>k. k \<notin> Sprintf_gpu ` {0 ..< length gpus} \<longrightarrow> map_of ?pci k = None"
  proof (intro allI impI)
    fix k assume "k \<notin> Sprintf_gpu ` {0 ..< length gpus}"
    then have "k \<notin> fst ` set ?pci" by (auto simp: image_iff)
    then show "map_of ?pci k = None" by (simp only: map_of_eq_None_iff not_False_eq_True)
  qed
  show ?thesis
    unfolding injectGPU_def Let_def injectLoop_from_empty
    using 1 2 3 by simp
qed

lemma Sprintf_gpu_0: "Sprintf_gpu 0 = ''gpu-0''"
  by code_simp

lemma Sprintf_gpu_1: "Sprintf_gpu (Suc 0) = ''gpu-1''"
  by code_simp

theorem injectGPU_replaces_VirtualPci_witness:
  "\<exists>vm devs.
     VirtualMachine (injectGPU old_spec
        [\<lparr>Name = ''A'', InstanceID = ''PCI/VEN_10DE''\<rparr>, \<lparr>Name = ''B'', InstanceID = ''PCI/VEN_1002''\<rparr>]) = Some vm \<and>
     Devices vm = Some devs \<and>
     VirtualPci devs =
       Some [(''gpu-0'', Some \<lparr>DeviceInstancePath = ''PCI/VEN_10DE'', VirtualFunction = 0xFFFF\<rparr>),
             (''gpu-1'', Some \<lparr>DeviceInstancePath = ''PCI/VEN_1002'', VirtualFunction = 0xFFFF\<rparr>)]"
proof -
  let ?gpus = "[\<lparr>Name = ''A'', InstanceID = ''PCI/VEN_10DE''\<rparr>, \<lparr>Name = ''B'', InstanceID = ''PCI/VEN_1002''\<rparr>]"
  from injectGPU_replaces_VirtualPci[of old_spec ?gpus]
  obtain vm devs pciDevs where
    vm: "VirtualMachine (injectGPU old_spec ?gpus) = Some vm" and
    devs: "Devices vm = Some devs" and
    pci: "VirtualPci devs = Some pciDevs" and
    eq: "pciDevs =
       map (\<lambda>i. (Sprintf_gpu i,
              Some \<lparr>DeviceInstancePath = InstanceID (?gpus ! i), VirtualFunction = 0xFFFF\<rparr>))
           [0 ..< length ?gpus]"
    by blast
  have "[0 ..< length ?gpus] = [0, Suc 0]" by (simp add: upt_rec)
  with eq have "pciDevs =
       [(''gpu-0'', Some \<lparr>DeviceInstancePath = ''PCI/VEN_10DE'', VirtualFunction = 0xFFFF\<rparr>),
        (''gpu-1'', Some \<lparr>DeviceInstancePath = ''PCI/VEN_1002'', VirtualFunction = 0xFFFF\<rparr>)]"
    by (simp add: Sprintf_gpu_0 Sprintf_gpu_1)
  with vm devs pci show ?thesis by simp
qed

section \<open>The calls each function makes\<close>

lemma snd_createOperation [simp]:
  "snd (createOperation h tr) = tr @ [HcsCreateOperation (HcsCreateOperation_ret h tr)]"
  by (simp add: createOperation_def Let_def)

lemma fst_createOperation:
  "fst (createOperation h tr) =
     (if HcsCreateOperation_ret h tr = 0
      then (0, Some (Errorf ''HcsCreateOperation returned NULL'' []))
      else (HcsCreateOperation_ret h tr, None))"
  by (simp add: createOperation_def Let_def)

lemma createOperation_ok:
  "createOperation h tr = ((opn, None), tr1) \<Longrightarrow>
   opn \<noteq> 0 \<and> opn = HcsCreateOperation_ret h tr \<and> tr1 = tr @ [HcsCreateOperation opn]"
  by (auto simp: createOperation_def Let_def split: if_splits)

lemma createOperation_fail:
  "createOperation h tr = ((opn, Some err), tr1) \<Longrightarrow>
   HcsCreateOperation_ret h tr = 0 \<and> tr1 = tr @ [HcsCreateOperation 0] \<and>
   err = Errorf ''HcsCreateOperation returned NULL'' []"
  by (auto simp: createOperation_def Let_def split: if_splits)

lemma snd_waitForResult [simp]:
  "snd (waitForResult h opn t tr) = tr @ [HcsWaitForOperationResult opn t]"
  by (simp add: waitForResult_def Let_def split: prod.splits)

lemma snd_startComputeSystem [simp]:
  "snd (startComputeSystem h sys opn tr) = tr @ [HcsStartComputeSystem sys opn]"
  by (simp add: startComputeSystem_def Let_def)

lemma snd_terminateComputeSystem [simp]:
  "snd (terminateComputeSystem h sys opn tr) = tr @ [HcsTerminateComputeSystem sys opn]"
  by (simp add: terminateComputeSystem_def Let_def)

lemma snd_createComputeSystem:
  "snd (createComputeSystem h ident doc opn tr) =
     (if UTF16PtrFromString ident = None \<and> UTF16PtrFromString doc = None
      then tr @ [HcsCreateComputeSystem ident doc opn] else tr)"
  by (simp add: createComputeSystem_def Let_def split: option.splits prod.splits)

lemma snd_revokeVmAccess:
  "snd (revokeVmAccess h vmID p tr) =
     (if UTF16PtrFromString vmID = None \<and> UTF16PtrFromString p = None
      then tr @ [HcsRevokeVmAccess vmID p] else tr)"
  by (simp add: revokeVmAccess_def Let_def split: option.splits)

lemma grantVmAccess_ok:
  "grantVmAccess h vmID p tr = (None, tr1) \<Longrightarrow>
   UTF16PtrFromString vmID = None \<and> UTF16PtrFromString p = None \<and>
   tr1 = tr @ [HcsGrantVmAccess vmID p]"
  by (auto simp: grantVmAccess_def Let_def split: option.splits if_splits)

lemma snd_grantVmAccess:
  "snd (grantVmAccess h vmID p tr) =
     (if UTF16PtrFromString vmID = None \<and> UTF16PtrFromString p = None
      then tr @ [HcsGrantVmAccess vmID p] else tr)"
  by (simp add: grantVmAccess_def Let_def split: option.splits)

lemma revokeAll_trace:
  "revocable vmID ps \<Longrightarrow> revokeAll h vmID ps tr = tr @ map (HcsRevokeVmAccess vmID) ps"
proof (induction ps arbitrary: tr)
  case Nil
  then show ?case by simp
next
  case (Cons p ps)
  from Cons.prems have "revocable vmID ps" and u: "UTF16PtrFromString vmID = None"
    "UTF16PtrFromString p = None"
    by (auto simp: revocable_def)
  with Cons.IH show ?case by (simp add: snd_revokeVmAccess)
qed

lemma revocable_snoc:
  "revocable vmID g \<Longrightarrow> UTF16PtrFromString vmID = None \<Longrightarrow> UTF16PtrFromString p = None \<Longrightarrow>
   revocable vmID (g @ [p])"
  by (auto simp: revocable_def)

lemma grantLoop_fails_at:
  "K < length paths \<Longrightarrow>
   (\<forall>i<K. fst (grantVmAccess h vmID (paths ! i)
                 (tr @ map (HcsGrantVmAccess vmID) (take i paths))) = None) \<Longrightarrow>
   grantVmAccess h vmID (paths ! K) (tr @ map (HcsGrantVmAccess vmID) (take K paths)) =
     (Some err, trf) \<Longrightarrow>
   revocable vmID g \<Longrightarrow>
   grantLoop h vmID paths g tr =
     (Some (Errorfw ''grant VM access: %w'' [] err), g @ take K paths,
      trf @ map (HcsRevokeVmAccess vmID) (g @ take K paths))"
proof (induction paths arbitrary: K g tr)
  case Nil
  then show ?case by simp
next
  case (Cons p ps)
  show ?case
  proof (cases K)
    case 0
    with Cons.prems(3) have "grantVmAccess h vmID p tr = (Some err, trf)" by simp
    with 0 Cons.prems(4) show ?thesis by (simp add: revokeAll_trace)
  next
    case (Suc k)
    from Cons.prems(2) Suc have "fst (grantVmAccess h vmID p tr) = None"
      by (metis zero_less_Suc nth_Cons_0 take_0 list.simps(8) append_Nil2)
    then obtain tr1 where g1: "grantVmAccess h vmID p tr = (None, tr1)"
      by (cases "grantVmAccess h vmID p tr") auto
    from grantVmAccess_ok[OF g1] have u: "UTF16PtrFromString vmID = None"
      "UTF16PtrFromString p = None" and tr1: "tr1 = tr @ [HcsGrantVmAccess vmID p]"
      by auto
    have k: "k < length ps" using Cons.prems(1) Suc by simp
    have ok: "\<forall>i<k. fst (grantVmAccess h vmID (ps ! i)
                 (tr1 @ map (HcsGrantVmAccess vmID) (take i ps))) = None"
    proof (intro allI impI)
      fix i assume "i < k"
      then have "Suc i < K" using Suc by simp
      with Cons.prems(2) have "fst (grantVmAccess h vmID ((p # ps) ! Suc i)
                 (tr @ map (HcsGrantVmAccess vmID) (take (Suc i) (p # ps)))) = None"
        by blast
      then show "fst (grantVmAccess h vmID (ps ! i)
                 (tr1 @ map (HcsGrantVmAccess vmID) (take i ps))) = None"
        by (simp add: tr1)
    qed
    have fl: "grantVmAccess h vmID (ps ! k) (tr1 @ map (HcsGrantVmAccess vmID) (take k ps)) =
       (Some err, trf)"
      using Cons.prems(3) Suc by (simp add: tr1)
    from Cons.IH[OF k ok fl revocable_snoc[OF Cons.prems(4) u]]
    show ?thesis using g1 Suc by simp
  qed
qed

lemma grantLoop_ok:
  "grantLoop h vmID paths g tr = (None, granted, tr1) \<Longrightarrow> revocable vmID g \<Longrightarrow>
   granted = g @ paths \<and> tr1 = tr @ map (HcsGrantVmAccess vmID) paths \<and>
   revocable vmID granted"
proof (induction paths arbitrary: g tr)
  case Nil
  then show ?case by simp
next
  case (Cons p ps)
  from Cons.prems(1) obtain tr' where g1: "grantVmAccess h vmID p tr = (None, tr')"
    and rest: "grantLoop h vmID ps (g @ [p]) tr' = (None, granted, tr1)"
    by (auto split: prod.splits option.splits)
  from grantVmAccess_ok[OF g1] have u: "UTF16PtrFromString vmID = None"
      "UTF16PtrFromString p = None" and tr': "tr' = tr @ [HcsGrantVmAccess vmID p]"
    by auto
  from Cons.IH[OF rest revocable_snoc[OF Cons.prems(2) u]] tr'
  show ?case by auto
qed

section \<open>The example host, evaluated\<close>

lemma extract_three: "extractVHDPaths three_disks_abs = [''C:/cwd/a.vhdx'', ''C:/vm/b.vhdx'', ''C:/cwd/c.vhdx'']"
  by (simp add: extractVHDPaths_def three_disks_abs_def zeroVirtualMachineSpec_def zeroDevicesSpec_def entries_def disk_def)

lemma abs_three: "makePathsAbsolute (filepath_Abs example_host) (three_disks\<lparr>Owner := ''hcstool''\<rparr>) = (three_disks_abs, None)"
  by (simp add: makePathsAbsolute_def three_disks_def three_disks_abs_def example_host_def zeroVirtualMachineSpec_def zeroDevicesSpec_def disk_def)

lemma trim_guid: "strings_Trim ''{6F9619FF-8B86-D011-B42D-00C04FC964FF}'' ''{}'' = example_vmID"
  by (simp add: strings_Trim_def example_vmID_def)

lemma um_three: "json_Unmarshal example_host ''three-disks.json'' = (three_disks, None)"
  by (simp add: example_host_def)

lemma owner_three: "Owner three_disks = []"
  by (simp add: three_disks_def)

lemma marshal_three: "json_Marshal example_host three_disks_abs = (three_disks_doc, None)"
  by (simp add: example_host_def extract_three three_disks_doc_def) (simp add: three_disks_abs_def)

lemma guid_example: "GenerateGUID example_host = (example_guid, None)"
  "GUID_String example_host g = ''{6F9619FF-8B86-D011-B42D-00C04FC964FF}''"
  by (simp_all add: example_host_def)


lemma prep_three_gf: "CreateAndStartVM_prepare host_grant_fault ''three-disks.json'' False = Inr (three_disks_abs, three_disks_doc, example_vmID)"
  by (simp add: CreateAndStartVM_prepare_def host_grant_fault_def um_three owner_three abs_three marshal_three guid_example trim_guid)

lemma gf_grant: "grantVmAccess host_grant_fault example_vmID p tr =
   (if CHR 0x00 \<in> set p then (Some (Errorfw ''invalid file path: %w'' [] EINVAL), tr)
    else if length (filter is_grant tr) = 2
      then (Some (HcsError (''HcsGrantVmAccess('' @ p @ '')'') 0x80070005 []), tr @ [HcsGrantVmAccess example_vmID p])
      else (None, tr @ [HcsGrantVmAccess example_vmID p]))"
  by (simp add: grantVmAccess_def host_grant_fault_def UTF16PtrFromString_def example_vmID_def hrOK_def Let_def)


section \<open>Failure while granting access\<close>

lemma CreateAndStartVM_grant_failure:
  assumes prep: "CreateAndStartVM_prepare h specJSON addGPU = Inr (spec, finalJSON, vmID)"
      and loop: "grantLoop h vmID (extractVHDPaths spec) [] tr = (Some e, g, tr1)"
  shows "CreateAndStartVM h specJSON name addGPU tr = (Some e, tr1)"
  using prep loop by (simp add: CreateAndStartVM_def)

section \<open>Failure while creating, failure while starting, success\<close>

lemma closeOperation_ok: "opn \<noteq> 0 \<Longrightarrow> closeOperation opn tr = tr @ [HcsCloseOperation opn]"
  by (simp add: closeOperation_def)

lemma closeComputeSystem_calls:
  "closeComputeSystem sys tr = tr @ (if sys \<noteq> 0 then [HcsCloseComputeSystem sys] else [])"
  by (simp add: closeComputeSystem_def)

lemma waitForResult_trace:
  "waitForResult h opn t tr = (r, tr1) \<Longrightarrow> tr1 = tr @ [HcsWaitForOperationResult opn t]"
  using snd_waitForResult[of h opn t tr] by simp

lemma waitForResult_error:
  "waitForResult h opn t tr = ((doc, Some werr), tr1) \<Longrightarrow>
   \<exists>hr. werr = HcsError ''HcsWaitForOperationResult'' hr doc"
  by (auto simp: waitForResult_def Let_def split: prod.splits if_splits)

lemma createComputeSystem_trace:
  "createComputeSystem h ident doc opn tr = (r, tr1) \<Longrightarrow>
   tr1 = tr @ (if UTF16PtrFromString ident = None \<and> UTF16PtrFromString doc = None
               then [HcsCreateComputeSystem ident doc opn] else [])"
  using snd_createComputeSystem[of h ident doc opn tr] by auto

lemma createComputeSystem_error:
  "createComputeSystem h ident doc opn tr = ((sys, Some e), tr1) \<Longrightarrow> resultDocument e = []"
  by (auto simp: createComputeSystem_def UTF16PtrFromString_def Let_def
      split: option.splits prod.splits if_splits)

lemma startComputeSystem_trace:
  "startComputeSystem h sys opn tr = (r, tr1) \<Longrightarrow> tr1 = tr @ [HcsStartComputeSystem sys opn]"
  using snd_startComputeSystem[of h sys opn tr] by simp

lemma terminateAndClose_opened:
  "createOperation h tr = ((op3, None), tr1) \<Longrightarrow>
   terminateAndClose h sys tr =
     tr1 @ [HcsTerminateComputeSystem sys op3, HcsWaitForOperationResult op3 5000,
            HcsCloseOperation op3] @
     (if sys \<noteq> 0 then [HcsCloseComputeSystem sys] else [])"
proof -
  assume c: "createOperation h tr = ((op3, None), tr1)"
  from createOperation_ok[OF c] have nz: "op3 \<noteq> 0" by blast
  obtain e2 tr2 where t: "terminateComputeSystem h sys op3 tr1 = (e2, tr2)"
    by (cases "terminateComputeSystem h sys op3 tr1")
  then have tr2: "tr2 = tr1 @ [HcsTerminateComputeSystem sys op3]"
    using snd_terminateComputeSystem[of h sys op3 tr1] by simp
  obtain r3 tr3 where w: "waitForResult h op3 5000 tr2 = (r3, tr3)"
    by (cases "waitForResult h op3 5000 tr2")
  from waitForResult_trace[OF w] have tr3: "tr3 = tr2 @ [HcsWaitForOperationResult op3 5000]" .
  have "terminateAndClose h sys tr = closeComputeSystem sys (closeOperation op3 tr3)"
    by (simp add: terminateAndClose_def c t w)
  then show ?thesis
    by (simp add: tr2 tr3 closeOperation_ok[OF nz] closeComputeSystem_calls)
qed

lemma terminateAndClose_no_handle:
  "createOperation h tr = ((op3, Some err), tr1) \<Longrightarrow>
   terminateAndClose h sys tr =
     tr @ [HcsCreateOperation 0] @ (if sys \<noteq> 0 then [HcsCloseComputeSystem sys] else [])"
proof -
  assume c: "createOperation h tr = ((op3, Some err), tr1)"
  from createOperation_fail[OF c] have "tr1 = tr @ [HcsCreateOperation 0]" by blast
  then show ?thesis
    by (simp add: terminateAndClose_def c closeComputeSystem_calls)
qed

lemma create_phase_steps:
  assumes opn: "createOperation h tr = ((opn, None), tr2)"
      and sub: "createComputeSystem h vmID doc opn tr2 = ((sys, err), tr3)"
      and wait: "waitForResult h opn infinite_timeout tr3 = ((resultJSON, waitErr), tr4)"
  shows "CreateAndStartVM_create h vmID doc g tr =
     (case err of
        Some e \<Rightarrow> (Some e, revokeAll h vmID g (tr4 @ [HcsCloseOperation opn]))
      | None \<Rightarrow>
          (case waitErr of
             Some werr \<Rightarrow>
               (Some (Errorfw ''create compute system: %w'' [] werr),
                revokeAll h vmID g (tr4 @ [HcsCloseOperation opn]))
           | None \<Rightarrow> CreateAndStartVM_start h vmID g sys (tr4 @ [HcsCloseOperation opn])))"
proof -
  from createOperation_ok[OF opn] have nz: "opn \<noteq> 0" by blast
  show ?thesis
    by (simp add: CreateAndStartVM_create_def opn sub wait Let_def closeOperation_ok[OF nz]
        split: option.splits)
qed

lemma CreateAndStartVM_granted:
  assumes prep: "CreateAndStartVM_prepare h specJSON addGPU = Inr (spec, finalJSON, vmID)"
      and loop: "grantLoop h vmID (extractVHDPaths spec) [] tr = (None, g, tr1)"
  shows "CreateAndStartVM h specJSON name addGPU tr =
           CreateAndStartVM_create h vmID finalJSON g tr1"
    and "g = extractVHDPaths spec"
    and "tr1 = tr @ map (HcsGrantVmAccess vmID) g"
    and "revocable vmID g"
proof -
  show "CreateAndStartVM h specJSON name addGPU tr =
           CreateAndStartVM_create h vmID finalJSON g tr1"
    using prep loop by (simp add: CreateAndStartVM_def)
  have r0: "revocable vmID []" by (simp add: revocable_def)
  from grantLoop_ok[OF loop r0]
  show "g = extractVHDPaths spec" "tr1 = tr @ map (HcsGrantVmAccess vmID) g"
    "revocable vmID g" by auto
qed

text \<open>
  Claim C2, as amended. Let the attempt have granted access to every path and opened the
  operation for the create call, and let the submission of the create request or the
  wait on it fail. Then no start call is made; after the wait the operation is closed and
  every granted path is revoked, in the order granted; and the error returned is the one
  of the failing step. When the submission fails it is the submission's error, which
  carries no result document, whatever the wait returned. When only the wait fails it is
  "create compute system" wrapping the wait's error, which carries the result document
  the service returned.
\<close>

theorem create_failure_revokes_all:
  assumes prep: "CreateAndStartVM_prepare h specJSON addGPU = Inr (spec, finalJSON, vmID)"
      and grants: "grantLoop h vmID (extractVHDPaths spec) [] tr = (None, grantedPaths, tr1)"
      and opn: "createOperation h tr1 = ((opn, None), tr2)"
      and sub: "createComputeSystem h vmID finalJSON opn tr2 = ((sys, err), tr3)"
      and wait: "waitForResult h opn infinite_timeout tr3 = ((resultJSON, waitErr), tr4)"
      and fail: "err \<noteq> None \<or> waitErr \<noteq> None"
  shows "\<exists>e calls submitted.
           CreateAndStartVM h specJSON name addGPU tr = (Some e, tr @ calls) \<and>
           grantedPaths = extractVHDPaths spec \<and>
           calls = map (HcsGrantVmAccess vmID) grantedPaths @ [HcsCreateOperation opn] @
                   submitted @
                   [HcsWaitForOperationResult opn infinite_timeout, HcsCloseOperation opn] @
                   map (HcsRevokeVmAccess vmID) grantedPaths \<and>
           submitted = (if UTF16PtrFromString vmID = None \<and>
                           UTF16PtrFromString finalJSON = None
                        then [HcsCreateComputeSystem vmID finalJSON opn] else []) \<and>
           filter is_start calls = [] \<and>
           filter is_revoke calls = map (HcsRevokeVmAccess vmID) grantedPaths \<and>
           (case err of
              Some serr \<Rightarrow> e = serr \<and> resultDocument e = []
            | None \<Rightarrow>
                (\<exists>werr. waitErr = Some werr \<and>
                   e = Errorfw ''create compute system: %w'' [] werr \<and>
                   resultDocument e = resultJSON))"
proof -
  note g = CreateAndStartVM_granted[OF prep grants]
  let ?submitted = "if UTF16PtrFromString vmID = None \<and>
                           UTF16PtrFromString finalJSON = None
                        then [HcsCreateComputeSystem vmID finalJSON opn] else []"
  let ?revs = "map (HcsRevokeVmAccess vmID) grantedPaths"
  let ?calls = "map (HcsGrantVmAccess vmID) grantedPaths @ [HcsCreateOperation opn] @
                   ?submitted @
                   [HcsWaitForOperationResult opn infinite_timeout, HcsCloseOperation opn] @ ?revs"
  from createOperation_ok[OF opn] have tr2: "tr2 = tr1 @ [HcsCreateOperation opn]" by blast
  from createComputeSystem_trace[OF sub] have tr3: "tr3 = tr2 @ ?submitted" .
  from waitForResult_trace[OF wait]
  have tr4: "tr4 = tr3 @ [HcsWaitForOperationResult opn infinite_timeout]" .
  have end_tr: "revokeAll h vmID grantedPaths (tr4 @ [HcsCloseOperation opn]) = tr @ ?calls"
    by (simp add: revokeAll_trace[OF g(4)] tr4 tr3 tr2 g(3))
  have fs: "filter is_start ?calls = []" by (simp add: filter_map comp_def)
  have fr: "filter is_revoke ?calls = ?revs" by (simp add: filter_map comp_def)
  show ?thesis
  proof (cases err)
    case (Some serr)
    have res: "CreateAndStartVM h specJSON name addGPU tr = (Some serr, tr @ ?calls)"
      by (simp only: g(1) create_phase_steps[OF opn sub wait] Some option.case end_tr)
    from sub Some have "resultDocument serr = []"
      by (auto dest: createComputeSystem_error)
    with res fs fr g(2) Some show ?thesis
      by (intro exI[of _ serr] exI[of _ ?calls] exI[of _ ?submitted]) simp
  next
    case None
    with fail obtain werr where w: "waitErr = Some werr" by auto
    have res: "CreateAndStartVM h specJSON name addGPU tr =
       (Some (Errorfw ''create compute system: %w'' [] werr), tr @ ?calls)"
      by (simp only: g(1) create_phase_steps[OF opn sub wait] None w option.case end_tr)
    from wait w have "resultDocument werr = resultJSON"
      by (auto dest: waitForResult_error)
    with res fs fr g(2) None w show ?thesis
      by (intro exI[of _ "Errorfw ''create compute system: %w'' [] werr"]
          exI[of _ ?calls] exI[of _ ?submitted]) simp
  qed
qed






lemma start_phase_failure:
  assumes op2: "createOperation h tr = ((op2, None), tr5)"
      and fail: "startComputeSystem h sys op2 tr5 = (Some e, trf) \<or>
                 (startComputeSystem h sys op2 tr5 = (None, tr6) \<and>
                  waitForResult h op2 infinite_timeout tr6 = ((doc, Some werr), trf) \<and>
                  e = Errorfw ''start compute system: %w'' [] werr)"
  shows "CreateAndStartVM_start h vmID g sys tr =
           (Some e, revokeAll h vmID g (terminateAndClose h sys (trf @ [HcsCloseOperation op2])))"
    and "\<exists>mid. trf = tr @ HcsCreateOperation op2 # HcsStartComputeSystem sys op2 # mid \<and>
               filter is_revoke mid = [] \<and> filter is_terminate mid = []"
proof -
  from createOperation_ok[OF op2] have nz: "op2 \<noteq> 0"
    and tr5: "tr5 = tr @ [HcsCreateOperation op2]" by blast+
  from fail show "CreateAndStartVM_start h vmID g sys tr =
           (Some e, revokeAll h vmID g (terminateAndClose h sys (trf @ [HcsCloseOperation op2])))"
    by (auto simp: CreateAndStartVM_start_def op2 Let_def closeOperation_ok[OF nz])
  from fail show "\<exists>mid. trf = tr @ HcsCreateOperation op2 # HcsStartComputeSystem sys op2 # mid \<and>
               filter is_revoke mid = [] \<and> filter is_terminate mid = []"
  proof
    assume "startComputeSystem h sys op2 tr5 = (Some e, trf)"
    from startComputeSystem_trace[OF this] show ?thesis by (simp add: tr5)
  next
    assume a: "startComputeSystem h sys op2 tr5 = (None, tr6) \<and>
                  waitForResult h op2 infinite_timeout tr6 = ((doc, Some werr), trf) \<and>
                  e = Errorfw ''start compute system: %w'' [] werr"
    then have "tr6 = tr5 @ [HcsStartComputeSystem sys op2]"
      and "trf = tr6 @ [HcsWaitForOperationResult op2 infinite_timeout]"
      by (auto dest: startComputeSystem_trace waitForResult_trace)
    then show ?thesis by (simp add: tr5)
  qed
qed

text \<open>
  Claim C3, as amended. Let the attempt have created the compute system \<open>sys\<close> and opened
  the operation \<open>op2\<close> for the start call, let the submission of the start request or the
  wait on it fail with \<open>e\<close>, and let the operation \<open>op3\<close> for the terminate call be opened.
  Then the attempt returns \<open>e\<close>, whatever the terminate call and its wait answer, and
  its calls end with: terminate \<open>sys\<close> on \<open>op3\<close>, wait on \<open>op3\<close> for 5000 ms, close
  \<open>op3\<close>, close \<open>sys\<close>, and then the revokes of all granted paths. There is exactly one
  terminate call, and no revoke before it.
\<close>

theorem start_failure_terminates_before_revoking:
  assumes prep: "CreateAndStartVM_prepare h specJSON addGPU = Inr (spec, finalJSON, vmID)"
      and grants: "grantLoop h vmID (extractVHDPaths spec) [] tr = (None, grantedPaths, tr1)"
      and opn: "createOperation h tr1 = ((opn, None), tr2)"
      and sub: "createComputeSystem h vmID finalJSON opn tr2 = ((sys, None), tr3)"
      and wait: "waitForResult h opn infinite_timeout tr3 = ((resultJSON, None), tr4)"
      and op2: "createOperation h (tr4 @ [HcsCloseOperation opn]) = ((op2, None), tr5)"
      and fail: "startComputeSystem h sys op2 tr5 = (Some e, trf) \<or>
                 (startComputeSystem h sys op2 tr5 = (None, tr6) \<and>
                  waitForResult h op2 infinite_timeout tr6 = ((doc, Some werr), trf) \<and>
                  e = Errorfw ''start compute system: %w'' [] werr)"
      and op3: "createOperation h (trf @ [HcsCloseOperation op2]) = ((op3, None), tr8)"
  shows "\<exists>before calls.
           CreateAndStartVM h specJSON name addGPU tr = (Some e, tr @ calls) \<and>
           calls = before @
             [HcsTerminateComputeSystem sys op3, HcsWaitForOperationResult op3 5000,
              HcsCloseOperation op3] @
             (if sys \<noteq> 0 then [HcsCloseComputeSystem sys] else []) @
             map (HcsRevokeVmAccess vmID) grantedPaths \<and>
           grantedPaths = extractVHDPaths spec \<and>
           filter is_revoke before = [] \<and>
           filter is_terminate before = [] \<and>
           filter is_start before = [HcsStartComputeSystem sys op2] \<and>
           filter is_terminate calls = [HcsTerminateComputeSystem sys op3] \<and>
           filter is_revoke calls = map (HcsRevokeVmAccess vmID) grantedPaths"
proof -
  note g = CreateAndStartVM_granted[OF prep grants]
  from createOperation_ok[OF opn] have tr2: "tr2 = tr1 @ [HcsCreateOperation opn]" by blast
  from createComputeSystem_trace[OF sub] obtain submitted where
    tr3: "tr3 = tr2 @ submitted" and sb: "filter is_revoke submitted = []"
    "filter is_terminate submitted = []" "filter is_start submitted = []"
    by (cases "UTF16PtrFromString vmID = None \<and> UTF16PtrFromString finalJSON = None") auto
  from waitForResult_trace[OF wait]
  have tr4: "tr4 = tr3 @ [HcsWaitForOperationResult opn infinite_timeout]" .
  from start_phase_failure(1)[OF op2 fail, of vmID grantedPaths]
       start_phase_failure(2)[OF op2 fail] obtain mid where
    res: "CreateAndStartVM_start h vmID grantedPaths sys (tr4 @ [HcsCloseOperation opn]) =
           (Some e, revokeAll h vmID grantedPaths
                      (terminateAndClose h sys (trf @ [HcsCloseOperation op2])))"
    and trf: "trf = (tr4 @ [HcsCloseOperation opn]) @
                HcsCreateOperation op2 # HcsStartComputeSystem sys op2 # mid"
    and mid: "filter is_revoke mid = []" "filter is_terminate mid = []"
    by blast
  from createOperation_ok[OF op3]
  have tr8: "tr8 = (trf @ [HcsCloseOperation op2]) @ [HcsCreateOperation op3]" by blast
  let ?before = "map (HcsGrantVmAccess vmID) grantedPaths @ [HcsCreateOperation opn] @
       submitted @ [HcsWaitForOperationResult opn infinite_timeout, HcsCloseOperation opn,
       HcsCreateOperation op2, HcsStartComputeSystem sys op2] @ mid @
       [HcsCloseOperation op2, HcsCreateOperation op3]"
  let ?tseq = "[HcsTerminateComputeSystem sys op3, HcsWaitForOperationResult op3 5000,
              HcsCloseOperation op3] @
             (if sys \<noteq> 0 then [HcsCloseComputeSystem sys] else [])"
  let ?revs = "map (HcsRevokeVmAccess vmID) grantedPaths"
  have b: "tr8 = tr @ ?before"
    by (simp add: tr8 trf tr4 tr3 tr2 g(3))
  have "CreateAndStartVM h specJSON name addGPU tr =
      (Some e, revokeAll h vmID grantedPaths
                 (terminateAndClose h sys (trf @ [HcsCloseOperation op2])))"
    by (simp only: g(1) create_phase_steps[OF opn sub wait] option.case res)
  also have "terminateAndClose h sys (trf @ [HcsCloseOperation op2]) = tr8 @ ?tseq"
    by (rule terminateAndClose_opened[OF op3])
  also have "revokeAll h vmID grantedPaths (tr8 @ ?tseq) = (tr8 @ ?tseq) @ ?revs"
    by (rule revokeAll_trace[OF g(4)])
  finally have r: "CreateAndStartVM h specJSON name addGPU tr =
      (Some e, tr @ ?before @ ?tseq @ ?revs)"
    by (simp add: b)
  have mid_start: "filter is_start mid = []"
    using fail trf tr4 tr3 tr2
    by (auto dest!: startComputeSystem_trace waitForResult_trace simp: createOperation_ok[OF op2])
  have f1: "filter is_revoke ?before = []" "filter is_terminate ?before = []"
    "filter is_start ?before = [HcsStartComputeSystem sys op2]"
    using sb mid mid_start by (simp_all add: filter_map comp_def)
  have f2: "filter is_terminate (?before @ ?tseq @ ?revs) = [HcsTerminateComputeSystem sys op3]"
    "filter is_revoke (?before @ ?tseq @ ?revs) = ?revs"
    using sb mid by (simp_all add: filter_map comp_def)
  show ?thesis
    using r g(2) f1 f2
    by (intro exI[of _ ?before] exI[of _ "?before @ ?tseq @ ?revs"]) simp
qed

section \<open>Runs on the example hosts\<close>

lemmas run_defs =
  CreateAndStartVM_create_def CreateAndStartVM_start_def terminateAndClose_def
  grantVmAccess_def revokeVmAccess_def createOperation_def closeOperation_def
  waitForResult_def createComputeSystem_def closeComputeSystem_def startComputeSystem_def
  terminateComputeSystem_def UTF16PtrFromString_def hrOK_def Let_def infinite_timeout_def
  example_vmID_def three_disks_doc_def

lemma prep_three_any:
  "json_Unmarshal h = json_Unmarshal example_host \<Longrightarrow>
   json_Marshal h = json_Marshal example_host \<Longrightarrow>
   filepath_Abs h = filepath_Abs example_host \<Longrightarrow>
   GenerateGUID h = GenerateGUID example_host \<Longrightarrow>
   GUID_String h = GUID_String example_host \<Longrightarrow>
   CreateAndStartVM_prepare h ''three-disks.json'' False =
     Inr (three_disks_abs, three_disks_doc, example_vmID)"
  by (simp add: CreateAndStartVM_prepare_def um_three owner_three abs_three marshal_three
      guid_example trim_guid)

lemma grants_three:
  "HcsGrantVmAccess_ret h = (\<lambda>tr vmID p. 0) \<Longrightarrow>
   grantLoop h example_vmID (extractVHDPaths three_disks_abs) [] [] =
     (None, [''C:/cwd/a.vhdx'', ''C:/vm/b.vhdx'', ''C:/cwd/c.vhdx''],
      [HcsGrantVmAccess example_vmID ''C:/cwd/a.vhdx'',
       HcsGrantVmAccess example_vmID ''C:/vm/b.vhdx'',
       HcsGrantVmAccess example_vmID ''C:/cwd/c.vhdx''])"
  by (simp add: extract_three grantVmAccess_def UTF16PtrFromString_def hrOK_def Let_def
      example_vmID_def)

lemma run_example:
  "CreateAndStartVM example_host ''three-disks.json'' ''vm1'' False [] =
     (None,
      [HcsGrantVmAccess example_vmID ''C:/cwd/a.vhdx'',
       HcsGrantVmAccess example_vmID ''C:/vm/b.vhdx'',
       HcsGrantVmAccess example_vmID ''C:/cwd/c.vhdx'',
       HcsCreateOperation 0x11,
       HcsCreateComputeSystem example_vmID three_disks_doc 0x11,
       HcsWaitForOperationResult 0x11 infinite_timeout,
       HcsCloseOperation 0x11,
       HcsCreateOperation 0x22,
       HcsStartComputeSystem 0x5000 0x22,
       HcsWaitForOperationResult 0x22 infinite_timeout,
       HcsCloseOperation 0x22,
       HcsCloseComputeSystem 0x5000,
       Println example_vmID])"
proof -
  have p: "CreateAndStartVM_prepare example_host ''three-disks.json'' False =
     Inr (three_disks_abs, three_disks_doc, example_vmID)"
    by (rule prep_three_any) simp_all
  have g: "grantLoop example_host example_vmID (extractVHDPaths three_disks_abs) [] [] =
     (None, [''C:/cwd/a.vhdx'', ''C:/vm/b.vhdx'', ''C:/cwd/c.vhdx''],
      [HcsGrantVmAccess example_vmID ''C:/cwd/a.vhdx'',
       HcsGrantVmAccess example_vmID ''C:/vm/b.vhdx'',
       HcsGrantVmAccess example_vmID ''C:/cwd/c.vhdx''])"
    by (rule grants_three) (simp add: example_host_def)
  show ?thesis
    unfolding CreateAndStartVM_granted(1)[OF p g]
    by (simp add: run_defs example_host_def)
qed



lemma ucast_hr [simp]:
  "(ucast (0xC0351000 :: 64 word) :: 32 word) = 0xC0351000"
  "(ucast (0x80070005 :: 64 word) :: 32 word) = 0x80070005"
  "(ucast (0xC0370103 :: 64 word) :: 32 word) = 0xC0370103"
  by simp_all

theorem create_failure_revokes_all_witness:
  "CreateAndStartVM host_wait_fault ''three-disks.json'' ''vm1'' False [] =
     (Some (Errorfw ''create compute system: %w'' []
              (HcsError ''HcsWaitForOperationResult'' 0xC0351000 ''{Error:no hypervisor}'')),
      [HcsGrantVmAccess example_vmID ''C:/cwd/a.vhdx'',
       HcsGrantVmAccess example_vmID ''C:/vm/b.vhdx'',
       HcsGrantVmAccess example_vmID ''C:/cwd/c.vhdx'',
       HcsCreateOperation 0x11,
       HcsCreateComputeSystem example_vmID three_disks_doc 0x11,
       HcsWaitForOperationResult 0x11 infinite_timeout,
       HcsCloseOperation 0x11,
       HcsRevokeVmAccess example_vmID ''C:/cwd/a.vhdx'',
       HcsRevokeVmAccess example_vmID ''C:/vm/b.vhdx'',
       HcsRevokeVmAccess example_vmID ''C:/cwd/c.vhdx''])"
proof -
  let ?h = host_wait_fault
  let ?g = "[HcsGrantVmAccess example_vmID ''C:/cwd/a.vhdx'',
       HcsGrantVmAccess example_vmID ''C:/vm/b.vhdx'',
       HcsGrantVmAccess example_vmID ''C:/cwd/c.vhdx'']"
  have p: "CreateAndStartVM_prepare ?h ''three-disks.json'' False =
     Inr (three_disks_abs, three_disks_doc, example_vmID)"
    by (rule prep_three_any) (simp_all add: host_wait_fault_def)
  have g: "grantLoop ?h example_vmID (extractVHDPaths three_disks_abs) [] [] =
     (None, [''C:/cwd/a.vhdx'', ''C:/vm/b.vhdx'', ''C:/cwd/c.vhdx''], ?g)"
    by (rule grants_three) (simp add: host_wait_fault_def example_host_def)
  have c: "createOperation ?h ?g = ((0x11, None), ?g @ [HcsCreateOperation 0x11])"
    by (simp add: createOperation_def host_wait_fault_def example_host_def)
  have s: "createComputeSystem ?h example_vmID three_disks_doc 0x11 (?g @ [HcsCreateOperation 0x11]) =
     ((0x5000, None),
      (?g @ [HcsCreateOperation 0x11]) @ [HcsCreateComputeSystem example_vmID three_disks_doc 0x11])"
    by (simp add: createComputeSystem_def host_wait_fault_def example_host_def
        UTF16PtrFromString_def hrOK_def example_vmID_def three_disks_doc_def)
  have w: "waitForResult ?h 0x11 infinite_timeout
      ((?g @ [HcsCreateOperation 0x11]) @ [HcsCreateComputeSystem example_vmID three_disks_doc 0x11]) =
     ((''{Error:no hypervisor}'',
       Some (HcsError ''HcsWaitForOperationResult'' 0xC0351000 ''{Error:no hypervisor}'')),
      ((?g @ [HcsCreateOperation 0x11]) @ [HcsCreateComputeSystem example_vmID three_disks_doc 0x11]) @
      [HcsWaitForOperationResult 0x11 infinite_timeout])"
    by (simp add: waitForResult_def host_wait_fault_def hrOK_def Let_def)
  have f: "(None :: error option) \<noteq> None \<or>
     Some (HcsError ''HcsWaitForOperationResult'' 0xC0351000 ''{Error:no hypervisor}'') \<noteq> None"
    by simp
  have u: "UTF16PtrFromString example_vmID = None" "UTF16PtrFromString three_disks_doc = None"
    by (simp_all add: UTF16PtrFromString_def example_vmID_def three_disks_doc_def)
  from create_failure_revokes_all[OF p g c s w f, of "''vm1''"] u
  show ?thesis by auto
qed

theorem create_error_drops_document_counterexample:
  "CreateAndStartVM host_submit_fault ''three-disks.json'' ''vm1'' False [] =
     (Some (HcsError ''HcsCreateComputeSystem'' 0x80070005 []),
      [HcsGrantVmAccess example_vmID ''C:/cwd/a.vhdx'',
       HcsGrantVmAccess example_vmID ''C:/vm/b.vhdx'',
       HcsGrantVmAccess example_vmID ''C:/cwd/c.vhdx'',
       HcsCreateOperation 0x11,
       HcsCreateComputeSystem example_vmID three_disks_doc 0x11,
       HcsWaitForOperationResult 0x11 infinite_timeout,
       HcsCloseOperation 0x11,
       HcsRevokeVmAccess example_vmID ''C:/cwd/a.vhdx'',
       HcsRevokeVmAccess example_vmID ''C:/vm/b.vhdx'',
       HcsRevokeVmAccess example_vmID ''C:/cwd/c.vhdx'']) \<and>
   fst (fst (waitForResult host_submit_fault 0x11 infinite_timeout
      [HcsGrantVmAccess example_vmID ''C:/cwd/a.vhdx'',
       HcsGrantVmAccess example_vmID ''C:/vm/b.vhdx'',
       HcsGrantVmAccess example_vmID ''C:/cwd/c.vhdx'',
       HcsCreateOperation 0x11,
       HcsCreateComputeSystem example_vmID three_disks_doc 0x11])) = ''{Error:not started}'' \<and>
   resultDocument (HcsError ''HcsCreateComputeSystem'' 0x80070005 []) \<noteq> ''{Error:not started}''"
proof -
  let ?h = host_submit_fault
  have p: "CreateAndStartVM_prepare ?h ''three-disks.json'' False =
     Inr (three_disks_abs, three_disks_doc, example_vmID)"
    by (rule prep_three_any) (simp_all add: host_submit_fault_def)
  have g: "grantLoop ?h example_vmID (extractVHDPaths three_disks_abs) [] [] =
     (None, [''C:/cwd/a.vhdx'', ''C:/vm/b.vhdx'', ''C:/cwd/c.vhdx''],
      [HcsGrantVmAccess example_vmID ''C:/cwd/a.vhdx'',
       HcsGrantVmAccess example_vmID ''C:/vm/b.vhdx'',
       HcsGrantVmAccess example_vmID ''C:/cwd/c.vhdx''])"
    by (rule grants_three) (simp add: host_submit_fault_def example_host_def)
  have run: "CreateAndStartVM ?h ''three-disks.json'' ''vm1'' False [] =
     (Some (HcsError ''HcsCreateComputeSystem'' 0x80070005 []),
      [HcsGrantVmAccess example_vmID ''C:/cwd/a.vhdx'',
       HcsGrantVmAccess example_vmID ''C:/vm/b.vhdx'',
       HcsGrantVmAccess example_vmID ''C:/cwd/c.vhdx'',
       HcsCreateOperation 0x11,
       HcsCreateComputeSystem example_vmID three_disks_doc 0x11,
       HcsWaitForOperationResult 0x11 infinite_timeout,
       HcsCloseOperation 0x11,
       HcsRevokeVmAccess example_vmID ''C:/cwd/a.vhdx'',
       HcsRevokeVmAccess example_vmID ''C:/vm/b.vhdx'',
       HcsRevokeVmAccess example_vmID ''C:/cwd/c.vhdx''])"
    unfolding CreateAndStartVM_granted(1)[OF p g]
    by (simp add: run_defs host_submit_fault_def example_host_def)
  have w: "fst (fst (waitForResult ?h 0x11 infinite_timeout
      [HcsGrantVmAccess example_vmID ''C:/cwd/a.vhdx'',
       HcsGrantVmAccess example_vmID ''C:/vm/b.vhdx'',
       HcsGrantVmAccess example_vmID ''C:/cwd/c.vhdx'',
       HcsCreateOperation 0x11,
       HcsCreateComputeSystem example_vmID three_disks_doc 0x11])) = ''{Error:not started}''"
    by (simp add: waitForResult_def host_submit_fault_def hrOK_def Let_def)
  show ?thesis using run w by simp
qed

theorem start_failure_terminates_before_revoking_witness:
  "CreateAndStartVM host_start_fault ''three-disks.json'' ''vm1'' False [] =
     (Some (HcsError ''HcsStartComputeSystem'' 0x80070005 []),
      [HcsGrantVmAccess example_vmID ''C:/cwd/a.vhdx'',
       HcsGrantVmAccess example_vmID ''C:/vm/b.vhdx'',
       HcsGrantVmAccess example_vmID ''C:/cwd/c.vhdx'',
       HcsCreateOperation 0x11,
       HcsCreateComputeSystem example_vmID three_disks_doc 0x11,
       HcsWaitForOperationResult 0x11 infinite_timeout,
       HcsCloseOperation 0x11,
       HcsCreateOperation 0x22,
       HcsStartComputeSystem 0x5000 0x22,
       HcsCloseOperation 0x22,
       HcsCreateOperation 0x33,
       HcsTerminateComputeSystem 0x5000 0x33,
       HcsWaitForOperationResult 0x33 5000,
       HcsCloseOperation 0x33,
       HcsCloseComputeSystem 0x5000,
       HcsRevokeVmAccess example_vmID ''C:/cwd/a.vhdx'',
       HcsRevokeVmAccess example_vmID ''C:/vm/b.vhdx'',
       HcsRevokeVmAccess example_vmID ''C:/cwd/c.vhdx''])"
proof -
  let ?h = host_start_fault
  let ?g = "[HcsGrantVmAccess example_vmID ''C:/cwd/a.vhdx'',
       HcsGrantVmAccess example_vmID ''C:/vm/b.vhdx'',
       HcsGrantVmAccess example_vmID ''C:/cwd/c.vhdx'']"
  let ?t2 = "?g @ [HcsCreateOperation 0x11]"
  let ?t3 = "?t2 @ [HcsCreateComputeSystem example_vmID three_disks_doc 0x11]"
  let ?t4 = "?t3 @ [HcsWaitForOperationResult 0x11 infinite_timeout]"
  let ?t5 = "(?t4 @ [HcsCloseOperation 0x11]) @ [HcsCreateOperation 0x22]"
  let ?tf = "?t5 @ [HcsStartComputeSystem 0x5000 0x22]"
  let ?t8 = "(?tf @ [HcsCloseOperation 0x22]) @ [HcsCreateOperation 0x33]"
  have p: "CreateAndStartVM_prepare ?h ''three-disks.json'' False =
     Inr (three_disks_abs, three_disks_doc, example_vmID)"
    by (rule prep_three_any) (simp_all add: host_start_fault_def)
  have g: "grantLoop ?h example_vmID (extractVHDPaths three_disks_abs) [] [] =
     (None, [''C:/cwd/a.vhdx'', ''C:/vm/b.vhdx'', ''C:/cwd/c.vhdx''], ?g)"
    by (rule grants_three) (simp add: host_start_fault_def example_host_def)
  have c: "createOperation ?h ?g = ((0x11, None), ?t2)"
    by (simp add: createOperation_def host_start_fault_def example_host_def)
  have s: "createComputeSystem ?h example_vmID three_disks_doc 0x11 ?t2 = ((0x5000, None), ?t3)"
    by (simp add: createComputeSystem_def host_start_fault_def example_host_def
        UTF16PtrFromString_def hrOK_def example_vmID_def three_disks_doc_def)
  have w: "waitForResult ?h 0x11 infinite_timeout ?t3 = (([], None), ?t4)"
    by (simp add: waitForResult_def host_start_fault_def example_host_def hrOK_def Let_def)
  have c2: "createOperation ?h (?t4 @ [HcsCloseOperation 0x11]) = ((0x22, None), ?t5)"
    by (simp add: createOperation_def host_start_fault_def example_host_def)
  have st: "startComputeSystem ?h 0x5000 0x22 ?t5 =
              (Some (HcsError ''HcsStartComputeSystem'' 0x80070005 []), ?tf) \<or>
            (startComputeSystem ?h 0x5000 0x22 ?t5 = (None, []) \<and>
             waitForResult ?h 0x22 infinite_timeout [] = (([], Some EINVAL), ?tf) \<and>
             HcsError ''HcsStartComputeSystem'' 0x80070005 [] =
               Errorfw ''start compute system: %w'' [] EINVAL)"
    by (simp add: startComputeSystem_def host_start_fault_def hrOK_def Let_def)
  have c3: "createOperation ?h (?tf @ [HcsCloseOperation 0x22]) = ((0x33, None), ?t8)"
    by (simp add: createOperation_def host_start_fault_def example_host_def)
  from start_failure_terminates_before_revoking[OF p g c s w c2 st c3, of "''vm1''"]
  obtain before calls where
    r: "CreateAndStartVM ?h ''three-disks.json'' ''vm1'' False [] =
          (Some (HcsError ''HcsStartComputeSystem'' 0x80070005 []), [] @ calls)" and
    cs: "calls = before @
             [HcsTerminateComputeSystem 0x5000 0x33, HcsWaitForOperationResult 0x33 5000,
              HcsCloseOperation 0x33] @
             (if (0x5000 :: 64 word) \<noteq> 0 then [HcsCloseComputeSystem 0x5000] else []) @
             map (HcsRevokeVmAccess example_vmID)
               [''C:/cwd/a.vhdx'', ''C:/vm/b.vhdx'', ''C:/cwd/c.vhdx'']"
    by blast
  have run: "snd (CreateAndStartVM ?h ''three-disks.json'' ''vm1'' False []) =
     ?t8 @ [HcsTerminateComputeSystem 0x5000 0x33, HcsWaitForOperationResult 0x33 5000,
              HcsCloseOperation 0x33, HcsCloseComputeSystem 0x5000] @
           map (HcsRevokeVmAccess example_vmID)
               [''C:/cwd/a.vhdx'', ''C:/vm/b.vhdx'', ''C:/cwd/c.vhdx'']"
    unfolding CreateAndStartVM_granted(1)[OF p g]
    by (simp add: run_defs host_start_fault_def example_host_def)
  from r run show ?thesis by simp
qed

lemma run_start_fault_no_handle:
  "CreateAndStartVM host_start_fault_no_handle ''three-disks.json'' ''vm1'' False [] =
     (Some (HcsError ''HcsStartComputeSystem'' 0x80070005 []),
      [HcsGrantVmAccess example_vmID ''C:/cwd/a.vhdx'',
       HcsGrantVmAccess example_vmID ''C:/vm/b.vhdx'',
       HcsGrantVmAccess example_vmID ''C:/cwd/c.vhdx'',
       HcsCreateOperation 0x11,
       HcsCreateComputeSystem example_vmID three_disks_doc 0x11,
       HcsWaitForOperationResult 0x11 infinite_timeout,
       HcsCloseOperation 0x11,
       HcsCreateOperation 0x22,
       HcsStartComputeSystem 0x5000 0x22,
       HcsCloseOperation 0x22,
       HcsCreateOperation 0,
       HcsCloseComputeSystem 0x5000,
       HcsRevokeVmAccess example_vmID ''C:/cwd/a.vhdx'',
       HcsRevokeVmAccess example_vmID ''C:/vm/b.vhdx'',
       HcsRevokeVmAccess example_vmID ''C:/cwd/c.vhdx''])"
proof -
  let ?h = host_start_fault_no_handle
  have p: "CreateAndStartVM_prepare ?h ''three-disks.json'' False =
     Inr (three_disks_abs, three_disks_doc, example_vmID)"
    by (rule prep_three_any) (simp_all add: host_start_fault_no_handle_def)
  have g: "grantLoop ?h example_vmID (extractVHDPaths three_disks_abs) [] [] =
     (None, [''C:/cwd/a.vhdx'', ''C:/vm/b.vhdx'', ''C:/cwd/c.vhdx''],
      [HcsGrantVmAccess example_vmID ''C:/cwd/a.vhdx'',
       HcsGrantVmAccess example_vmID ''C:/vm/b.vhdx'',
       HcsGrantVmAccess example_vmID ''C:/cwd/c.vhdx''])"
    by (rule grants_three) (simp add: host_start_fault_no_handle_def example_host_def)
  show ?thesis
    unfolding CreateAndStartVM_granted(1)[OF p g]
    by (simp add: run_defs host_start_fault_no_handle_def example_host_def)
qed

theorem start_failure_without_terminate_counterexample:
  "CreateAndStartVM host_start_fault_no_handle ''three-disks.json'' ''vm1'' False [] =
     (Some (HcsError ''HcsStartComputeSystem'' 0x80070005 []),
      [HcsGrantVmAccess example_vmID ''C:/cwd/a.vhdx'',
       HcsGrantVmAccess example_vmID ''C:/vm/b.vhdx'',
       HcsGrantVmAccess example_vmID ''C:/cwd/c.vhdx'',
       HcsCreateOperation 0x11,
       HcsCreateComputeSystem example_vmID three_disks_doc 0x11,
       HcsWaitForOperationResult 0x11 infinite_timeout,
       HcsCloseOperation 0x11,
       HcsCreateOperation 0x22,
       HcsStartComputeSystem 0x5000 0x22,
       HcsCloseOperation 0x22,
       HcsCreateOperation 0,
       HcsCloseComputeSystem 0x5000,
       HcsRevokeVmAccess example_vmID ''C:/cwd/a.vhdx'',
       HcsRevokeVmAccess example_vmID ''C:/vm/b.vhdx'',
       HcsRevokeVmAccess example_vmID ''C:/cwd/c.vhdx'']) \<and>
   filter is_terminate
     (snd (CreateAndStartVM host_start_fault_no_handle ''three-disks.json'' ''vm1'' False [])) = []"
  unfolding run_start_fault_no_handle by simp

section \<open>Operation handles\<close>

lemma balanced_Nil: "balanced []"
  by (simp add: balanced_def)

lemma balanced_append: "balanced xs \<Longrightarrow> balanced ys \<Longrightarrow> balanced (xs @ ys)"
  by (simp add: balanced_def)

lemma balanced_plain1: "is_plain c \<Longrightarrow> balanced [c]"
  by (cases c) (simp_all add: balanced_def)

lemma balanced_plain: "list_all is_plain cs \<Longrightarrow> balanced cs"
proof (induction cs)
  case Nil
  show ?case by (rule balanced_Nil)
next
  case (Cons c cs)
  then have "balanced [c]" "balanced cs" by (simp_all add: balanced_plain1)
  then have "balanced ([c] @ cs)" by (rule balanced_append)
  then show ?case by simp
qed

lemma balanced_null: "balanced [HcsCreateOperation 0]"
  by (simp add: balanced_def)

lemma balanced_bracket:
  assumes "r \<noteq> 0" "balanced mid"
  shows "balanced (HcsCreateOperation r # mid @ [HcsCloseOperation r])"
  using assms by (simp add: balanced_def)

lemma balanced_closed: "balanced calls \<Longrightarrow> handles_closed_once [] calls"
  using balanced_def[of calls] by (metis append_Nil2 handles_closed_once.simps(1))

lemma handles_count:
  "handles_closed_once opened calls \<Longrightarrow>
   length opened + length (filter is_open calls) = length (filter is_close calls)"
proof (induction opened calls rule: handles_closed_once.induct)
  case (1 opened)
  then show ?case by simp
next
  case (2 opened r calls)
  then show ?case by (simp split: if_splits)
next
  case (3 opened opn calls)
  then have "opn \<in> set opened" and h: "handles_closed_once (remove1 opn opened) calls"
    by simp_all
  from \<open>opn \<in> set opened\<close> have l: "length (remove1 opn opened) = length opened - 1"
    and pos: "0 < length opened"
    by (auto simp: length_remove1 length_pos_if_in_set)
  from "3.IH"[OF h] l pos show ?case by (cases opened) auto
qed simp_all

lemma revokeAll_calls:
  "\<exists>calls. revokeAll h vmID ps tr = tr @ calls \<and>
           set calls \<subseteq> HcsRevokeVmAccess vmID ` set ps"
proof (induction ps arbitrary: tr)
  case Nil
  then show ?case by simp
next
  case (Cons p ps)
  obtain c1 where c1: "snd (revokeVmAccess h vmID p tr) = tr @ c1"
    "set c1 \<subseteq> {HcsRevokeVmAccess vmID p}"
    by (cases "UTF16PtrFromString vmID = None \<and> UTF16PtrFromString p = None")
       (auto simp: snd_revokeVmAccess)
  from Cons.IH[of "tr @ c1"] obtain c2 where
    "revokeAll h vmID ps (tr @ c1) = (tr @ c1) @ c2"
    "set c2 \<subseteq> HcsRevokeVmAccess vmID ` set ps" by blast
  with c1 show ?case by (intro exI[of _ "c1 @ c2"]) auto
qed

lemma revokeAll_shape:
  "\<exists>calls. revokeAll h vmID g tr = tr @ calls \<and> balanced calls \<and>
           list_all (phase_call vmID doc g) calls"
proof -
  from revokeAll_calls[of h vmID g tr] obtain calls where
    c: "revokeAll h vmID g tr = tr @ calls" "set calls \<subseteq> HcsRevokeVmAccess vmID ` set g"
    by blast
  from c(2) have "list_all is_plain calls" "list_all (phase_call vmID doc g) calls"
    by (auto simp: list_all_iff)
  with c(1) show ?thesis by (auto intro: balanced_plain)
qed

lemma grantLoop_calls:
  "\<exists>calls. snd (snd (grantLoop h vmID ps g tr)) = tr @ calls \<and>
           list_all (\<lambda>c. is_grant c \<or> is_revoke c) calls"
proof (induction ps arbitrary: g tr)
  case Nil
  then show ?case by simp
next
  case (Cons p ps)
  obtain e tr1 where g1: "grantVmAccess h vmID p tr = (e, tr1)"
    by (cases "grantVmAccess h vmID p tr")
  obtain c1 where c1: "tr1 = tr @ c1" "list_all (\<lambda>c. is_grant c \<or> is_revoke c) c1"
    using snd_grantVmAccess[of h vmID p tr] g1
    by (cases "UTF16PtrFromString vmID = None \<and> UTF16PtrFromString p = None") auto
  show ?case
  proof (cases e)
    case None
    from Cons.IH[of "g @ [p]" tr1] obtain c2 where
      "snd (snd (grantLoop h vmID ps (g @ [p]) tr1)) = tr1 @ c2"
      "list_all (\<lambda>c. is_grant c \<or> is_revoke c) c2" by blast
    with c1 g1 None show ?thesis by (intro exI[of _ "c1 @ c2"]) simp
  next
    case (Some err)
    from revokeAll_calls[of h vmID g tr1] obtain c2 where
      c2: "revokeAll h vmID g tr1 = tr1 @ c2" "set c2 \<subseteq> HcsRevokeVmAccess vmID ` set g"
      by blast
    then have "list_all (\<lambda>c. is_grant c \<or> is_revoke c) c2"
      by (auto simp: list_all_iff)
    with c1 c2 g1 Some show ?thesis by (intro exI[of _ "c1 @ c2"]) simp
  qed
qed

lemma access_plain: "list_all (\<lambda>c. is_grant c \<or> is_revoke c) cs \<Longrightarrow> list_all is_plain cs"
  by (induction cs) (auto elim: is_grant.elims is_revoke.elims)

lemma terminateAndClose_shape:
  "\<exists>calls. terminateAndClose h sys tr = tr @ calls \<and> balanced calls \<and>
           list_all (phase_call vmID doc g) calls"
proof -
  obtain op3 e tr1 where c: "createOperation h tr = ((op3, e), tr1)"
    by (cases "createOperation h tr") auto
  let ?close = "if sys \<noteq> 0 then [HcsCloseComputeSystem sys] else []"
  have bc: "balanced ?close" by (simp add: balanced_plain)
  show ?thesis
  proof (cases e)
    case None
    from createOperation_ok[OF c[unfolded None]] have nz: "op3 \<noteq> 0"
      and tr1: "tr1 = tr @ [HcsCreateOperation op3]" by blast+
    let ?mid = "[HcsTerminateComputeSystem sys op3, HcsWaitForOperationResult op3 5000]"
    have "balanced ?mid" by (simp add: balanced_plain)
    from balanced_bracket[OF nz this]
    have "balanced (HcsCreateOperation op3 # ?mid @ [HcsCloseOperation op3])" .
    from balanced_append[OF this bc]
    have b: "balanced ([HcsCreateOperation op3, HcsTerminateComputeSystem sys op3,
          HcsWaitForOperationResult op3 5000, HcsCloseOperation op3] @ ?close)" by simp
    have t: "terminateAndClose h sys tr = tr @ [HcsCreateOperation op3,
          HcsTerminateComputeSystem sys op3,
          HcsWaitForOperationResult op3 5000, HcsCloseOperation op3] @ ?close"
      using terminateAndClose_opened[OF c[unfolded None], of sys] by (simp add: tr1)
    show ?thesis
      by (intro exI[of _ "[HcsCreateOperation op3, HcsTerminateComputeSystem sys op3,
          HcsWaitForOperationResult op3 5000, HcsCloseOperation op3] @ ?close"] conjI t b) simp
  next
    case (Some err)
    from balanced_append[OF balanced_null bc]
    have b: "balanced ([HcsCreateOperation 0] @ ?close)" .
    have t: "terminateAndClose h sys tr = tr @ [HcsCreateOperation 0] @ ?close"
      using terminateAndClose_no_handle[OF c[unfolded Some], of sys] by simp
    show ?thesis
      by (intro exI[of _ "[HcsCreateOperation 0] @ ?close"] conjI t b) simp
  qed
qed

lemma cleanup_shape:
  "\<exists>calls. revokeAll h vmID g (terminateAndClose h sys tr) = tr @ calls \<and> balanced calls \<and>
           list_all (phase_call vmID doc g) calls"
proof -
  from terminateAndClose_shape[of h sys tr vmID doc g] obtain c1 where
    c1: "terminateAndClose h sys tr = tr @ c1" "balanced c1"
        "list_all (phase_call vmID doc g) c1" by blast
  from revokeAll_shape[of h vmID g "tr @ c1" doc] obtain c2 where
    c2: "revokeAll h vmID g (tr @ c1) = (tr @ c1) @ c2" "balanced c2"
        "list_all (phase_call vmID doc g) c2" by blast
  show ?thesis
    using c1 c2 by (intro exI[of _ "c1 @ c2"]) (simp add: balanced_append)
qed

lemma start_phase_shape:
  "\<exists>calls. snd (CreateAndStartVM_start h vmID g sys tr) = tr @ calls \<and> balanced calls \<and>
           list_all (phase_call vmID doc g) calls"
proof -
  obtain op2 e1 tr1 where c: "createOperation h tr = ((op2, e1), tr1)"
    by (cases "createOperation h tr") auto
  show ?thesis
  proof (cases e1)
    case (Some err)
    from createOperation_fail[OF c[unfolded Some]]
    have tr1: "tr1 = tr @ [HcsCreateOperation 0]" by blast
    from cleanup_shape[of h vmID g sys tr1 doc] obtain c' where
      c': "revokeAll h vmID g (terminateAndClose h sys tr1) = tr1 @ c'" "balanced c'"
          "list_all (phase_call vmID doc g) c'" by blast
    have "snd (CreateAndStartVM_start h vmID g sys tr) = tr @ [HcsCreateOperation 0] @ c'"
      by (simp add: CreateAndStartVM_start_def c Some c'(1)) (simp add: tr1)
    moreover have "balanced ([HcsCreateOperation 0] @ c')"
      by (rule balanced_append[OF balanced_null c'(2)])
    ultimately show ?thesis
      using c'(3) by (intro exI[of _ "[HcsCreateOperation 0] @ c'"]) simp
  next
    case None
    note c = c[unfolded None]
    from createOperation_ok[OF c] have nz: "op2 \<noteq> 0"
      and tr1: "tr1 = tr @ [HcsCreateOperation op2]" by blast+
    obtain e2 tr2 where s: "startComputeSystem h sys op2 tr1 = (e2, tr2)"
      by (cases "startComputeSystem h sys op2 tr1")
    from startComputeSystem_trace[OF s]
    have tr2: "tr2 = tr1 @ [HcsStartComputeSystem sys op2]" .
    show ?thesis
    proof (cases e2)
      case (Some err)
      let ?pre = "[HcsCreateOperation op2, HcsStartComputeSystem sys op2, HcsCloseOperation op2]"
      from cleanup_shape[of h vmID g sys "tr @ ?pre" doc] obtain c' where
        c': "revokeAll h vmID g (terminateAndClose h sys (tr @ ?pre)) = (tr @ ?pre) @ c'"
            "balanced c'" "list_all (phase_call vmID doc g) c'" by blast
      have "closeOperation op2 tr2 = tr @ ?pre"
        by (simp add: closeOperation_ok[OF nz] tr2 tr1)
      then have "snd (CreateAndStartVM_start h vmID g sys tr) = tr @ ?pre @ c'"
        by (simp add: CreateAndStartVM_start_def c s Some c'(1))
      moreover have "balanced ?pre"
        using balanced_bracket[OF nz, of "[HcsStartComputeSystem sys op2]"]
        by (simp add: balanced_plain)
      then have "balanced (?pre @ c')" by (rule balanced_append[OF _ c'(2)])
      ultimately show ?thesis
        using c'(3) by (intro exI[of _ "?pre @ c'"]) simp
    next
      case None
      note s = s[unfolded None]
      obtain d e3 tr3 where w: "waitForResult h op2 infinite_timeout tr2 = ((d, e3), tr3)"
        by (cases "waitForResult h op2 infinite_timeout tr2") auto
      from waitForResult_trace[OF w]
      have tr3: "tr3 = tr2 @ [HcsWaitForOperationResult op2 infinite_timeout]" .
      let ?pre = "[HcsCreateOperation op2, HcsStartComputeSystem sys op2,
                   HcsWaitForOperationResult op2 infinite_timeout, HcsCloseOperation op2]"
      have cl: "closeOperation op2 tr3 = tr @ ?pre"
        by (simp add: closeOperation_ok[OF nz] tr3 tr2 tr1)
      have bp: "balanced ?pre"
        using balanced_bracket[OF nz, of "[HcsStartComputeSystem sys op2,
                   HcsWaitForOperationResult op2 infinite_timeout]"]
        by (simp add: balanced_plain)
      show ?thesis
      proof (cases e3)
        case (Some werr)
        from cleanup_shape[of h vmID g sys "tr @ ?pre" doc] obtain c' where
          c': "revokeAll h vmID g (terminateAndClose h sys (tr @ ?pre)) = (tr @ ?pre) @ c'"
              "balanced c'" "list_all (phase_call vmID doc g) c'" by blast
        have "snd (CreateAndStartVM_start h vmID g sys tr) = tr @ ?pre @ c'"
          by (simp add: CreateAndStartVM_start_def c s w Some cl c'(1) Let_def)
        moreover have "balanced (?pre @ c')" by (rule balanced_append[OF bp c'(2)])
        ultimately show ?thesis
          using c'(3) by (intro exI[of _ "?pre @ c'"]) simp
      next
        case None
        let ?post = "(if sys \<noteq> 0 then [HcsCloseComputeSystem sys] else []) @ [Println vmID]"
        have "snd (CreateAndStartVM_start h vmID g sys tr) = tr @ ?pre @ ?post"
          by (simp add: CreateAndStartVM_start_def c s w None cl closeComputeSystem_calls Let_def)
        moreover have "balanced ?post" by (simp add: balanced_plain)
        then have "balanced (?pre @ ?post)" by (rule balanced_append[OF bp])
        ultimately show ?thesis
          by (intro exI[of _ "?pre @ ?post"]) simp
      qed
    qed
  qed
qed

lemma create_phase_shape:
  "\<exists>calls. snd (CreateAndStartVM_create h vmID doc g tr) = tr @ calls \<and> balanced calls \<and>
           list_all (phase_call vmID doc g) calls"
proof -
  obtain opn e1 tr1 where c: "createOperation h tr = ((opn, e1), tr1)"
    by (cases "createOperation h tr") auto
  show ?thesis
  proof (cases e1)
    case (Some err)
    from createOperation_fail[OF c[unfolded Some]]
    have tr1: "tr1 = tr @ [HcsCreateOperation 0]" by blast
    from revokeAll_shape[of h vmID g tr1 doc] obtain c' where
      c': "revokeAll h vmID g tr1 = tr1 @ c'" "balanced c'"
          "list_all (phase_call vmID doc g) c'" by blast
    have "snd (CreateAndStartVM_create h vmID doc g tr) = tr @ [HcsCreateOperation 0] @ c'"
      by (simp add: CreateAndStartVM_create_def c Some c'(1)) (simp add: tr1)
    moreover have "balanced ([HcsCreateOperation 0] @ c')"
      by (rule balanced_append[OF balanced_null c'(2)])
    ultimately show ?thesis
      using c'(3) by (intro exI[of _ "[HcsCreateOperation 0] @ c'"]) simp
  next
    case None
    note c = c[unfolded None]
    from createOperation_ok[OF c] have nz: "opn \<noteq> 0"
      and tr1: "tr1 = tr @ [HcsCreateOperation opn]" by blast+
    obtain sys e2 tr2 where s: "createComputeSystem h vmID doc opn tr1 = ((sys, e2), tr2)"
      by (cases "createComputeSystem h vmID doc opn tr1") auto
    obtain rj e3 tr3 where w: "waitForResult h opn infinite_timeout tr2 = ((rj, e3), tr3)"
      by (cases "waitForResult h opn infinite_timeout tr2") auto
    let ?sub = "if UTF16PtrFromString vmID = None \<and> UTF16PtrFromString doc = None
                then [HcsCreateComputeSystem vmID doc opn] else []"
    from createComputeSystem_trace[OF s] have tr2: "tr2 = tr1 @ ?sub" .
    from waitForResult_trace[OF w]
    have tr3: "tr3 = tr2 @ [HcsWaitForOperationResult opn infinite_timeout]" .
    let ?pre = "HcsCreateOperation opn #
                 (?sub @ [HcsWaitForOperationResult opn infinite_timeout]) @
                 [HcsCloseOperation opn]"
    have t4: "tr3 @ [HcsCloseOperation opn] = tr @ ?pre"
      by (simp add: tr3 tr2 tr1)
    have "balanced (?sub @ [HcsWaitForOperationResult opn infinite_timeout])"
      by (simp add: balanced_plain)
    from balanced_bracket[OF nz this] have bp: "balanced ?pre" .
    have pp: "list_all (phase_call vmID doc g) ?pre" by simp
    note steps = create_phase_steps[OF c s w, of g, unfolded t4]
    have "\<exists>c'. snd (CreateAndStartVM_create h vmID doc g tr) = (tr @ ?pre) @ c' \<and> balanced c' \<and>
            list_all (phase_call vmID doc g) c'"
    proof (cases "e2 = None \<and> e3 = None")
      case True
      then show ?thesis
        using start_phase_shape[of h vmID g sys "tr @ ?pre" doc] by (simp add: steps)
    next
      case False
      then have "snd (CreateAndStartVM_create h vmID doc g tr) = revokeAll h vmID g (tr @ ?pre)"
        by (auto simp: steps split: option.splits)
      then show ?thesis
        using revokeAll_shape[of h vmID g "tr @ ?pre" doc] by simp
    qed
    then obtain c' where
      c': "snd (CreateAndStartVM_create h vmID doc g tr) = (tr @ ?pre) @ c'" "balanced c'"
          "list_all (phase_call vmID doc g) c'" by blast
    have "balanced (?pre @ c')" by (rule balanced_append[OF bp c'(2)])
    with c'(1,3) pp show ?thesis
      by (intro exI[of _ "?pre @ c'"]) (simp del: phase_call.simps)
  qed
qed

lemma transaction_shape:
  "\<exists>calls. snd (CreateAndStartVM h specJSON name addGPU tr) = tr @ calls \<and> balanced calls"
proof (cases "CreateAndStartVM_prepare h specJSON addGPU")
  case (Inl err)
  then have "snd (CreateAndStartVM h specJSON name addGPU tr) = tr @ []"
    by (simp add: CreateAndStartVM_def)
  then show ?thesis using balanced_Nil by blast
next
  case (Inr r)
  then obtain spec doc vmID where
    p: "CreateAndStartVM_prepare h specJSON addGPU = Inr (spec, doc, vmID)"
    by (cases r) auto
  obtain e g tr1 where l: "grantLoop h vmID (extractVHDPaths spec) [] tr = (e, g, tr1)"
    by (cases "grantLoop h vmID (extractVHDPaths spec) [] tr") auto
  from grantLoop_calls[of h vmID "extractVHDPaths spec" "[]" tr] l obtain c1 where
    c1: "tr1 = tr @ c1" "list_all (\<lambda>c. is_grant c \<or> is_revoke c) c1" by auto
  from c1(2) have b1: "balanced c1" by (intro balanced_plain access_plain)
  show ?thesis
  proof (cases e)
    case (Some err)
    with p l have "snd (CreateAndStartVM h specJSON name addGPU tr) = tr @ c1"
      by (simp add: CreateAndStartVM_def c1(1))
    with b1 show ?thesis by blast
  next
    case None
    from create_phase_shape[of h vmID doc g tr1] obtain c2 where
      c2: "snd (CreateAndStartVM_create h vmID doc g tr1) = tr1 @ c2" "balanced c2" by blast
    from p l None have "snd (CreateAndStartVM h specJSON name addGPU tr) = tr @ c1 @ c2"
      by (simp add: CreateAndStartVM_def c2(1)) (simp add: c1(1))
    moreover have "balanced (c1 @ c2)" by (rule balanced_append[OF b1 c2(2)])
    ultimately show ?thesis by blast
  qed
qed

text \<open>
  Claim C4. Whatever the host answers and whichever step fails, the calls made by
  \<open>CreateAndStartVM\<close> keep the discipline of operation handles: every close is of a
  handle that is open at that moment, no handle is open at the return, and there are as
  many closes as successful opens.
\<close>

theorem operation_handles_closed_once:
  "\<exists>calls. snd (CreateAndStartVM h specJSON name addGPU tr) = tr @ calls \<and>
           handles_closed_once [] calls \<and>
           length (filter is_open calls) = length (filter is_close calls)"
proof -
  from transaction_shape[of h specJSON name addGPU tr] obtain calls where
    c: "snd (CreateAndStartVM h specJSON name addGPU tr) = tr @ calls" "balanced calls"
    by blast
  from balanced_closed[OF c(2)] have h: "handles_closed_once [] calls" .
  from handles_count[OF h] have "length (filter is_open calls) = length (filter is_close calls)"
    by simp
  with c(1) h show ?thesis by blast
qed

theorem operation_handles_closed_once_witness:
  "handles_closed_once []
     (snd (CreateAndStartVM host_start_fault_no_handle ''three-disks.json'' ''vm1'' False [])) \<and>
   length (filter is_open
     (snd (CreateAndStartVM host_start_fault_no_handle ''three-disks.json'' ''vm1'' False []))) = 2 \<and>
   length (filter is_close
     (snd (CreateAndStartVM host_start_fault_no_handle ''three-disks.json'' ''vm1'' False []))) = 2"
proof -
  from operation_handles_closed_once[of host_start_fault_no_handle "''three-disks.json''"
         "''vm1''" False "[]"]
  obtain calls where
    c: "snd (CreateAndStartVM host_start_fault_no_handle ''three-disks.json'' ''vm1'' False []) =
          [] @ calls" and
    h: "handles_closed_once [] calls" and
    n: "length (filter is_open calls) = length (filter is_close calls)"
    by blast
  from c have "length (filter is_open calls) = 2"
    unfolding run_start_fault_no_handle by auto
  with c h n show ?thesis by simp
qed

section \<open>Paths of the document\<close>

lemma extractAttachments_eq:
  "extractAttachments atts acc = acc @ filter (\<lambda>p. p \<noteq> []) (pathsOfAttachments atts)"
  by (induction atts arbitrary: acc)
     (auto simp: pathsOfAttachments_def split: option.splits)

lemma pathsOfControllers_Cons:
  "pathsOfControllers ((nm, ctrl) # rest) =
     (case ctrl of None \<Rightarrow> [] | Some c \<Rightarrow> pathsOfAttachments (entries (Attachments c))) @
     pathsOfControllers rest"
  by (simp add: pathsOfControllers_def)

lemma pathsOfControllers_Nil: "pathsOfControllers [] = []"
  by (simp add: pathsOfControllers_def)

lemma pathsOfAttachments_Cons:
  "pathsOfAttachments ((slot, att) # rest) =
     (case att of None \<Rightarrow> [] | Some a \<Rightarrow> [Path a]) @ pathsOfAttachments rest"
  by (simp add: pathsOfAttachments_def)

lemma pathsOfAttachments_Nil: "pathsOfAttachments [] = []"
  by (simp add: pathsOfAttachments_def)

lemma extractControllers_eq:
  "extractControllers ctrls acc = acc @ filter (\<lambda>p. p \<noteq> []) (pathsOfControllers ctrls)"
  by (induction ctrls arbitrary: acc)
     (auto simp: pathsOfControllers_Cons pathsOfControllers_Nil extractAttachments_eq
           split: option.splits)

lemma extractVHDPaths_eq:
  "extractVHDPaths spec = filter (\<lambda>p. p \<noteq> []) (attachmentPaths spec)"
  by (simp add: extractVHDPaths_def attachmentPaths_def extractControllers_eq
      split: option.splits)

lemma resolves_empty: "resolves Abs [] []"
  by (simp add: resolves_def)

lemma resolves_abs: "p \<noteq> [] \<Longrightarrow> Abs p = (q, None) \<Longrightarrow> resolves Abs p q"
  by (simp add: resolves_def)

lemma absAttachments_paths:
  "absAttachments Abs atts = (atts', None) \<Longrightarrow>
   list_all2 (resolves Abs) (pathsOfAttachments atts) (pathsOfAttachments atts')"
proof (induction atts arbitrary: atts')
  case Nil
  then show ?case by (simp add: pathsOfAttachments_Nil)
next
  case (Cons x atts)
  obtain slot att where x: "x = (slot, att)" by (cases x)
  obtain rest' e where r: "absAttachments Abs atts = (rest', e)"
    by (cases "absAttachments Abs atts")
  from Cons.prems x r have e: "e = None"
    by (auto split: option.splits if_splits prod.splits)
  from Cons.IH[OF r[unfolded e]]
  have ih: "list_all2 (resolves Abs) (pathsOfAttachments atts) (pathsOfAttachments rest')" .
  from Cons.prems x r e ih show ?case
    by (auto simp: pathsOfAttachments_Cons resolves_empty resolves_abs
             split: option.splits if_splits prod.splits)
qed

lemma absControllers_paths:
  "absControllers Abs ctrls = (ctrls', None) \<Longrightarrow>
   list_all2 (resolves Abs) (pathsOfControllers ctrls) (pathsOfControllers ctrls')"
proof (induction ctrls arbitrary: ctrls')
  case Nil
  then show ?case by (simp add: pathsOfControllers_Nil)
next
  case (Cons x ctrls)
  obtain nm ctrl where x: "x = (nm, ctrl)" by (cases x)
  obtain rest' e where r: "absControllers Abs ctrls = (rest', e)"
    by (cases "absControllers Abs ctrls")
  from Cons.prems x r have e: "e = None"
    by (auto split: option.splits if_splits prod.splits)
  from Cons.IH[OF r[unfolded e]]
  have ih: "list_all2 (resolves Abs) (pathsOfControllers ctrls) (pathsOfControllers rest')" .
  show ?case
  proof (cases ctrl)
    case None
    with Cons.prems x r e ih show ?thesis
      by (auto simp: pathsOfControllers_Cons)
  next
    case (Some c)
    show ?thesis
    proof (cases "Attachments c")
      case None
      with Some Cons.prems x r e ih show ?thesis
        by (auto simp: pathsOfControllers_Cons entries_def pathsOfAttachments_Nil)
    next
      case (Some atts)
      obtain atts' e' where a: "absAttachments Abs atts = (atts', e')"
        by (cases "absAttachments Abs atts")
      from Cons.prems x r \<open>ctrl = Some c\<close> Some a have e': "e' = None"
        by (auto split: option.splits)
      from absAttachments_paths[OF a[unfolded e']]
      have "list_all2 (resolves Abs) (pathsOfAttachments atts) (pathsOfAttachments atts')" .
      with Cons.prems x r e ih \<open>ctrl = Some c\<close> Some a e' show ?thesis
        by (auto simp: pathsOfControllers_Cons entries_def intro: list_all2_appendI)
    qed
  qed
qed

lemma makePathsAbsolute_paths:
  "makePathsAbsolute Abs spec = (spec', None) \<Longrightarrow>
   list_all2 (resolves Abs) (attachmentPaths spec) (attachmentPaths spec')"
proof -
  assume m: "makePathsAbsolute Abs spec = (spec', None)"
  have refl: "\<And>xs. list_all2 (resolves Abs) [] []" by simp
  show ?thesis
  proof (cases "VirtualMachine spec")
    case None
    with m show ?thesis by (auto simp: makePathsAbsolute_def attachmentPaths_def)
  next
    case (Some vm)
    show ?thesis
    proof (cases "Devices vm")
      case None
      with Some m show ?thesis by (auto simp: makePathsAbsolute_def attachmentPaths_def)
    next
      case (Some devs)
      show ?thesis
      proof (cases "Scsi devs")
        case None
        with Some \<open>VirtualMachine spec = Some vm\<close> m show ?thesis
          by (auto simp: makePathsAbsolute_def attachmentPaths_def entries_def
              pathsOfControllers_Nil)
      next
        case (Some ctrls)
        obtain ctrls' e where a: "absControllers Abs ctrls = (ctrls', e)"
          by (cases "absControllers Abs ctrls")
        with m Some \<open>Devices vm = Some devs\<close> \<open>VirtualMachine spec = Some vm\<close>
        have e: "e = None" and
          s': "spec' = spec\<lparr>VirtualMachine :=
                 Some (vm\<lparr>Devices := Some (devs\<lparr>Scsi := Some ctrls'\<rparr>)\<rparr>)\<rparr>"
          by (auto simp: makePathsAbsolute_def)
        from absControllers_paths[OF a[unfolded e]]
        show ?thesis
          using Some \<open>Devices vm = Some devs\<close> \<open>VirtualMachine spec = Some vm\<close>
          by (simp add: s' attachmentPaths_def entries_def)
      qed
    qed
  qed
qed

lemma entries_None: "entries None = []"
  by (simp add: entries_def)

lemma entries_Some: "entries (Some al) = al"
  by (simp add: entries_def)

lemma absAttachments_nil:
  "list_all (\<lambda>(slot, att). att = None) atts \<Longrightarrow> absAttachments Abs atts = (atts, None)"
  by (induction atts) auto

lemma pathsOfAttachments_nil:
  "list_all (\<lambda>(slot, att). att = None) atts \<Longrightarrow> pathsOfAttachments atts = []"
  by (induction atts) (auto simp: pathsOfAttachments_Cons pathsOfAttachments_Nil)

lemma absControllers_nil:
  "list_all (\<lambda>(nm, ctrl). case ctrl of
                None \<Rightarrow> True
              | Some c \<Rightarrow> list_all (\<lambda>(slot, att). att = None) (entries (Attachments c))) ctrls \<Longrightarrow>
   absControllers Abs ctrls = (ctrls, None)"
proof (induction ctrls)
  case Nil
  then show ?case by simp
next
  case (Cons x ctrls)
  obtain nm ctrl where x: "x = (nm, ctrl)" by (cases x)
  from Cons have ih: "absControllers Abs ctrls = (ctrls, None)" by simp
  show ?case
  proof (cases ctrl)
    case None
    with x ih show ?thesis by simp
  next
    case (Some c)
    show ?thesis
    proof (cases "Attachments c")
      case None
      with Some x ih show ?thesis by simp
    next
      case (Some atts)
      with Cons.prems x \<open>ctrl = Some c\<close>
      have "list_all (\<lambda>(slot, att). att = None) atts" by (simp add: entries_def)
      from absAttachments_nil[OF this, of Abs] have a: "absAttachments Abs atts = (atts, None)" .
      have "c\<lparr>Attachments := Some atts\<rparr> = c" using Some by simp
      with a x ih \<open>ctrl = Some c\<close> Some show ?thesis by simp
    qed
  qed
qed

lemma pathsOfControllers_nil:
  "list_all (\<lambda>(nm, ctrl). case ctrl of
                None \<Rightarrow> True
              | Some c \<Rightarrow> list_all (\<lambda>(slot, att). att = None) (entries (Attachments c))) ctrls \<Longrightarrow>
   pathsOfControllers ctrls = []"
  by (induction ctrls)
     (auto simp: pathsOfControllers_Cons pathsOfControllers_Nil pathsOfAttachments_nil
           split: option.splits)

lemma no_attachments_paths: "no_attachments spec \<Longrightarrow> attachmentPaths spec = []"
  by (auto simp: no_attachments_def attachmentPaths_def pathsOfControllers_nil
      split: option.splits)

lemma no_attachments_noop:
  assumes "no_attachments spec"
  shows "makePathsAbsolute Abs spec = (spec, None)"
proof (cases "VirtualMachine spec")
  case None
  then show ?thesis by (simp add: makePathsAbsolute_def)
next
  case (Some vm)
  note vm = this
  show ?thesis
  proof (cases "Devices vm")
    case None
    with vm show ?thesis by (simp add: makePathsAbsolute_def)
  next
    case (Some devs)
    note devs = this
    show ?thesis
    proof (cases "Scsi devs")
      case None
      with vm devs show ?thesis by (simp add: makePathsAbsolute_def)
    next
      case (Some ctrls)
      from assms vm devs Some
      have "absControllers Abs ctrls = (ctrls, None)"
        by (intro absControllers_nil) (simp add: no_attachments_def entries_Some)
      moreover have "devs\<lparr>Scsi := Some ctrls\<rparr> = devs" using Some by simp
      moreover have "vm\<lparr>Devices := Some devs\<rparr> = vm" using devs by simp
      moreover have "spec\<lparr>VirtualMachine := Some vm\<rparr> = spec" using vm by simp
      ultimately show ?thesis using vm devs Some by (simp add: makePathsAbsolute_def)
    qed
  qed
qed

lemma attachmentPaths_Owner [simp]:
  "attachmentPaths (spec\<lparr>Owner := x\<rparr>) = attachmentPaths spec"
  by (simp add: attachmentPaths_def)

lemma no_attachments_Owner [simp]:
  "no_attachments (spec\<lparr>Owner := x\<rparr>) = no_attachments spec"
  by (simp add: no_attachments_def)

lemma attachmentPaths_injectGPU [simp]:
  "attachmentPaths (injectGPU spec gpus) = attachmentPaths spec"
  by (simp add: attachmentPaths_def injectGPU_def Let_def zeroVirtualMachineSpec_def
      zeroDevicesSpec_def entries_def pathsOfControllers_Nil split: option.splits)

lemma prepare_parts:
  assumes "CreateAndStartVM_prepare h specJSON addGPU = Inr (spec, doc, vmID)"
  shows "\<exists>spec0 spec2.
           json_Unmarshal h specJSON = (spec0, None) \<and>
           makePathsAbsolute (filepath_Abs h)
             (if Owner spec0 = [] then spec0\<lparr>Owner := ''hcstool''\<rparr> else spec0) = (spec2, None) \<and>
           attachmentPaths spec = attachmentPaths spec2 \<and>
           json_Marshal h spec = (doc, None)"
proof -
  obtain spec0 e0 where u: "json_Unmarshal h specJSON = (spec0, e0)"
    by (cases "json_Unmarshal h specJSON")
  let ?spec1 = "if Owner spec0 = [] then spec0\<lparr>Owner := ''hcstool''\<rparr> else spec0"
  obtain spec2 e2 where m: "makePathsAbsolute (filepath_Abs h) ?spec1 = (spec2, e2)"
    by (cases "makePathsAbsolute (filepath_Abs h) ?spec1")
  from assms u have e0: "e0 = None"
    by (cases e0) (simp_all add: CreateAndStartVM_prepare_def)
  from assms u m e0 have e2: "e2 = None"
    by (cases e2) (simp_all add: CreateAndStartVM_prepare_def Let_def)
  from assms u m e0 e2
  have "attachmentPaths spec = attachmentPaths spec2 \<and> json_Marshal h spec = (doc, None)"
    by (auto simp: CreateAndStartVM_prepare_def Let_def
        split: if_splits prod.splits option.splits sum.splits)
  with u m e0 e2 show ?thesis by blast
qed

lemma absAttachments_idem:
  assumes idem: "\<forall>p q. Abs p = (q, None) \<longrightarrow> Abs q = (q, None)"
  shows "absAttachments Abs (fst (absAttachments Abs atts)) = absAttachments Abs atts"
proof (induction atts)
  case Nil
  then show ?case by simp
next
  case (Cons x atts)
  obtain slot att where x: "x = (slot, att)" by (cases x)
  obtain rest' e where r: "absAttachments Abs atts = (rest', e)"
    by (cases "absAttachments Abs atts")
  with Cons.IH have ih: "absAttachments Abs rest' = (rest', e)" by simp
  show ?case
  proof (cases att)
    case None
    with x r ih show ?thesis by simp
  next
    case (Some a)
    show ?thesis
    proof (cases "Path a = []")
      case True
      with Some x r ih show ?thesis by simp
    next
      case False
      obtain q e1 where a: "Abs (Path a) = (q, e1)" by (cases "Abs (Path a)")
      show ?thesis
      proof (cases e1)
        case (Some err)
        with \<open>att = Some a\<close> False x a show ?thesis by simp
      next
        case None
        with a idem have q: "Abs q = (q, None)" by blast
        have "a\<lparr>Path := q, Path := q\<rparr> = a\<lparr>Path := q\<rparr>" by simp
        with \<open>att = Some a\<close> False x a None r ih q show ?thesis by simp
      qed
    qed
  qed
qed

lemma absControllers_idem:
  assumes idem: "\<forall>p q. Abs p = (q, None) \<longrightarrow> Abs q = (q, None)"
  shows "absControllers Abs (fst (absControllers Abs ctrls)) = absControllers Abs ctrls"
proof (induction ctrls)
  case Nil
  then show ?case by simp
next
  case (Cons x ctrls)
  obtain nm ctrl where x: "x = (nm, ctrl)" by (cases x)
  obtain rest' e where r: "absControllers Abs ctrls = (rest', e)"
    by (cases "absControllers Abs ctrls")
  with Cons.IH have ih: "absControllers Abs rest' = (rest', e)" by simp
  show ?case
  proof (cases ctrl)
    case None
    with x r ih show ?thesis by simp
  next
    case (Some c)
    show ?thesis
    proof (cases "Attachments c")
      case None
      with Some x r ih show ?thesis by simp
    next
      case (Some atts)
      obtain atts' e1 where a: "absAttachments Abs atts = (atts', e1)"
        by (cases "absAttachments Abs atts")
      with absAttachments_idem[OF idem, of atts]
      have a': "absAttachments Abs atts' = (atts', e1)" by simp
      have u: "c\<lparr>Attachments := Some atts', Attachments := Some atts'\<rparr> =
               c\<lparr>Attachments := Some atts'\<rparr>" by simp
      show ?thesis
      proof (cases e1)
        case None
        with \<open>ctrl = Some c\<close> Some x a a' r ih u show ?thesis by simp
      next
        case (Some err)
        with \<open>ctrl = Some c\<close> \<open>Attachments c = Some atts\<close> x a a' u show ?thesis by simp
      qed
    qed
  qed
qed

lemma makePathsAbsolute_idem:
  assumes idem: "\<forall>p q. Abs p = (q, None) \<longrightarrow> Abs q = (q, None)"
  shows "makePathsAbsolute Abs (fst (makePathsAbsolute Abs spec)) = makePathsAbsolute Abs spec"
proof (cases "VirtualMachine spec")
  case None
  then show ?thesis by (simp add: makePathsAbsolute_def)
next
  case (Some vm)
  note vm = this
  show ?thesis
  proof (cases "Devices vm")
    case None
    with vm show ?thesis by (simp add: makePathsAbsolute_def)
  next
    case (Some devs)
    note devs = this
    show ?thesis
    proof (cases "Scsi devs")
      case None
      with vm devs show ?thesis by (simp add: makePathsAbsolute_def)
    next
      case (Some ctrls)
      obtain ctrls' e where a: "absControllers Abs ctrls = (ctrls', e)"
        by (cases "absControllers Abs ctrls")
      with absControllers_idem[OF idem, of ctrls]
      have a': "absControllers Abs ctrls' = (ctrls', e)" by simp
      from vm devs Some a a' show ?thesis
        by (simp add: makePathsAbsolute_def)
    qed
  qed
qed

lemma absAttachments_fixed:
  "list_all (\<lambda>p. Abs p = (p, None)) (filter (\<lambda>p. p \<noteq> []) (pathsOfAttachments atts)) \<Longrightarrow>
   absAttachments Abs atts = (atts, None)"
  by (induction atts)
     (auto simp: pathsOfAttachments_Cons pathsOfAttachments_Nil split: option.splits)

lemma absControllers_fixed:
  "list_all (\<lambda>p. Abs p = (p, None)) (filter (\<lambda>p. p \<noteq> []) (pathsOfControllers ctrls)) \<Longrightarrow>
   absControllers Abs ctrls = (ctrls, None)"
proof (induction ctrls)
  case Nil
  then show ?case by simp
next
  case (Cons x ctrls)
  obtain nm ctrl where x: "x = (nm, ctrl)" by (cases x)
  from Cons x have ih: "absControllers Abs ctrls = (ctrls, None)"
    by (simp add: pathsOfControllers_Cons)
  show ?case
  proof (cases ctrl)
    case None
    with x ih show ?thesis by simp
  next
    case (Some c)
    show ?thesis
    proof (cases "Attachments c")
      case None
      with Some x ih show ?thesis by simp
    next
      case (Some atts)
      with Cons.prems x \<open>ctrl = Some c\<close>
      have "list_all (\<lambda>p. Abs p = (p, None)) (filter (\<lambda>p. p \<noteq> []) (pathsOfAttachments atts))"
        by (simp add: pathsOfControllers_Cons entries_Some)
      from absAttachments_fixed[OF this] have a: "absAttachments Abs atts = (atts, None)" .
      have "c\<lparr>Attachments := Some atts\<rparr> = c" using Some by simp
      with a x ih \<open>ctrl = Some c\<close> Some show ?thesis by simp
    qed
  qed
qed

lemma makePathsAbsolute_fixed:
  assumes "list_all (\<lambda>p. Abs p = (p, None)) (extractVHDPaths spec)"
  shows "makePathsAbsolute Abs spec = (spec, None)"
proof (cases "VirtualMachine spec")
  case None
  then show ?thesis by (simp add: makePathsAbsolute_def)
next
  case (Some vm)
  note vm = this
  show ?thesis
  proof (cases "Devices vm")
    case None
    with vm show ?thesis by (simp add: makePathsAbsolute_def)
  next
    case (Some devs)
    note devs = this
    show ?thesis
    proof (cases "Scsi devs")
      case None
      with vm devs show ?thesis by (simp add: makePathsAbsolute_def)
    next
      case (Some ctrls)
      from assms vm devs Some
      have "absControllers Abs ctrls = (ctrls, None)"
        by (intro absControllers_fixed)
           (simp add: extractVHDPaths_eq attachmentPaths_def entries_Some)
      moreover have "devs\<lparr>Scsi := Some ctrls\<rparr> = devs" using Some by simp
      moreover have "vm\<lparr>Devices := Some devs\<rparr> = vm" using devs by simp
      moreover have "spec\<lparr>VirtualMachine := Some vm\<rparr> = spec" using vm by simp
      ultimately show ?thesis using vm devs Some by (simp add: makePathsAbsolute_def)
    qed
  qed
qed

lemma idem_example:
  "\<forall>p q. filepath_Abs example_host p = (q, None) \<longrightarrow> filepath_Abs example_host q = (q, None)"
  by (auto simp: example_host_def split: if_splits)

lemma resolved_IsAbs:
  assumes l: "list_all2 (resolves Abs) ps qs"
      and sound: "\<forall>p q. Abs p = (q, None) \<longrightarrow> IsAbs q"
  shows "list_all IsAbs (filter (\<lambda>q. q \<noteq> []) qs)"
proof -
  have "\<forall>q \<in> set qs. q \<noteq> [] \<longrightarrow> IsAbs q"
  proof (intro ballI impI)
    fix q assume q: "q \<in> set qs" "q \<noteq> []"
    from l q(1) obtain p where "resolves Abs p q"
      by (auto simp: list_all2_conv_all_nth in_set_conv_nth)
    with q(2) have "Abs p = (q, None)" by (auto simp: resolves_def split: if_splits)
    with sound show "IsAbs q" by blast
  qed
  then show ?thesis by (simp add: list_all_iff)
qed

lemma create_call_args:
  assumes calls: "snd (CreateAndStartVM h specJSON name addGPU tr) = tr @ calls"
      and sub: "HcsCreateComputeSystem ident doc opn \<in> set calls"
  shows "\<exists>spec. CreateAndStartVM_prepare h specJSON addGPU = Inr (spec, doc, ident)"
proof (cases "CreateAndStartVM_prepare h specJSON addGPU")
  case (Inl err)
  with calls have "calls = []" by (simp add: CreateAndStartVM_def)
  with sub show ?thesis by simp
next
  case (Inr r)
  then obtain spec d vmID where
    p: "CreateAndStartVM_prepare h specJSON addGPU = Inr (spec, d, vmID)"
    by (cases r) auto
  obtain e g tr1 where l: "grantLoop h vmID (extractVHDPaths spec) [] tr = (e, g, tr1)"
    by (cases "grantLoop h vmID (extractVHDPaths spec) [] tr") auto
  from grantLoop_calls[of h vmID "extractVHDPaths spec" "[]" tr] l obtain c1 where
    c1: "tr1 = tr @ c1" "list_all (\<lambda>c. is_grant c \<or> is_revoke c) c1" by auto
  from c1(2) have n1: "HcsCreateComputeSystem ident doc opn \<notin> set c1"
    by (auto simp: list_all_iff)
  show ?thesis
  proof (cases e)
    case (Some err)
    with p l calls have "calls = c1" by (simp add: CreateAndStartVM_def c1(1))
    with sub n1 show ?thesis by simp
  next
    case None
    from create_phase_shape[of h vmID d g tr1] obtain c2 where
      c2: "snd (CreateAndStartVM_create h vmID d g tr1) = tr1 @ c2"
          "list_all (phase_call vmID d g) c2" by blast
    from p l None have "snd (CreateAndStartVM h specJSON name addGPU tr) = tr @ c1 @ c2"
      by (simp add: CreateAndStartVM_def c2(1)) (simp add: c1(1))
    with calls have "calls = c1 @ c2" by simp
    with sub n1 have "HcsCreateComputeSystem ident doc opn \<in> set c2" by simp
    with c2(2) have "ident = vmID \<and> doc = d" by (auto simp: list_all_iff)
    with p show ?thesis by blast
  qed
qed

text \<open>
  Claim C7, as amended. When \<open>CreateAndStartVM\<close> submits a document to
  \<open>HcsCreateComputeSystem\<close>, that document is the serialisation of a document whose
  attachment paths are, one by one, those of the parsed input: an empty path is still
  empty, every other path is what \<open>filepath.Abs\<close> returned for it. So every non-empty
  path is absolute as far as \<open>filepath.Abs\<close> returns absolute paths. Nothing is said
  about the existence of the files.
\<close>

theorem submitted_paths_are_resolved:
  assumes calls: "snd (CreateAndStartVM h specJSON name addGPU tr) = tr @ calls"
      and sub: "HcsCreateComputeSystem ident doc opn \<in> set calls"
  shows "\<exists>spec0 spec.
           json_Unmarshal h specJSON = (spec0, None) \<and>
           json_Marshal h spec = (doc, None) \<and>
           list_all2 (resolves (filepath_Abs h)) (attachmentPaths spec0) (attachmentPaths spec) \<and>
           extractVHDPaths spec = filter (\<lambda>q. q \<noteq> []) (attachmentPaths spec) \<and>
           ((\<forall>p q. filepath_Abs h p = (q, None) \<longrightarrow> filepath_IsAbs h q) \<longrightarrow>
              list_all (filepath_IsAbs h) (extractVHDPaths spec))"
proof -
  from create_call_args[OF calls sub] obtain spec where
    p: "CreateAndStartVM_prepare h specJSON addGPU = Inr (spec, doc, ident)" by blast
  from prepare_parts[OF p] obtain spec0 spec2 where
    u: "json_Unmarshal h specJSON = (spec0, None)" and
    m: "makePathsAbsolute (filepath_Abs h)
             (if Owner spec0 = [] then spec0\<lparr>Owner := ''hcstool''\<rparr> else spec0) = (spec2, None)" and
    a: "attachmentPaths spec = attachmentPaths spec2" and
    j: "json_Marshal h spec = (doc, None)" by blast
  from makePathsAbsolute_paths[OF m] a
  have l: "list_all2 (resolves (filepath_Abs h)) (attachmentPaths spec0) (attachmentPaths spec)"
    by (simp split: if_splits)
  have "(\<forall>p q. filepath_Abs h p = (q, None) \<longrightarrow> filepath_IsAbs h q) \<longrightarrow>
              list_all (filepath_IsAbs h) (extractVHDPaths spec)"
    using resolved_IsAbs[OF l] by (simp add: extractVHDPaths_eq)
  with u j l show ?thesis
    by (intro exI[of _ spec0] exI[of _ spec]) (simp add: extractVHDPaths_eq)
qed

text \<open>
  Claim C8. With GPU passthrough requested and an empty list from the discovery,
  \<open>CreateAndStartVM\<close> returns an error and makes no call at all, so no grant and no
  create call; when the document parses and its paths resolve, the error is
  "no GPUs found for GPU-PV".
\<close>

theorem no_gpu_aborts_before_any_call:
  assumes gpus: "enumerateGPUs h = ([], None)"
  shows "snd (CreateAndStartVM h specJSON name True tr) = tr \<and>
         fst (CreateAndStartVM h specJSON name True tr) \<noteq> None \<and>
         (json_Unmarshal h specJSON = (spec0, None) \<and>
          makePathsAbsolute (filepath_Abs h)
            (if Owner spec0 = [] then spec0\<lparr>Owner := ''hcstool''\<rparr> else spec0) = (spec2, None) \<longrightarrow>
          CreateAndStartVM h specJSON name True tr =
            (Some (Errorf ''no GPUs found for GPU-PV'' []), tr))"
proof -
  have "\<exists>e. CreateAndStartVM_prepare h specJSON True = Inl e"
    using gpus
    by (auto simp: CreateAndStartVM_prepare_def Let_def split: prod.splits option.splits)
  then obtain e where e: "CreateAndStartVM_prepare h specJSON True = Inl e" by blast
  have "json_Unmarshal h specJSON = (spec0, None) \<and>
          makePathsAbsolute (filepath_Abs h)
            (if Owner spec0 = [] then spec0\<lparr>Owner := ''hcstool''\<rparr> else spec0) = (spec2, None) \<longrightarrow>
        e = Errorf ''no GPUs found for GPU-PV'' []"
    using e gpus by (auto simp: CreateAndStartVM_prepare_def Let_def)
  with e show ?thesis by (simp add: CreateAndStartVM_def)
qed

lemma sound_example:
  "\<forall>p q. filepath_Abs example_host p = (q, None) \<longrightarrow> filepath_IsAbs example_host q"
  by (auto simp: example_host_def split: if_splits)

theorem submitted_paths_are_resolved_witness:
  "\<exists>spec. json_Marshal example_host spec = (three_disks_doc, None) \<and>
          list_all2 (resolves (filepath_Abs example_host))
            (attachmentPaths three_disks) (attachmentPaths spec) \<and>
          list_all (filepath_IsAbs example_host) (extractVHDPaths spec)"
proof -
  have c: "snd (CreateAndStartVM example_host ''three-disks.json'' ''vm1'' False []) =
     [] @ [HcsGrantVmAccess example_vmID ''C:/cwd/a.vhdx'',
       HcsGrantVmAccess example_vmID ''C:/vm/b.vhdx'',
       HcsGrantVmAccess example_vmID ''C:/cwd/c.vhdx'',
       HcsCreateOperation 0x11,
       HcsCreateComputeSystem example_vmID three_disks_doc 0x11,
       HcsWaitForOperationResult 0x11 infinite_timeout,
       HcsCloseOperation 0x11,
       HcsCreateOperation 0x22,
       HcsStartComputeSystem 0x5000 0x22,
       HcsWaitForOperationResult 0x22 infinite_timeout,
       HcsCloseOperation 0x22,
       HcsCloseComputeSystem 0x5000,
       Println example_vmID]"
    by (simp add: run_example)
  from submitted_paths_are_resolved[OF c, of example_vmID three_disks_doc "0x11"]
  obtain spec0 spec where
    u: "json_Unmarshal example_host ''three-disks.json'' = (spec0, None)" and
    j: "json_Marshal example_host spec = (three_disks_doc, None)" and
    l: "list_all2 (resolves (filepath_Abs example_host))
          (attachmentPaths spec0) (attachmentPaths spec)" and
    a: "(\<forall>p q. filepath_Abs example_host p = (q, None) \<longrightarrow> filepath_IsAbs example_host q) \<longrightarrow>
              list_all (filepath_IsAbs example_host) (extractVHDPaths spec)"
    by auto
  from u have "spec0 = three_disks" by (simp add: um_three)
  with j l a sound_example show ?thesis by blast
qed

lemma paths_three_abs:
  "attachmentPaths three_disks_abs = [''C:/cwd/a.vhdx'', ''C:/vm/b.vhdx'', ''C:/cwd/c.vhdx'', []]"
  by (simp add: attachmentPaths_def three_disks_abs_def zeroVirtualMachineSpec_def
      zeroDevicesSpec_def entries_def disk_def pathsOfControllers_def pathsOfAttachments_def)

lemma run_missing_files:
  "CreateAndStartVM host_missing_files ''three-disks.json'' ''vm1'' False [] =
     (None,
      [HcsGrantVmAccess example_vmID ''C:/cwd/a.vhdx'',
       HcsGrantVmAccess example_vmID ''C:/vm/b.vhdx'',
       HcsGrantVmAccess example_vmID ''C:/cwd/c.vhdx'',
       HcsCreateOperation 0x11,
       HcsCreateComputeSystem example_vmID three_disks_doc 0x11,
       HcsWaitForOperationResult 0x11 infinite_timeout,
       HcsCloseOperation 0x11,
       HcsCreateOperation 0x22,
       HcsStartComputeSystem 0x5000 0x22,
       HcsWaitForOperationResult 0x22 infinite_timeout,
       HcsCloseOperation 0x22,
       HcsCloseComputeSystem 0x5000,
       Println example_vmID])"
proof -
  let ?h = host_missing_files
  have p: "CreateAndStartVM_prepare ?h ''three-disks.json'' False =
     Inr (three_disks_abs, three_disks_doc, example_vmID)"
    by (rule prep_three_any) (simp_all add: host_missing_files_def)
  have g: "grantLoop ?h example_vmID (extractVHDPaths three_disks_abs) [] [] =
     (None, [''C:/cwd/a.vhdx'', ''C:/vm/b.vhdx'', ''C:/cwd/c.vhdx''],
      [HcsGrantVmAccess example_vmID ''C:/cwd/a.vhdx'',
       HcsGrantVmAccess example_vmID ''C:/vm/b.vhdx'',
       HcsGrantVmAccess example_vmID ''C:/cwd/c.vhdx''])"
    by (rule grants_three) (simp add: host_missing_files_def example_host_def)
  show ?thesis
    unfolding CreateAndStartVM_granted(1)[OF p g]
    by (simp add: run_defs host_missing_files_def example_host_def)
qed

theorem submitted_path_need_not_exist_counterexample:
  "HcsCreateComputeSystem example_vmID three_disks_doc 0x11 \<in>
     set (snd (CreateAndStartVM host_missing_files ''three-disks.json'' ''vm1'' False [])) \<and>
   CreateAndStartVM_prepare host_missing_files ''three-disks.json'' False =
     Inr (three_disks_abs, three_disks_doc, example_vmID) \<and>
   json_Marshal host_missing_files three_disks_abs = (three_disks_doc, None) \<and>
   attachmentPaths three_disks_abs =
     [''C:/cwd/a.vhdx'', ''C:/vm/b.vhdx'', ''C:/cwd/c.vhdx'', []] \<and>
   os_Stat host_missing_files ''C:/cwd/a.vhdx'' = Some (LibError ''file does not exist'') \<and>
   \<not> filepath_IsAbs host_missing_files []"
proof -
  have p: "CreateAndStartVM_prepare host_missing_files ''three-disks.json'' False =
     Inr (three_disks_abs, three_disks_doc, example_vmID)"
    by (rule prep_three_any) (simp_all add: host_missing_files_def)
  have j: "json_Marshal host_missing_files three_disks_abs = (three_disks_doc, None)"
    using marshal_three by (simp add: host_missing_files_def)
  have s: "os_Stat host_missing_files ''C:/cwd/a.vhdx'' = Some (LibError ''file does not exist'')"
    "\<not> filepath_IsAbs host_missing_files []"
    by (simp_all add: host_missing_files_def example_host_def)
  show ?thesis
    using p j s paths_three_abs by (simp add: run_missing_files)
qed

theorem no_gpu_aborts_before_any_call_witness:
  "CreateAndStartVM host_no_gpu ''three-disks.json'' ''vm1'' True [] =
     (Some (Errorf ''no GPUs found for GPU-PV'' []), [])"
proof -
  have g: "enumerateGPUs host_no_gpu = ([], None)" by (simp add: host_no_gpu_def)
  have u: "json_Unmarshal host_no_gpu ''three-disks.json'' = (three_disks, None)"
    using um_three by (simp add: host_no_gpu_def)
  have m: "makePathsAbsolute (filepath_Abs host_no_gpu)
            (if Owner three_disks = [] then three_disks\<lparr>Owner := ''hcstool''\<rparr> else three_disks) =
           (three_disks_abs, None)"
    using abs_three by (simp add: host_no_gpu_def owner_three)
  from no_gpu_aborts_before_any_call[OF g, where specJSON = "''three-disks.json''"
         and ?spec0.0 = three_disks and ?spec2.0 = three_disks_abs and name = "''vm1''"
         and tr = "[]"] u m
  show ?thesis by blast
qed

lemma run_bare_wait_fault:
  "CreateAndStartVM host_wait_fault ''bare.json'' ''vm1'' False [] =
     (Some (Errorfw ''create compute system: %w'' []
              (HcsError ''HcsWaitForOperationResult'' 0xC0351000 ''{Error:no hypervisor}'')),
      [HcsCreateOperation 0x11,
       HcsCreateComputeSystem example_vmID ''Owner=me'' 0x11,
       HcsWaitForOperationResult 0x11 infinite_timeout,
       HcsCloseOperation 0x11])"
proof -
  let ?h = host_wait_fault
  have e: "extractVHDPaths bare_spec = []"
    by (simp add: extractVHDPaths_def bare_spec_def)
  have u: "json_Unmarshal ?h ''bare.json'' = (bare_spec, None)"
    by (simp add: host_wait_fault_def example_host_def)
  have o: "Owner bare_spec = ''me''" by (simp add: bare_spec_def)
  have m: "makePathsAbsolute (filepath_Abs ?h) bare_spec = (bare_spec, None)"
    by (simp add: makePathsAbsolute_def bare_spec_def)
  have j: "json_Marshal ?h bare_spec = (''Owner=me'', None)"
    by (simp add: host_wait_fault_def example_host_def e o)
  have gg: "GenerateGUID ?h = (example_guid, None)"
    "GUID_String ?h example_guid = ''{6F9619FF-8B86-D011-B42D-00C04FC964FF}''"
    by (simp_all add: host_wait_fault_def example_host_def)
  have p: "CreateAndStartVM_prepare ?h ''bare.json'' False =
     Inr (bare_spec, ''Owner=me'', example_vmID)"
    by (simp add: CreateAndStartVM_prepare_def u o m j gg trim_guid)
  have g: "grantLoop ?h example_vmID (extractVHDPaths bare_spec) [] [] = (None, [], [])"
    by (simp add: e)
  show ?thesis
    unfolding CreateAndStartVM_granted(1)[OF p g]
    by (simp add: run_defs host_wait_fault_def example_host_def)
qed

text \<open>
  Claim C1, as amended. Let the attempt reach the grant loop; its paths \<open>vhdPaths\<close>
  (\<open>N\<close> of them) are the non-empty attachment paths of the input document as
  \<open>filepath.Abs\<close> resolved them. Let the first \<open>K < N\<close> grants succeed and the next one
  fail with \<open>err\<close>. Then \<open>CreateAndStartVM\<close> returns the error "grant VM access"
  wrapping \<open>err\<close>, and the calls it made are the \<open>K\<close> grants, the failed grant (when it
  reached the service) and then exactly \<open>K\<close> revokes, the \<open>i\<close>-th for the path of the
  \<open>i\<close>-th grant. No create and no start call is made. The revokes are for distinct
  paths exactly when the granted paths are distinct: two paths of the input that
  resolve to one path are granted twice and revoked twice.
\<close>

theorem grant_failure_revokes_granted:
  assumes prep: "CreateAndStartVM_prepare h specJSON addGPU = Inr (spec, finalJSON, vmID)"
      and paths: "vhdPaths = extractVHDPaths spec"
      and K: "K < length vhdPaths"
      and ok: "\<forall>i<K. fst (grantVmAccess h vmID (vhdPaths ! i)
                  (tr @ map (HcsGrantVmAccess vmID) (take i vhdPaths))) = None"
      and fail: "fst (grantVmAccess h vmID (vhdPaths ! K)
                  (tr @ map (HcsGrantVmAccess vmID) (take K vhdPaths))) = Some err"
  shows "\<exists>calls attempt spec0.
           CreateAndStartVM h specJSON name addGPU tr =
             (Some (Errorfw ''grant VM access: %w'' [] err), tr @ calls) \<and>
           calls = map (HcsGrantVmAccess vmID) (take K vhdPaths) @ attempt @
                   map (HcsRevokeVmAccess vmID) (take K vhdPaths) \<and>
           attempt = (if UTF16PtrFromString vmID = None \<and>
                         UTF16PtrFromString (vhdPaths ! K) = None
                      then [HcsGrantVmAccess vmID (vhdPaths ! K)] else []) \<and>
           filter is_revoke calls = map (HcsRevokeVmAccess vmID) (take K vhdPaths) \<and>
           length (filter is_revoke calls) = K \<and>
           distinct (filter is_revoke calls) = distinct (take K vhdPaths) \<and>
           filter is_create calls = [] \<and> filter is_start calls = [] \<and>
           json_Unmarshal h specJSON = (spec0, None) \<and>
           list_all2 (resolves (filepath_Abs h)) (attachmentPaths spec0) (attachmentPaths spec) \<and>
           vhdPaths = filter (\<lambda>p. p \<noteq> []) (attachmentPaths spec)"
proof -
  let ?trK = "tr @ map (HcsGrantVmAccess vmID) (take K vhdPaths)"
  let ?attempt = "if UTF16PtrFromString vmID = None \<and>
                         UTF16PtrFromString (vhdPaths ! K) = None
                      then [HcsGrantVmAccess vmID (vhdPaths ! K)] else []"
  let ?revs = "map (HcsRevokeVmAccess vmID) (take K vhdPaths)"
  let ?calls = "map (HcsGrantVmAccess vmID) (take K vhdPaths) @ ?attempt @ ?revs"
  have g: "grantVmAccess h vmID (vhdPaths ! K) ?trK = (Some err, ?trK @ ?attempt)"
    using fail snd_grantVmAccess[of h vmID "vhdPaths ! K" ?trK]
    by (cases "grantVmAccess h vmID (vhdPaths ! K) ?trK") auto
  have r0: "revocable vmID []" by (simp add: revocable_def)
  from grantLoop_fails_at[OF K ok g r0]
  have "grantLoop h vmID vhdPaths [] tr =
     (Some (Errorfw ''grant VM access: %w'' [] err), take K vhdPaths, tr @ ?calls)"
    by simp
  with prep paths
  have res: "CreateAndStartVM h specJSON name addGPU tr =
     (Some (Errorfw ''grant VM access: %w'' [] err), tr @ ?calls)"
    by (simp add: CreateAndStartVM_grant_failure)
  have fr: "filter is_revoke ?calls = ?revs"
    by (simp add: filter_map comp_def)
  have len: "length ?revs = K" using K by simp
  have dist: "distinct ?revs = distinct (take K vhdPaths)"
    by (simp add: distinct_map inj_on_def)
  have nc: "filter is_create ?calls = []" "filter is_start ?calls = []"
    by (simp_all add: filter_map comp_def)
  from prepare_parts[OF prep] obtain spec0 spec2 where
    u: "json_Unmarshal h specJSON = (spec0, None)" and
    m: "makePathsAbsolute (filepath_Abs h)
             (if Owner spec0 = [] then spec0\<lparr>Owner := ''hcstool''\<rparr> else spec0) = (spec2, None)" and
    a: "attachmentPaths spec = attachmentPaths spec2" by blast
  from makePathsAbsolute_paths[OF m] a
  have l: "list_all2 (resolves (filepath_Abs h)) (attachmentPaths spec0) (attachmentPaths spec)"
    by (simp split: if_splits)
  have v: "vhdPaths = filter (\<lambda>p. p \<noteq> []) (attachmentPaths spec)"
    by (simp add: paths extractVHDPaths_eq)
  show ?thesis
    using res fr len dist nc u l v
    by (intro exI[of _ ?calls] exI[of _ ?attempt] exI[of _ spec0]) simp
qed

theorem grant_failure_revokes_granted_witness:
  "CreateAndStartVM host_grant_fault ''three-disks.json'' ''vm1'' False [] =
     (Some (Errorfw ''grant VM access: %w'' []
              (HcsError ''HcsGrantVmAccess(C:/cwd/c.vhdx)'' 0x80070005 [])),
      [HcsGrantVmAccess example_vmID ''C:/cwd/a.vhdx'',
       HcsGrantVmAccess example_vmID ''C:/vm/b.vhdx'',
       HcsGrantVmAccess example_vmID ''C:/cwd/c.vhdx'',
       HcsRevokeVmAccess example_vmID ''C:/cwd/a.vhdx'',
       HcsRevokeVmAccess example_vmID ''C:/vm/b.vhdx''])"
proof -
  let ?paths = "[''C:/cwd/a.vhdx'', ''C:/vm/b.vhdx'', ''C:/cwd/c.vhdx'']"
  have p: "?paths = extractVHDPaths three_disks_abs" by (simp add: extract_three)
  have K: "2 < length ?paths" by simp
  have ok: "\<forall>i<2. fst (grantVmAccess host_grant_fault example_vmID (?paths ! i)
                  ([] @ map (HcsGrantVmAccess example_vmID) (take i ?paths))) = None"
    by (simp add: gf_grant less_Suc_eq numeral_2_eq_2)
  have fail: "fst (grantVmAccess host_grant_fault example_vmID (?paths ! 2)
                  ([] @ map (HcsGrantVmAccess example_vmID) (take 2 ?paths))) =
               Some (HcsError ''HcsGrantVmAccess(C:/cwd/c.vhdx)'' 0x80070005 [])"
    by (simp add: gf_grant numeral_2_eq_2)
  have u: "UTF16PtrFromString example_vmID = None"
    "UTF16PtrFromString ''C:/cwd/c.vhdx'' = None"
    by (simp_all add: UTF16PtrFromString_def example_vmID_def)
  from grant_failure_revokes_granted[OF prep_three_gf p K ok fail, of "''vm1''"]
  obtain calls attempt where
    r: "CreateAndStartVM host_grant_fault ''three-disks.json'' ''vm1'' False [] =
         (Some (Errorfw ''grant VM access: %w'' []
              (HcsError ''HcsGrantVmAccess(C:/cwd/c.vhdx)'' 0x80070005 [])), [] @ calls)" and
    c: "calls = map (HcsGrantVmAccess example_vmID) (take 2 ?paths) @ attempt @
                   map (HcsRevokeVmAccess example_vmID) (take 2 ?paths)" and
    a: "attempt = (if UTF16PtrFromString example_vmID = None \<and>
                         UTF16PtrFromString (?paths ! 2) = None
                      then [HcsGrantVmAccess example_vmID (?paths ! 2)] else [])"
    by blast
  from r c a u show ?thesis by (simp add: numeral_2_eq_2)
qed

lemma paths_twin: "attachmentPaths twin_disks = [''a.vhdx'', ''./a.vhdx'', ''c.vhdx'']"
  by (simp add: attachmentPaths_def twin_disks_def zeroVirtualMachineSpec_def
      zeroDevicesSpec_def entries_def disk_def pathsOfControllers_def pathsOfAttachments_def)

lemma abs_cleaning:
  "filepath_Abs host_cleaning ''a.vhdx'' = (''C:/cwd/a.vhdx'', None)"
  "filepath_Abs host_cleaning ''./a.vhdx'' = (''C:/cwd/a.vhdx'', None)"
  "filepath_Abs host_cleaning ''c.vhdx'' = (''C:/cwd/c.vhdx'', None)"
  "filepath_Abs host_cleaning ''C:/vm/./b.vhdx'' = (''C:/vm/b.vhdx'', None)"
  by (simp_all add: host_cleaning_def)

lemma abs_twin:
  "makePathsAbsolute (filepath_Abs host_cleaning) twin_disks = (twin_disks_abs, None)"
  by (simp add: makePathsAbsolute_def twin_disks_def twin_disks_abs_def
      zeroVirtualMachineSpec_def zeroDevicesSpec_def disk_def abs_cleaning)

lemma extract_twin:
  "extractVHDPaths twin_disks_abs = [''C:/cwd/a.vhdx'', ''C:/cwd/a.vhdx'', ''C:/cwd/c.vhdx'']"
  by (simp add: extractVHDPaths_def twin_disks_abs_def zeroVirtualMachineSpec_def
      zeroDevicesSpec_def entries_def disk_def)

lemma prep_twin:
  "CreateAndStartVM_prepare host_cleaning_grant_fault ''twin-disks.json'' False =
     Inr (twin_disks_abs, ''Owner=me;C:/cwd/a.vhdx;C:/cwd/a.vhdx;C:/cwd/c.vhdx'', example_vmID)"
proof -
  let ?h = host_cleaning_grant_fault
  have u: "json_Unmarshal ?h ''twin-disks.json'' = (twin_disks, None)"
    by (simp add: host_cleaning_grant_fault_def host_cleaning_def)
  have o: "Owner twin_disks = ''me''" "Owner twin_disks_abs = ''me''"
    by (simp_all add: twin_disks_def twin_disks_abs_def)
  have f: "filepath_Abs ?h = filepath_Abs host_cleaning"
    by (simp add: host_cleaning_grant_fault_def)
  have j: "json_Marshal ?h twin_disks_abs =
     (''Owner=me;C:/cwd/a.vhdx;C:/cwd/a.vhdx;C:/cwd/c.vhdx'', None)"
    by (simp add: host_cleaning_grant_fault_def host_cleaning_def example_host_def
        extract_twin o)
  have gg: "GenerateGUID ?h = (example_guid, None)"
    "GUID_String ?h example_guid = ''{6F9619FF-8B86-D011-B42D-00C04FC964FF}''"
    by (simp_all add: host_cleaning_grant_fault_def host_cleaning_def example_host_def)
  show ?thesis
    by (simp add: CreateAndStartVM_prepare_def u o f abs_twin j gg trim_guid)
qed

lemma run_twin:
  "CreateAndStartVM host_cleaning_grant_fault ''twin-disks.json'' ''vm1'' False [] =
     (Some (Errorfw ''grant VM access: %w'' []
              (HcsError ''HcsGrantVmAccess(C:/cwd/c.vhdx)'' 0x80070005 [])),
      [HcsGrantVmAccess example_vmID ''C:/cwd/a.vhdx'',
       HcsGrantVmAccess example_vmID ''C:/cwd/a.vhdx'',
       HcsGrantVmAccess example_vmID ''C:/cwd/c.vhdx'',
       HcsRevokeVmAccess example_vmID ''C:/cwd/a.vhdx'',
       HcsRevokeVmAccess example_vmID ''C:/cwd/a.vhdx''])"
proof -
  have l: "grantLoop host_cleaning_grant_fault example_vmID
             (extractVHDPaths twin_disks_abs) [] [] =
     (Some (Errorfw ''grant VM access: %w'' []
              (HcsError ''HcsGrantVmAccess(C:/cwd/c.vhdx)'' 0x80070005 [])),
      [''C:/cwd/a.vhdx'', ''C:/cwd/a.vhdx''],
      [HcsGrantVmAccess example_vmID ''C:/cwd/a.vhdx'',
       HcsGrantVmAccess example_vmID ''C:/cwd/a.vhdx'',
       HcsGrantVmAccess example_vmID ''C:/cwd/c.vhdx'',
       HcsRevokeVmAccess example_vmID ''C:/cwd/a.vhdx'',
       HcsRevokeVmAccess example_vmID ''C:/cwd/a.vhdx''])"
    by (simp add: extract_twin grantVmAccess_def revokeVmAccess_def UTF16PtrFromString_def
        hrOK_def Let_def example_vmID_def host_cleaning_grant_fault_def)
  show ?thesis by (rule CreateAndStartVM_grant_failure[OF prep_twin l])
qed

theorem revokes_of_one_path_twice_counterexample:
  "json_Unmarshal host_cleaning_grant_fault ''twin-disks.json'' = (twin_disks, None) \<and>
   attachmentPaths twin_disks = [''a.vhdx'', ''./a.vhdx'', ''c.vhdx''] \<and>
   distinct (attachmentPaths twin_disks) \<and>
   CreateAndStartVM host_cleaning_grant_fault ''twin-disks.json'' ''vm1'' False [] =
     (Some (Errorfw ''grant VM access: %w'' []
              (HcsError ''HcsGrantVmAccess(C:/cwd/c.vhdx)'' 0x80070005 [])),
      [HcsGrantVmAccess example_vmID ''C:/cwd/a.vhdx'',
       HcsGrantVmAccess example_vmID ''C:/cwd/a.vhdx'',
       HcsGrantVmAccess example_vmID ''C:/cwd/c.vhdx'',
       HcsRevokeVmAccess example_vmID ''C:/cwd/a.vhdx'',
       HcsRevokeVmAccess example_vmID ''C:/cwd/a.vhdx'']) \<and>
   \<not> distinct (filter is_revoke
       (snd (CreateAndStartVM host_cleaning_grant_fault ''twin-disks.json'' ''vm1'' False [])))"
proof -
  have u: "json_Unmarshal host_cleaning_grant_fault ''twin-disks.json'' = (twin_disks, None)"
    by (simp add: host_cleaning_grant_fault_def host_cleaning_def)
  show ?thesis
    using u by (simp add: paths_twin run_twin)
qed

text \<open>
  Claim C6, as amended. \<open>filepath.Abs\<close> is a library function and a parameter here; it
  is assumed to return its own results unchanged. Then a document whose non-empty paths
  are all results of \<open>filepath.Abs\<close> is returned unchanged, without error; and after a
  successful application of \<open>makePathsAbsolute\<close> every non-empty path is such a result,
  so that a second application changes nothing, neither on the document returned nor
  on any document with the same paths, in whatever order its maps are visited. Nothing
  is said of a path that is absolute and not a result of \<open>filepath.Abs\<close>.
\<close>

theorem makePathsAbsolute_idempotent:
  assumes idem: "\<forall>p q. Abs p = (q, None) \<longrightarrow> Abs q = (q, None)"
  shows "(list_all (\<lambda>q. \<exists>p. Abs p = (q, None)) (extractVHDPaths spec) \<longrightarrow>
            makePathsAbsolute Abs spec = (spec, None)) \<and>
         (makePathsAbsolute Abs spec = (spec', None) \<longrightarrow>
            list_all (\<lambda>q. \<exists>p. Abs p = (q, None)) (extractVHDPaths spec') \<and>
            makePathsAbsolute Abs spec' = (spec', None) \<and>
            (\<forall>spec''. set (extractVHDPaths spec'') \<subseteq> set (extractVHDPaths spec') \<longrightarrow>
                      makePathsAbsolute Abs spec'' = (spec'', None)))"
proof (intro conjI impI allI)
  assume "list_all (\<lambda>q. \<exists>p. Abs p = (q, None)) (extractVHDPaths spec)"
  with idem have "list_all (\<lambda>p. Abs p = (p, None)) (extractVHDPaths spec)"
    by (auto simp: list_all_iff)
  then show "makePathsAbsolute Abs spec = (spec, None)" by (rule makePathsAbsolute_fixed)
next
  assume m: "makePathsAbsolute Abs spec = (spec', None)"
  from makePathsAbsolute_paths[OF m]
  have l: "list_all2 (resolves Abs) (attachmentPaths spec) (attachmentPaths spec')" .
  have r: "\<forall>q \<in> set (attachmentPaths spec'). q \<noteq> [] \<longrightarrow> (\<exists>p. Abs p = (q, None))"
  proof (intro ballI impI)
    fix q assume q: "q \<in> set (attachmentPaths spec')" "q \<noteq> []"
    from l q(1) obtain p where "resolves Abs p q"
      by (auto simp: list_all2_conv_all_nth in_set_conv_nth)
    with q(2) have "Abs p = (q, None)" by (auto simp: resolves_def split: if_splits)
    then show "\<exists>p. Abs p = (q, None)" by blast
  qed
  then show res: "list_all (\<lambda>q. \<exists>p. Abs p = (q, None)) (extractVHDPaths spec')"
    by (simp add: extractVHDPaths_eq list_all_iff)
  from res idem have fp: "list_all (\<lambda>p. Abs p = (p, None)) (extractVHDPaths spec')"
    by (auto simp: list_all_iff)
  then show "makePathsAbsolute Abs spec' = (spec', None)" by (rule makePathsAbsolute_fixed)
  fix spec''
  assume "set (extractVHDPaths spec'') \<subseteq> set (extractVHDPaths spec')"
  with fp have "list_all (\<lambda>p. Abs p = (p, None)) (extractVHDPaths spec'')"
    by (auto simp: list_all_iff)
  then show "makePathsAbsolute Abs spec'' = (spec'', None)" by (rule makePathsAbsolute_fixed)
qed

theorem makePathsAbsolute_idempotent_witness:
  "makePathsAbsolute (filepath_Abs example_host) (three_disks\<lparr>Owner := ''hcstool''\<rparr>) =
     (three_disks_abs, None) \<and>
   three_disks_abs \<noteq> three_disks\<lparr>Owner := ''hcstool''\<rparr> \<and>
   makePathsAbsolute (filepath_Abs example_host) three_disks_abs = (three_disks_abs, None)"
proof -
  have ne: "three_disks_abs \<noteq> three_disks\<lparr>Owner := ''hcstool''\<rparr>"
    by (simp add: three_disks_abs_def three_disks_def disk_def
        zeroVirtualMachineSpec_def zeroDevicesSpec_def)
  from makePathsAbsolute_idempotent[OF idem_example,
         of "three_disks\<lparr>Owner := ''hcstool''\<rparr>" three_disks_abs]
  show ?thesis using abs_three ne by simp
qed

theorem absolute_path_is_rewritten_counterexample:
  "filepath_IsAbs host_cleaning ''C:/vm/./b.vhdx'' \<and>
   filepath_Abs host_cleaning ''C:/vm/./b.vhdx'' = (''C:/vm/b.vhdx'', None) \<and>
   attachmentPaths unclean_disk = [''C:/vm/./b.vhdx''] \<and>
   makePathsAbsolute (filepath_Abs host_cleaning) unclean_disk = (clean_disk, None) \<and>
   attachmentPaths clean_disk = [''C:/vm/b.vhdx''] \<and>
   clean_disk \<noteq> unclean_disk"
proof -
  have a: "filepath_IsAbs host_cleaning ''C:/vm/./b.vhdx''"
    by (simp add: host_cleaning_def example_host_def)
  have p: "attachmentPaths unclean_disk = [''C:/vm/./b.vhdx'']"
    "attachmentPaths clean_disk = [''C:/vm/b.vhdx'']"
    by (simp_all add: attachmentPaths_def unclean_disk_def clean_disk_def
        zeroVirtualMachineSpec_def zeroDevicesSpec_def entries_def disk_def
        pathsOfControllers_def pathsOfAttachments_def)
  have m: "makePathsAbsolute (filepath_Abs host_cleaning) unclean_disk = (clean_disk, None)"
    by (simp add: makePathsAbsolute_def unclean_disk_def clean_disk_def
        zeroVirtualMachineSpec_def zeroDevicesSpec_def disk_def abs_cleaning)
  have ne: "clean_disk \<noteq> unclean_disk"
    using p by auto
  from a p m ne show ?thesis by (simp add: abs_cleaning)
qed

lemma start_phase_error_kind:
  "fst (CreateAndStartVM_start h vmID g sys tr) = Some e \<Longrightarrow>
   e = Errorf ''HcsCreateOperation returned NULL'' [] \<or>
   (\<exists>hr. e = HcsError ''HcsStartComputeSystem'' hr []) \<or>
   (\<exists>w. e = Errorfw ''start compute system: %w'' [] w)"
  by (auto simp: CreateAndStartVM_start_def createOperation_def startComputeSystem_def Let_def
      split: prod.splits option.splits if_splits)

lemma create_phase_error_kind:
  "fst (CreateAndStartVM_create h vmID doc g tr) = Some e \<Longrightarrow>
   e = Errorf ''HcsCreateOperation returned NULL'' [] \<or>
   (\<exists>opname hr. e = HcsError opname hr []) \<or>
   (\<exists>w. e = Errorfw ''invalid system id: %w'' [] w) \<or>
   (\<exists>w. e = Errorfw ''invalid config JSON: %w'' [] w) \<or>
   (\<exists>w. e = Errorfw ''create compute system: %w'' [] w) \<or>
   (\<exists>w. e = Errorfw ''start compute system: %w'' [] w)"
proof -
  assume a: "fst (CreateAndStartVM_create h vmID doc g tr) = Some e"
  obtain opn e1 tr1 where c: "createOperation h tr = ((opn, e1), tr1)"
    by (cases "createOperation h tr") auto
  show ?thesis
  proof (cases e1)
    case (Some err)
    with a c createOperation_fail[OF c[unfolded Some]] show ?thesis
      by (simp add: CreateAndStartVM_create_def)
  next
    case None
    note c = c[unfolded None]
    obtain sys e2 tr2 where s: "createComputeSystem h vmID doc opn tr1 = ((sys, e2), tr2)"
      by (cases "createComputeSystem h vmID doc opn tr1") auto
    obtain rj e3 tr3 where w: "waitForResult h opn infinite_timeout tr2 = ((rj, e3), tr3)"
      by (cases "waitForResult h opn infinite_timeout tr2") auto
    note steps = create_phase_steps[OF c s w, of g]
    show ?thesis
    proof (cases e2)
      case (Some err)
      with a steps have "e = err" by simp
      with s Some show ?thesis
        by (auto simp: createComputeSystem_def Let_def split: option.splits prod.splits if_splits)
    next
      case None
      show ?thesis
      proof (cases e3)
        case (Some werr)
        with a steps None have "e = Errorfw ''create compute system: %w'' [] werr" by auto
        then show ?thesis by blast
      next
        case e3: None
        with a steps None
        have "fst (CreateAndStartVM_start h vmID g sys (tr3 @ [HcsCloseOperation opn])) = Some e"
          by simp
        from start_phase_error_kind[OF this] show ?thesis by blast
      qed
    qed
  qed
qed

text \<open>
  Claim C10. For a parsed document without SCSI attachments (a nil virtual-machine
  section, device section, controller map, controller, attachment map or attachment),
  \<open>makePathsAbsolute\<close> returns the document unchanged and no error, also after the owner
  is defaulted, and \<open>extractVHDPaths\<close> returns no path. Whenever the rest of the
  preparation succeeds, the grant loop has no path to grant and succeeds without a
  call, and the attempt proceeds: it is the creation step run with no granted path,
  and its first call is \<open>HcsCreateOperation\<close>. Whatever happens, the attempt makes no
  grant call and no revoke call, and the error it returns, if any, is neither the one
  of path resolution nor the one of the grant loop.
\<close>

theorem nil_structures_need_no_grant:
  assumes parsed: "json_Unmarshal h specJSON = (spec0, None)"
      and nil: "no_attachments spec0"
  shows "makePathsAbsolute (filepath_Abs h) spec0 = (spec0, None) \<and>
         makePathsAbsolute (filepath_Abs h) (spec0\<lparr>Owner := ''hcstool''\<rparr>) =
           (spec0\<lparr>Owner := ''hcstool''\<rparr>, None) \<and>
         extractVHDPaths spec0 = [] \<and>
         (\<forall>spec doc vmID.
            CreateAndStartVM_prepare h specJSON addGPU = Inr (spec, doc, vmID) \<longrightarrow>
            extractVHDPaths spec = [] \<and>
            grantLoop h vmID (extractVHDPaths spec) [] tr = (None, [], tr) \<and>
            CreateAndStartVM h specJSON name addGPU tr =
              CreateAndStartVM_create h vmID doc [] tr \<and>
            (\<exists>rest. snd (CreateAndStartVM h specJSON name addGPU tr) =
                      tr @ HcsCreateOperation (HcsCreateOperation_ret h tr) # rest)) \<and>
         (\<exists>calls. snd (CreateAndStartVM h specJSON name addGPU tr) = tr @ calls \<and>
                  filter is_grant calls = [] \<and> filter is_revoke calls = []) \<and>
         (\<forall>p e. fst (CreateAndStartVM h specJSON name addGPU tr) \<noteq>
                  Some (Errorfw ''cannot resolve path %q: %w'' [p] e)) \<and>
         (\<forall>e. fst (CreateAndStartVM h specJSON name addGPU tr) \<noteq>
                Some (Errorfw ''grant VM access: %w'' [] e))"
proof -
  have 1: "makePathsAbsolute (filepath_Abs h) spec0 = (spec0, None)"
    by (rule no_attachments_noop[OF nil])
  have 2: "makePathsAbsolute (filepath_Abs h) (spec0\<lparr>Owner := ''hcstool''\<rparr>) =
           (spec0\<lparr>Owner := ''hcstool''\<rparr>, None)"
    by (rule no_attachments_noop) (simp add: nil)
  have 3: "extractVHDPaths spec0 = []"
    by (simp add: extractVHDPaths_eq no_attachments_paths[OF nil])
  have 4: "extractVHDPaths spec = []"
    if p: "CreateAndStartVM_prepare h specJSON addGPU = Inr (spec, doc, vmID)"
    for spec doc vmID
  proof -
    from prepare_parts[OF p] parsed obtain spec2 where
      m: "makePathsAbsolute (filepath_Abs h)
             (if Owner spec0 = [] then spec0\<lparr>Owner := ''hcstool''\<rparr> else spec0) = (spec2, None)"
      and a: "attachmentPaths spec = attachmentPaths spec2" by auto
    from m 1 2 have "spec2 = (if Owner spec0 = [] then spec0\<lparr>Owner := ''hcstool''\<rparr> else spec0)"
      by (simp split: if_splits)
    then have "attachmentPaths spec2 = attachmentPaths spec0" by simp
    with a show ?thesis
      by (simp add: extractVHDPaths_eq no_attachments_paths[OF nil])
  qed
  have 5: "CreateAndStartVM h specJSON name addGPU tr =
              CreateAndStartVM_create h vmID doc [] tr"
    if p: "CreateAndStartVM_prepare h specJSON addGPU = Inr (spec, doc, vmID)"
    for spec doc vmID
    using p 4[OF p] by (simp add: CreateAndStartVM_def)
  have 6: "\<exists>rest. snd (CreateAndStartVM_create h vmID doc [] tr) =
                      tr @ HcsCreateOperation (HcsCreateOperation_ret h tr) # rest"
    for vmID doc
  proof -
    obtain opn e1 tr1 where c: "createOperation h tr = ((opn, e1), tr1)"
      by (cases "createOperation h tr") auto
    have tr1: "tr1 = tr @ [HcsCreateOperation (HcsCreateOperation_ret h tr)]"
      using c snd_createOperation[of h tr] by simp
    show ?thesis
    proof (cases e1)
      case (Some err)
      with c tr1 show ?thesis by (simp add: CreateAndStartVM_create_def)
    next
      case None
      note c = c[unfolded None]
      from createOperation_ok[OF c] have nz: "opn \<noteq> 0" by blast
      obtain sys e2 tr2 where s: "createComputeSystem h vmID doc opn tr1 = ((sys, e2), tr2)"
        by (cases "createComputeSystem h vmID doc opn tr1") auto
      obtain rj e3 tr3 where w: "waitForResult h opn infinite_timeout tr2 = ((rj, e3), tr3)"
        by (cases "waitForResult h opn infinite_timeout tr2") auto
      from createComputeSystem_trace[OF s] obtain c2 where t2: "tr2 = tr1 @ c2" by blast
      from waitForResult_trace[OF w] obtain c3 where t3: "tr3 = tr2 @ c3" by blast
      have t4: "tr3 @ [HcsCloseOperation opn] =
                tr @ HcsCreateOperation (HcsCreateOperation_ret h tr) #
                  (c2 @ c3 @ [HcsCloseOperation opn])"
        by (simp add: t3 t2 tr1)
      from start_phase_shape[of h vmID "[]" sys "tr3 @ [HcsCloseOperation opn]" doc]
      obtain c4 where
        "snd (CreateAndStartVM_start h vmID [] sys (tr3 @ [HcsCloseOperation opn])) =
           (tr3 @ [HcsCloseOperation opn]) @ c4" by blast
      then show ?thesis
        unfolding create_phase_steps[OF c s w, of "[]"] t4
        by (auto split: option.splits)
    qed
  qed
  have 7: "\<exists>calls. snd (CreateAndStartVM h specJSON name addGPU tr) = tr @ calls \<and>
                  filter is_grant calls = [] \<and> filter is_revoke calls = []"
  proof (cases "CreateAndStartVM_prepare h specJSON addGPU")
    case (Inl err)
    then have "snd (CreateAndStartVM h specJSON name addGPU tr) = tr @ []"
      by (simp add: CreateAndStartVM_def)
    then show ?thesis by (intro exI[of _ "[]"]) simp
  next
    case (Inr r)
    then obtain spec doc vmID where
      p: "CreateAndStartVM_prepare h specJSON addGPU = Inr (spec, doc, vmID)"
      by (cases r) auto
    from create_phase_shape[of h vmID doc "[]" tr] obtain calls where
      c: "snd (CreateAndStartVM_create h vmID doc [] tr) = tr @ calls"
         "list_all (phase_call vmID doc []) calls" by blast
    from c(2) have "filter is_grant calls = [] \<and> filter is_revoke calls = []"
      by (induction calls) (auto elim: is_grant.elims is_revoke.elims)
    with 5[OF p] c(1) show ?thesis by auto
  qed
  have 8: "fst (CreateAndStartVM h specJSON name addGPU tr) \<noteq>
             Some (Errorfw ''cannot resolve path %q: %w'' [p] e) \<and>
           fst (CreateAndStartVM h specJSON name addGPU tr) \<noteq>
             Some (Errorfw ''grant VM access: %w'' [] e')" for p e e'
  proof (cases "CreateAndStartVM_prepare h specJSON addGPU")
    case (Inl err)
    have m: "makePathsAbsolute (filepath_Abs h)
               (if Owner spec0 = [] then spec0\<lparr>Owner := ''hcstool''\<rparr> else spec0) =
             (if Owner spec0 = [] then spec0\<lparr>Owner := ''hcstool''\<rparr> else spec0, None)"
      using 1 2 by simp
    from Inl parsed m
    have "err \<noteq> Errorfw ''cannot resolve path %q: %w'' [p] e \<and>
          err \<noteq> Errorfw ''grant VM access: %w'' [] e'"
      by (auto simp: CreateAndStartVM_prepare_def Let_def
          split: if_splits prod.splits option.splits sum.splits)
    with Inl show ?thesis by (simp add: CreateAndStartVM_def)
  next
    case (Inr r)
    then obtain spec doc vmID where
      p: "CreateAndStartVM_prepare h specJSON addGPU = Inr (spec, doc, vmID)"
      by (cases r) auto
    show ?thesis
      unfolding 5[OF p]
      by (auto dest!: create_phase_error_kind)
  qed
  from 1 2 3 4 5 6 7 8 show ?thesis
    by (auto simp del: snd_createOperation)
qed

lemma prep_bare_wait_fault:
  "CreateAndStartVM_prepare host_wait_fault ''bare.json'' False =
     Inr (bare_spec, ''Owner=me'', example_vmID)"
proof -
  let ?h = host_wait_fault
  have e: "extractVHDPaths bare_spec = []"
    by (simp add: extractVHDPaths_def bare_spec_def)
  have u: "json_Unmarshal ?h ''bare.json'' = (bare_spec, None)"
    by (simp add: host_wait_fault_def example_host_def)
  have o: "Owner bare_spec = ''me''" by (simp add: bare_spec_def)
  have m: "makePathsAbsolute (filepath_Abs ?h) bare_spec = (bare_spec, None)"
    by (simp add: makePathsAbsolute_def bare_spec_def)
  have j: "json_Marshal ?h bare_spec = (''Owner=me'', None)"
    by (simp add: host_wait_fault_def example_host_def e o)
  have gg: "GenerateGUID ?h = (example_guid, None)"
    "GUID_String ?h example_guid = ''{6F9619FF-8B86-D011-B42D-00C04FC964FF}''"
    by (simp_all add: host_wait_fault_def example_host_def)
  show ?thesis
    by (simp add: CreateAndStartVM_prepare_def u o m j gg trim_guid)
qed

theorem nil_structures_need_no_grant_witness:
  "makePathsAbsolute (filepath_Abs host_wait_fault) bare_spec = (bare_spec, None) \<and>
   extractVHDPaths bare_spec = [] \<and>
   CreateAndStartVM_prepare host_wait_fault ''bare.json'' False =
     Inr (bare_spec, ''Owner=me'', example_vmID) \<and>
   CreateAndStartVM host_wait_fault ''bare.json'' ''vm1'' False [] =
     CreateAndStartVM_create host_wait_fault example_vmID ''Owner=me'' [] [] \<and>
   CreateAndStartVM host_wait_fault ''bare.json'' ''vm1'' False [] =
     (Some (Errorfw ''create compute system: %w'' []
              (HcsError ''HcsWaitForOperationResult'' 0xC0351000 ''{Error:no hypervisor}'')),
      [HcsCreateOperation 0x11,
       HcsCreateComputeSystem example_vmID ''Owner=me'' 0x11,
       HcsWaitForOperationResult 0x11 infinite_timeout,
       HcsCloseOperation 0x11])"
proof -
  have u: "json_Unmarshal host_wait_fault ''bare.json'' = (bare_spec, None)"
    by (simp add: host_wait_fault_def example_host_def)
  have n: "no_attachments bare_spec"
    by (simp add: no_attachments_def bare_spec_def)
  have p: "CreateAndStartVM_prepare host_wait_fault ''bare.json'' False =
     Inr (bare_spec, ''Owner=me'', example_vmID)"
    by (rule prep_bare_wait_fault)
  from nil_structures_need_no_grant[OF u n, of False "[]" "''vm1''"] p
  have 1: "makePathsAbsolute (filepath_Abs host_wait_fault) bare_spec = (bare_spec, None)" and
    2: "extractVHDPaths bare_spec = []" and
    3: "CreateAndStartVM host_wait_fault ''bare.json'' ''vm1'' False [] =
          CreateAndStartVM_create host_wait_fault example_vmID ''Owner=me'' [] []"
    by blast+
  from 1 2 3 p show ?thesis by (simp add: run_bare_wait_fault)
qed

end
